(* ===== verification/Volley_Prelude.thy ===== *)
theory Volley_Prelude
  imports Complex_Main "HOL-Library.Word" "HOL-Library.AList" "HOL-Library.Multiset"
begin

text \<open>
  Prelude of the volley development: the names of the machine types the C++ code uses,
  the constants of \<open>include/cppload/core/constants.hpp\<close> that several components share,
  the lemma collections the component proofs draw on, and the generic facts about lists,
  association lists and words that no component owns.
\<close>

section \<open>Machine types\<close>

text \<open>
  Fixed-width integers are words: \<open>+\<close>, \<open>-\<close> and \<open>*\<close> wrap around as the C++ unsigned
  types do; a signed 64-bit value is an \<open>int\<close> where the code keeps it in range and a
  \<open>64 word\<close> read with \<open>sint\<close> where the overflow matters. A clock reading is a number
  of nanoseconds (\<open>steady_clock\<close>) or microseconds; both are \<open>int\<close>.
\<close>

type_synonym u16 = "16 word"
type_synonym u32 = "32 word"
type_synonym u64 = "64 word"
type_synonym time_ns = int

section \<open>Lemma collections\<close>

named_theorems res_simps "how a result value is built and taken apart"
named_theorems frame_simps "fields an operation leaves alone"
named_theorems inv_intros "operations keep the invariant of their component"

section \<open>Lists\<close>

text \<open>A scan \<open>while (i < n && p (s[i])) ++i\<close> that starts at \<open>i\<close> stops at \<open>scan p s i\<close>.\<close>

definition scan :: "('a \<Rightarrow> bool) \<Rightarrow> 'a list \<Rightarrow> nat \<Rightarrow> nat" where
  "scan p s i = i + length (takeWhile p (drop i s))"

lemma scan_ge [simp]: "i \<le> scan p s i"
  by (simp add: scan_def)

lemma scan_le_length: "i \<le> length s \<Longrightarrow> scan p s i \<le> length s"
proof -
  assume "i \<le> length s"
  moreover have "length (takeWhile p (drop i s)) \<le> length (drop i s)"
    by (rule length_takeWhile_le)
  ultimately show ?thesis by (simp add: scan_def)
qed

lemma scan_append:
  assumes "list_all p xs" "rest = [] \<or> \<not> p (hd rest)"
  shows "scan p (pre @ xs @ rest) (length pre) = length pre + length xs"
proof -
  have "takeWhile p (xs @ rest) = xs" using assms by (cases rest) (auto simp: list_all_iff takeWhile_append2)
  then show ?thesis by (simp add: scan_def)
qed

lemma scan_stop: "scan p s i < length s \<Longrightarrow> \<not> p (s ! scan p s i)"
proof -
  assume a: "scan p s i < length s"
  then have "length (takeWhile p (drop i s)) < length (drop i s)"
    by (simp add: scan_def)
  then have "\<not> p (drop i s ! length (takeWhile p (drop i s)))"
    by (rule nth_length_takeWhile)
  with a show ?thesis by (simp add: scan_def)
qed

lemma scan_all: "i \<le> k \<Longrightarrow> k < scan p s i \<Longrightarrow> p (s ! k)"
proof -
  assume a: "i \<le> k" "k < scan p s i"
  let ?t = "takeWhile p (drop i s)"
  from a have k: "k - i < length ?t" by (simp add: scan_def)
  then have "p (?t ! (k - i))" by (meson nth_mem set_takeWhileD)
  moreover have "?t ! (k - i) = drop i s ! (k - i)"
    using k by (simp add: takeWhile_nth)
  moreover have "i \<le> length s" using k by (cases "i \<le> length s") auto
  ultimately show ?thesis using a by simp
qed

lemma sorted_nth_le: "sorted xs \<Longrightarrow> i \<le> j \<Longrightarrow> j < length xs \<Longrightarrow> xs ! i \<le> xs ! j"
  by (simp add: sorted_nth_mono)

lemma sum_list_filter_le: "sum_list (map f (filter P xs)) \<le> sum_list (map (f :: 'a \<Rightarrow> nat) xs)"
  by (induction xs) auto

text \<open>Adding to one element of a list adds to its sum.\<close>

lemma sum_list_update_add:
  "i < length xs \<Longrightarrow> f y = f (xs ! i) + k \<Longrightarrow> sum_list (map f (xs[i := y])) = sum_list (map f xs) + (k :: 'a::comm_monoid_add)"
  by (induction xs arbitrary: i) (auto simp: ac_simps split: nat.splits)

text \<open>The same for a fold with a commutative operation such as \<open>min\<close> or \<open>max\<close>.\<close>

lemma fold_update_op:
  assumes assoc: "\<And>a b c. g (g a b) c = g a (g b c)" and comm: "\<And>a b. g a b = g b a"
    and "i < length xs" "f y = g k (f (xs ! i))"
  shows "fold (\<lambda>d. g (f d)) (xs[i := y]) a = g k (fold (\<lambda>d. g (f d)) xs a)"
proof -
  have shift: "fold (\<lambda>d. g (f d)) zs (g k b) = g k (fold (\<lambda>d. g (f d)) zs b)" for zs b
  proof (induction zs arbitrary: b)
    case (Cons z zs)
    have "g (f z) (g k b) = g k (g (f z) b)" by (metis assoc comm)
    with Cons show ?case by simp
  qed simp
  show ?thesis using assms(3,4)
  proof (induction xs arbitrary: i a)
    case (Cons x xs)
    then show ?case by (cases i) (simp_all add: assoc shift)
  qed simp
qed

text \<open>Counting the elements around a position of a sorted list.\<close>

lemma sorted_count_le: "sorted xs \<Longrightarrow> i < length xs \<Longrightarrow> i < length (filter (\<lambda>x. x \<le> xs ! i) xs)"
proof -
  assume a: "sorted xs" "i < length xs"
  have "filter (\<lambda>x. x \<le> xs ! i) (take (Suc i) xs) = take (Suc i) xs"
    using a by (auto simp: filter_id_conv in_set_conv_nth intro!: sorted_nth_le)
  then have "length (filter (\<lambda>x. x \<le> xs ! i) (take (Suc i) xs)) = Suc i" using a by simp
  moreover have "length (filter (\<lambda>x. x \<le> xs ! i) xs)
      = length (filter (\<lambda>x. x \<le> xs ! i) (take (Suc i) xs)) + length (filter (\<lambda>x. x \<le> xs ! i) (drop (Suc i) xs))"
    by (metis append_take_drop_id filter_append length_append)
  ultimately show ?thesis by simp
qed

lemma sorted_count_less: "sorted xs \<Longrightarrow> i < length xs \<Longrightarrow> length (filter (\<lambda>x. x < xs ! i) xs) \<le> i"
proof -
  assume a: "sorted xs" "i < length xs"
  have "\<not> x < xs ! i" if "x \<in> set (drop i xs)" for x
    using that a by (auto simp: in_set_conv_nth not_less intro!: sorted_nth_le)
  then have "filter (\<lambda>x. x < xs ! i) (drop i xs) = []" by (auto simp: filter_empty_conv)
  moreover have "length (filter (\<lambda>x. x < xs ! i) xs)
      = length (filter (\<lambda>x. x < xs ! i) (take i xs)) + length (filter (\<lambda>x. x < xs ! i) (drop i xs))"
    by (metis append_take_drop_id filter_append length_append)
  moreover have "length (filter (\<lambda>x. x < xs ! i) (take i xs)) \<le> i"
    by (rule order_trans [OF length_filter_le]) simp
  ultimately show ?thesis by simp
qed

lemma length_filter_sort: "length (filter P (sort xs)) = length (filter P xs)"
  by (metis mset_filter mset_sort size_mset)

section \<open>Association lists\<close>

text \<open>
  A \<open>std::unordered_map\<close> whose entries the code iterates over is an association list with
  distinct keys. The order of the list stands for the unspecified iteration order; no
  property depends on it.
\<close>

abbreviation keys_of :: "('k \<times> 'v) list \<Rightarrow> 'k list" where
  "keys_of m \<equiv> map fst m"

lemma map_of_filter_snd:
  assumes "distinct (keys_of m)"
  shows "map_of (filter (\<lambda>(k, v). P v) m) k
       = (case map_of m k of None \<Rightarrow> None | Some v \<Rightarrow> if P v then Some v else None)"
  using assms
proof (induction m)
  case (Cons kv m)
  obtain k' v where kv: "kv = (k', v)" by (cases kv)
  from Cons.prems kv have "k' \<notin> set (keys_of m)" by simp
  then have "map_of m k' = None" by (simp add: map_of_eq_None_iff)
  with Cons kv show ?case by (auto split: option.splits)
qed simp

lemma distinct_keys_filter: "distinct (keys_of m) \<Longrightarrow> distinct (keys_of (filter P m))"
  by (simp add: distinct_map_filter)

lemma set_update_subset: "set (AList.update k v m) \<subseteq> insert (k, v) (set m)"
  by (induction m) auto

lemma map_of_update [simp]: "map_of (AList.update k v m) = (map_of m)(k \<mapsto> v)"
  by (simp add: update_conv')

section \<open>Words\<close>

lemma unat_add_no_wrap:
  "unat a + unat b < 2 ^ LENGTH('w) \<Longrightarrow> unat (a + b) = unat a + unat b"
  for a b :: "'w::len word"
  by (simp add: unat_word_ariths)

lemma unat_inc_no_wrap:
  "unat a + 1 < 2 ^ LENGTH('w) \<Longrightarrow> unat (a + 1) = unat a + 1"
  for a :: "'w::len word"
  using unat_add_no_wrap [of a 1] by simp

lemma unat_of_nat_small: "n < 2 ^ LENGTH('w) \<Longrightarrow> unat (of_nat n :: 'w::len word) = n"
  by (simp add: unat_of_nat take_bit_nat_eq_self)

end
