(* ===== verification/Volley_Double.thy ===== *)
theory Volley_Double
  imports Volley_Prelude "HOL-Library.Log_Nat"
begin

text \<open>
  The arithmetic of C++ \<open>double\<close>: a finite value is a rational, and every operation is the
  exact rational operation followed by \<open>rnd\<close>, the IEEE-754 binary64 rounding to nearest with
  ties to even (53-bit significand, least exponent -1074). Values beyond the largest finite
  double, infinities and NaN are out of this range; a component that can meet them says how it
  treats them. What clients rely on is the locale \<open>fp_rounding\<close>, interpreted on \<open>rnd\<close>.
\<close>

section \<open>Rounding\<close>

definition ilog2 :: "rat \<Rightarrow> int" where
  "ilog2 q = (let (n, d) = quotient_of q; e = bitlen n - bitlen d
              in if 2 powi e \<le> q then e else e - 1)"

definition round_even :: "rat \<Rightarrow> int" where
  "round_even x = (let f = floor x; r = x - of_int f
     in if r < 1/2 \<or> (r = 1/2 \<and> even f) then f else f + 1)"

definition quantum :: "rat \<Rightarrow> int" where
  "quantum x = max (ilog2 \<bar>x\<bar> - 52) (-1074)"

definition rnd :: "rat \<Rightarrow> rat" where
  "rnd x = (if x = 0 then 0
            else of_int (round_even (x / 2 powi quantum x)) * 2 powi quantum x)"

definition fadd :: "rat \<Rightarrow> rat \<Rightarrow> rat" where "fadd x y = rnd (x + y)"
definition fsub :: "rat \<Rightarrow> rat \<Rightarrow> rat" where "fsub x y = rnd (x - y)"
definition fmul :: "rat \<Rightarrow> rat \<Rightarrow> rat" where "fmul x y = rnd (x * y)"
definition fdiv :: "rat \<Rightarrow> rat \<Rightarrow> rat" where "fdiv x y = rnd (x / y)"

text \<open>\<open>static_cast<int64_t>\<close> of a double in range truncates towards zero.\<close>

definition trunc_int :: "rat \<Rightarrow> int" where
  "trunc_int x = (if x < 0 then - floor (- x) else floor x)"

lemmas fp_defs = fadd_def fsub_def fmul_def fdiv_def

section \<open>The exponent of a positive rational\<close>

lemma ilog2_bounds:
  assumes "0 < q"
  shows "2 powi ilog2 q \<le> q" and "q < 2 powi (ilog2 q + 1)"
proof -
  obtain n d where nd: "quotient_of q = (n, d)" by (cases "quotient_of q")
  have q: "q = of_int n / of_int d" by (rule quotient_of_div [OF nd])
  have d: "0 < d" using quotient_of_denom_pos [OF nd] .
  have n: "0 < n" using assms q d by (simp add: zero_less_divide_iff)
  define a where "a = nat (bitlen n - 1)"
  define b where "b = nat (bitlen d - 1)"
  have bn: "bitlen n = int a + 1" and bd: "bitlen d = int b + 1"
    using bitlen_bounds [OF n] bitlen_bounds [OF d] n d unfolding a_def b_def
    by (auto simp: bitlen_def intro!: gr0I)
  have na: "2 ^ a \<le> n" "n < 2 ^ (a + 1)"
    using bitlen_bounds [OF n] by (simp_all add: bn nat_add_distrib)
  have db: "2 ^ b \<le> d" "d < 2 ^ (b + 1)"
    using bitlen_bounds [OF d] by (simp_all add: bd nat_add_distrib)
  have rn: "(2::rat) ^ a \<le> of_int n" "of_int n < (2::rat) ^ (a + 1)"
    using na by (metis of_int_le_iff of_int_less_iff of_int_numeral of_int_power)+
  have rd: "(2::rat) ^ b \<le> of_int d" "of_int d < (2::rat) ^ (b + 1)"
    using db by (metis of_int_le_iff of_int_less_iff of_int_numeral of_int_power)+
  have up: "q < 2 powi (int a - int b + 1)"
  proof -
    have "q < 2 ^ (a + 1) / of_int d" using rn d by (simp add: q divide_strict_right_mono)
    also have "\<dots> \<le> 2 ^ (a + 1) / 2 ^ b" using rd d by (intro divide_left_mono) auto
    also have "\<dots> = 2 powi (int a - int b + 1)"
      by (simp add: power_int_diff power_int_add)
    finally show ?thesis .
  qed
  have lo: "2 powi (int a - int b - 1) \<le> q"
  proof -
    have "(2::rat) powi (int a - int b - 1) = 2 ^ a / 2 ^ (b + 1)"
      by (simp add: power_int_diff power_int_add)
    also have "\<dots> \<le> 2 ^ a / of_int d" using rd d by (intro divide_left_mono) auto
    also have "\<dots> \<le> q" using rn d by (simp add: q divide_right_mono)
    finally show ?thesis .
  qed
  show "2 powi ilog2 q \<le> q" "q < 2 powi (ilog2 q + 1)"
    using up lo by (auto simp: ilog2_def nd bn bd Let_def algebra_simps)
qed

lemma ilog2_less: "0 < q \<Longrightarrow> q < 2 powi k \<Longrightarrow> ilog2 q < k"
  using ilog2_bounds(1) [of q] power_int_increasing [of k "ilog2 q" "2::rat"]
  by (cases "ilog2 q < k") auto

lemma ilog2_mono: "0 < x \<Longrightarrow> x \<le> y \<Longrightarrow> ilog2 x \<le> ilog2 y"
  using ilog2_less [of x "ilog2 y + 1"] ilog2_bounds(2) [of y] by simp

section \<open>Rounding to an integer\<close>

lemma round_even_of_int [simp]: "round_even (of_int n) = n"
  by (simp add: round_even_def)

lemma round_even_floor: "floor x \<le> round_even x" "round_even x \<le> floor x + 1"
  by (auto simp: round_even_def Let_def)

lemma round_even_mono: "x \<le> y \<Longrightarrow> round_even x \<le> round_even y"
proof -
  assume le: "x \<le> y"
  show ?thesis
  proof (cases "floor x = floor y")
    case True
    with le show ?thesis by (auto simp: round_even_def Let_def)
  next
    case False
    with floor_mono [OF le] have "floor x + 1 \<le> floor y" by simp
    with round_even_floor [of x] round_even_floor [of y] show ?thesis by linarith
  qed
qed

lemma round_even_minus: "round_even (- x) = - round_even x"
proof (cases "x = of_int (floor x)")
  case True
  then show ?thesis by (metis of_int_minus round_even_of_int)
next
  case False
  then have "of_int (floor x) < x" by (metis of_int_floor_le order_le_less)
  then have fl: "floor (- x) = - floor x - 1"
    by (intro floor_unique) (auto, linarith)
  show ?thesis by (auto simp: round_even_def Let_def fl; presburger)
qed

section \<open>Rounding to a double\<close>

lemma powi_quotient: "(2::rat) powi a / 2 powi b = 2 powi (a - b)"
  by (simp add: power_int_diff)

lemma powi_nonneg_int: "0 \<le> k \<Longrightarrow> (2::rat) powi k = of_int (2 ^ nat k)"
  by (simp add: power_int_def)

lemma rnd_minus: "rnd (- x) = - rnd x"
  by (simp add: rnd_def quantum_def round_even_minus)

lemma rnd_zero [simp]: "rnd 0 = 0"
  by (simp add: rnd_def)

lemma round_even_nonneg: "0 \<le> x \<Longrightarrow> 0 \<le> round_even x"
  using round_even_mono [of 0 x] round_even_of_int [of 0] by simp

lemma rnd_nonneg: "0 \<le> x \<Longrightarrow> 0 \<le> rnd x"
  by (auto simp: rnd_def intro!: mult_nonneg_nonneg round_even_nonneg)

text \<open>A power of two on the grid of \<open>x\<close> that bounds \<open>x\<close> bounds \<open>rnd x\<close>.\<close>

lemma rnd_le_powi:
  assumes "0 < x" "x \<le> 2 powi k" "quantum x \<le> k"
  shows "rnd x \<le> 2 powi k"
proof -
  have "x / 2 powi quantum x \<le> 2 powi (k - quantum x)"
    using assms(2) by (simp add: powi_quotient [symmetric] divide_right_mono)
  also have "\<dots> = of_int (2 ^ nat (k - quantum x))"
    using assms(3) by (intro powi_nonneg_int) simp
  finally have "round_even (x / 2 powi quantum x) \<le> 2 ^ nat (k - quantum x)"
    by (metis round_even_mono round_even_of_int)
  then have "of_int (round_even (x / 2 powi quantum x)) \<le> (of_int (2 ^ nat (k - quantum x)) :: rat)"
    by (simp only: of_int_le_iff)
  also have "\<dots> = 2 powi k / 2 powi quantum x"
    using assms(3) by (simp add: powi_quotient powi_nonneg_int)
  finally show ?thesis using assms(1) by (simp add: rnd_def pos_le_divide_eq)
qed

lemma rnd_ge_powi:
  assumes "2 powi k \<le> x" "quantum x \<le> k"
  shows "2 powi k \<le> rnd x"
proof -
  have x: "0 < x" using assms(1) by (rule less_le_trans [rotated]) simp
  have "(of_int (2 ^ nat (k - quantum x)) :: rat) = 2 powi (k - quantum x)"
    using assms(2) by (simp add: powi_nonneg_int)
  also have "\<dots> \<le> x / 2 powi quantum x"
    using assms(1) by (simp add: powi_quotient [symmetric] divide_right_mono)
  finally have "2 ^ nat (k - quantum x) \<le> round_even (x / 2 powi quantum x)"
    by (metis round_even_mono round_even_of_int)
  then have "(of_int (2 ^ nat (k - quantum x)) :: rat) \<le> of_int (round_even (x / 2 powi quantum x))"
    by (simp only: of_int_le_iff)
  then have "2 powi k / 2 powi quantum x \<le> (of_int (round_even (x / 2 powi quantum x)) :: rat)"
    using assms(2) by (simp add: powi_quotient powi_nonneg_int)
  then show ?thesis using x by (simp add: rnd_def pos_divide_le_eq)
qed

lemma rnd_mono_pos:
  assumes "0 < x" "x \<le> y"
  shows "rnd x \<le> rnd y"
proof (cases "quantum x = quantum y")
  case True
  have "x / 2 powi quantum x \<le> y / 2 powi quantum x"
    using assms(2) by (simp add: divide_right_mono)
  then show ?thesis using assms True by (simp add: rnd_def round_even_mono)
next
  case False
  have le: "ilog2 x \<le> ilog2 y" using assms by (rule ilog2_mono)
  with False assms have q: "quantum x < quantum y" "quantum y = ilog2 y - 52" "ilog2 x < ilog2 y"
    by (auto simp: quantum_def)
  have "x \<le> 2 powi (ilog2 x + 1)" using ilog2_bounds(2) [OF assms(1)] by simp
  also have "\<dots> \<le> 2 powi ilog2 y" using q by (intro power_int_increasing) auto
  finally have "rnd x \<le> 2 powi ilog2 y" using assms q by (intro rnd_le_powi) auto
  also have "\<dots> \<le> rnd y"
    using assms q ilog2_bounds(1) [of y] by (intro rnd_ge_powi) auto
  finally show ?thesis .
qed

lemma rnd_mono: "x \<le> y \<Longrightarrow> rnd x \<le> rnd y"
proof -
  assume le: "x \<le> y"
  consider "0 < x" | "x \<le> 0" "0 \<le> y" | "y < 0" by linarith
  then show ?thesis
  proof cases
    case 1 with le show ?thesis by (simp add: rnd_mono_pos)
  next
    case 2
    with rnd_nonneg [of y] rnd_nonneg [of "- x"] show ?thesis by (simp add: rnd_minus)
  next
    case 3
    with le have "rnd (- y) \<le> rnd (- x)" by (intro rnd_mono_pos) auto
    then show ?thesis by (simp add: rnd_minus)
  qed
qed

text \<open>A number with a 53-bit significand on the double grid is a double.\<close>

lemma rnd_representable:
  assumes "\<bar>m\<bar> < 2 ^ 53" "-1074 \<le> k"
  shows "rnd (of_int m * 2 powi k) = of_int m * 2 powi k"
proof (cases "m = 0")
  case False
  let ?x = "of_int m * 2 powi k :: rat"
  have nz: "?x \<noteq> 0" using False by simp
  have "\<bar>?x\<bar> = of_int \<bar>m\<bar> * 2 powi k" by (simp add: abs_mult)
  also have "(of_int \<bar>m\<bar> :: rat) < of_int (2 ^ 53)" using assms(1) by (simp only: of_int_less_iff)
  then have "of_int \<bar>m\<bar> * 2 powi k < (2 powi (53 + k) :: rat)"
    by (simp add: power_int_add)
  finally have "ilog2 \<bar>?x\<bar> < 53 + k" using nz by (intro ilog2_less) auto
  then have q: "quantum ?x \<le> k" using assms(2) by (simp add: quantum_def)
  have "?x / 2 powi quantum ?x = of_int (m * 2 ^ nat (k - quantum ?x))"
    using q by (simp add: powi_quotient powi_nonneg_int flip: times_divide_eq_right)
  then have "of_int (round_even (?x / 2 powi quantum ?x)) = ?x / 2 powi quantum ?x"
    by (metis round_even_of_int)
  with nz show ?thesis by (simp add: rnd_def)
qed simp

lemma rnd_of_int: "\<bar>m\<bar> < 2 ^ 53 \<Longrightarrow> rnd (of_int m) = of_int m"
  using rnd_representable [of m 0] by simp

lemma rnd_of_nat: "n < 2 ^ 53 \<Longrightarrow> rnd (of_nat n) = of_nat n"
  using rnd_of_int [of "int n"] by simp

lemma rnd_numeral [simp]: "(numeral n :: int) < 2 ^ 53 \<Longrightarrow> rnd (numeral n) = numeral n"
  using rnd_of_int [of "numeral n"] by simp

lemma rnd_one [simp]: "rnd 1 = 1"
  using rnd_of_int [of 1] by simp

lemma rnd_powi: "-1074 \<le> k \<Longrightarrow> rnd (2 powi k) = 2 powi k"
  using rnd_representable [of 1 k] by simp

lemma scaled_bound:
  assumes "0 < x"
  shows "x / 2 powi quantum x < 2 ^ 53"
proof -
  have "x < 2 powi (ilog2 x + 1)" using ilog2_bounds(2) [OF assms] .
  also have "\<dots> \<le> 2 powi (53 + quantum x)"
    using assms by (intro power_int_increasing) (auto simp: quantum_def)
  finally show ?thesis by (simp add: power_int_add pos_divide_less_eq)
qed

lemma rnd_idem_pos:
  assumes "0 < x"
  shows "rnd (rnd x) = rnd x"
proof -
  let ?m = "round_even (x / 2 powi quantum x)"
  have q: "-1074 \<le> quantum x" by (simp add: quantum_def)
  have r: "rnd x = of_int ?m * 2 powi quantum x" using assms by (simp add: rnd_def)
  have lo: "0 \<le> ?m" using assms by (intro round_even_nonneg) simp
  have "?m \<le> round_even (of_int (2 ^ 53))"
    using scaled_bound [OF assms] by (intro round_even_mono) simp
  then have "?m \<le> 2 ^ 53" by (simp only: round_even_of_int)
  then consider "\<bar>?m\<bar> < 2 ^ 53" | "?m = 2 ^ 53" using lo by linarith
  then show ?thesis
  proof cases
    case 1 with q show ?thesis by (simp add: r rnd_representable)
  next
    case 2
    then have "rnd x = 2 powi (53 + quantum x)" by (simp add: r power_int_add)
    with q show ?thesis by (simp add: rnd_powi)
  qed
qed

lemma rnd_idem [simp]: "rnd (rnd x) = rnd x"
  using rnd_idem_pos [of x] rnd_idem_pos [of "- x"]
  by (cases x "0 :: rat" rule: linorder_cases) (auto simp: rnd_minus)

text \<open>Rounding moves a value by at most half a unit in the last place.\<close>

lemma round_even_error: "of_int (round_even x) \<le> x + 1/2"
proof -
  have "of_int (floor x) \<le> x" by (rule of_int_floor_le)
  then show ?thesis unfolding round_even_def Let_def
    by (cases "x - of_int (floor x)" "1/2 :: rat" rule: linorder_cases; simp; linarith)
qed

lemma rnd_error:
  assumes "0 \<le> x"
  shows "rnd x \<le> x + (x + 1) / 2 ^ 53"
proof (cases "x = 0")
  case False
  with assms have x: "0 < x" by simp
  let ?q = "2 powi quantum x :: rat"
  have "rnd x \<le> (x / ?q + 1/2) * ?q"
    using x round_even_error [of "x / ?q"] by (simp add: rnd_def mult_right_mono)
  then have r: "rnd x \<le> x + ?q / 2" by (simp add: algebra_simps)
  have "?q \<le> 2 powi (max (ilog2 x - 52) (-52))"
    using x by (intro power_int_increasing) (auto simp: quantum_def)
  also have "\<dots> \<le> 2 powi (ilog2 x - 52) + 2 powi (-52)" by (simp only: max_def) simp
  also have "2 powi (ilog2 x - 52) = (2 powi ilog2 x :: rat) / 2 ^ 52"
    by (simp add: power_int_diff)
  also have "\<dots> \<le> x / 2 ^ 52" using ilog2_bounds(1) [OF x] by (intro divide_right_mono) auto
  finally show ?thesis using r by (simp add: field_simps)
qed simp

lemma rnd_rel_error:
  assumes "2 powi (-1000) \<le> x"
  shows "rnd x \<le> x + x / 2 ^ 53"
proof -
  have x: "0 < x" using assms by (rule less_le_trans [rotated]) simp
  have "-1000 \<le> ilog2 x"
  proof (rule ccontr)
    assume "\<not> -1000 \<le> ilog2 x"
    then have "(2::rat) powi (ilog2 x + 1) \<le> 2 powi (-1000)" by (intro power_int_increasing) auto
    with assms ilog2_bounds(2) [OF x] show False by linarith
  qed
  then have q: "quantum x = ilog2 x - 52" using x by (simp add: quantum_def)
  let ?q = "2 powi quantum x :: rat"
  have "rnd x \<le> (x / ?q + 1/2) * ?q"
    using x round_even_error [of "x / ?q"] by (simp add: rnd_def mult_right_mono)
  then have "rnd x \<le> x + ?q / 2" by (simp add: algebra_simps)
  also have "?q = 2 powi ilog2 x / 2 ^ 52" by (simp add: q power_int_diff)
  also have "(2 powi ilog2 x / 2 ^ 52) / 2 \<le> x / 2 ^ 53"
    using ilog2_bounds(1) [OF x] by simp
  finally show ?thesis by simp
qed

section \<open>What clients of the arithmetic rely on\<close>

text \<open>
  The contract of a rounding: it is monotone, idempotent, leaves the integers below \<open>2 ^ 53\<close>
  alone and errs by at most half a unit in the last place.
  Every bound the components prove about a computed double follows from it.
\<close>

locale fp_rounding =
  fixes rd :: "rat \<Rightarrow> rat"
  assumes mono: "x \<le> y \<Longrightarrow> rd x \<le> rd y"
    and exact_int: "\<bar>m\<bar> < 2 ^ 53 \<Longrightarrow> rd (of_int m) = of_int m"
    and idem: "rd (rd x) = rd x"
    and half_ulp: "0 \<le> x \<Longrightarrow> rd x \<le> x + (x + 1) / 2 ^ 53"
    and half_ulp_rel: "2 powi (-1000) \<le> x \<Longrightarrow> rd x \<le> x + x / 2 ^ 53"
    and exact_scaled: "\<bar>m\<bar> < 2 ^ 53 \<Longrightarrow> -1074 \<le> k \<Longrightarrow> rd (of_int m * 2 powi k) = of_int m * 2 powi k"
begin

lemma at_zero: "rd 0 = 0"
  using exact_int [of 0] by simp

lemma pos_part: "0 \<le> x \<Longrightarrow> 0 \<le> rd x"
  using mono [of 0 x] at_zero by simp

lemma neg_part: "x \<le> 0 \<Longrightarrow> rd x \<le> 0"
  using mono [of x 0] at_zero by simp

lemma le_int: "x \<le> of_int m \<Longrightarrow> \<bar>m\<bar> < 2 ^ 53 \<Longrightarrow> rd x \<le> of_int m"
  using mono [of x "of_int m"] exact_int [of m] by simp

lemma ge_int: "of_int m \<le> x \<Longrightarrow> \<bar>m\<bar> < 2 ^ 53 \<Longrightarrow> of_int m \<le> rd x"
  using mono [of "of_int m" x] exact_int [of m] by simp

lemma ge_scaled: "of_int m * 2 powi k \<le> x \<Longrightarrow> \<bar>m\<bar> < 2 ^ 53 \<Longrightarrow> -1074 \<le> k \<Longrightarrow> of_int m * 2 powi k \<le> rd x"
  using mono [of "of_int m * 2 powi k" x] exact_scaled [of m k] by simp

lemma le_fix: "x \<le> y \<Longrightarrow> rd y = y \<Longrightarrow> rd x \<le> y"
  using mono [of x y] by simp

lemma ge_fix: "y \<le> x \<Longrightarrow> rd y = y \<Longrightarrow> y \<le> rd x"
  using mono [of y x] by simp

end

interpretation ieee: fp_rounding rnd
  by unfold_locales (fact rnd_mono rnd_of_int rnd_idem rnd_error rnd_rel_error rnd_representable)+

lemma trunc_int_nonneg: "0 \<le> x \<Longrightarrow> trunc_int x = floor x"
  by (simp add: trunc_int_def)

end
