(* ===== verification/Volley_Error.thy ===== *)
theory Volley_Error
  imports Volley_Prelude
begin

text \<open>
  The error codes of \<open>include/cppload/error.hpp\<close>, the \<open>Result\<close> template of
  \<open>include/cppload/result.hpp\<close>, and the exceptions the components throw. A throwing C++
  function returns \<open>cpp_exn + 'a\<close>, with \<open>Inl\<close> for the exception that leaves it.
\<close>

section \<open>Error codes\<close>

datatype Err =
    success | invalid_method | invalid_target | dns_failure | connection_refused
  | connection_reset | connection_timeout | read_error | write_error | tls_handshake_failed
  | tls_verify_failed | protocol_violation | invalid_response | operation_cancelled | timeout
  | invalid_config | parse_error | auth_failed | not_implemented | unknown
  | vault_not_found | vault_permission_denied | vault_token_invalid | vault_server_error
  | vault_unreachable
  | auth_token_expired | auth_invalid_grant | auth_invalid_client | auth_server_error
  | auth_parse_error

text \<open>\<open>static_cast<int>(e)\<close>: the first enumerator is 0 and each of the others one more than the one before.\<close>

fun err_code :: "Err \<Rightarrow> int" where
  "err_code success = 0"
| "err_code invalid_method = 1"
| "err_code invalid_target = 2"
| "err_code dns_failure = 3"
| "err_code connection_refused = 4"
| "err_code connection_reset = 5"
| "err_code connection_timeout = 6"
| "err_code read_error = 7"
| "err_code write_error = 8"
| "err_code tls_handshake_failed = 9"
| "err_code tls_verify_failed = 10"
| "err_code protocol_violation = 11"
| "err_code invalid_response = 12"
| "err_code operation_cancelled = 13"
| "err_code timeout = 14"
| "err_code invalid_config = 15"
| "err_code parse_error = 16"
| "err_code auth_failed = 17"
| "err_code not_implemented = 18"
| "err_code unknown = 19"
| "err_code vault_not_found = 20"
| "err_code vault_permission_denied = 21"
| "err_code vault_token_invalid = 22"
| "err_code vault_server_error = 23"
| "err_code vault_unreachable = 24"
| "err_code auth_token_expired = 25"
| "err_code auth_invalid_grant = 26"
| "err_code auth_invalid_client = 27"
| "err_code auth_server_error = 28"
| "err_code auth_parse_error = 29"

text \<open>The cases of the switch in \<open>ErrCategory::message\<close>.\<close>

definition message_cases :: "(Err \<times> string) list" where
  "message_cases =
    [(success, ''success''),
     (invalid_method, ''invalid HTTP method''),
     (invalid_target, ''invalid request target''),
     (dns_failure, ''DNS resolution failed''),
     (connection_refused, ''connection refused''),
     (connection_reset, ''connection reset''),
     (connection_timeout, ''connection timeout''),
     (read_error, ''read error''),
     (write_error, ''write error''),
     (tls_handshake_failed, ''TLS handshake failed''),
     (tls_verify_failed, ''TLS certificate verification failed''),
     (protocol_violation, ''protocol violation''),
     (invalid_response, ''invalid response''),
     (operation_cancelled, ''operation cancelled''),
     (timeout, ''timeout''),
     (invalid_config, ''invalid configuration''),
     (parse_error, ''parse error''),
     (auth_failed, ''authentication failed''),
     (not_implemented, ''not implemented''),
     (unknown, ''unknown error''),
     (vault_not_found, ''vault: secret not found''),
     (vault_permission_denied, ''vault: permission denied''),
     (vault_token_invalid, ''vault: invalid token''),
     (vault_server_error, ''vault: server error''),
     (vault_unreachable, ''vault: server unreachable''),
     (auth_token_expired, ''auth: token expired''),
     (auth_invalid_grant, ''auth: invalid grant''),
     (auth_invalid_client, ''auth: invalid client''),
     (auth_server_error, ''auth: server error''),
     (auth_parse_error, ''auth: response parse error'')]"

text \<open>
  \<open>ErrCategory::message\<close>. The cast to the enumeration converts to \<open>uint8_t\<close>; a value that no case has falls through the switch.
\<close>

definition category_message :: "int \<Rightarrow> string" where
  "category_message ev =
     (case find (\<lambda>c. err_code (fst c) = ev mod 2 ^ 8) message_cases of
        Some c \<Rightarrow> snd c
      | None \<Rightarrow> ''unrecognized error'')"

text \<open>\<open>make_error_code(e).message()\<close>.\<close>

definition err_message :: "Err \<Rightarrow> string" where
  "err_message e = category_message (err_code e)"

text \<open>\<open>std::error_code\<close> of the \<open>cppload\<close> category; \<open>if (ec)\<close> tests for a non-zero value.\<close>

record error_code =
  ec_value :: int
  ec_category :: string

definition make_error_code :: "Err \<Rightarrow> error_code" where
  "make_error_code e = \<lparr>ec_value = err_code e, ec_category = ''cppload''\<rparr>"

definition ec_set :: "error_code \<Rightarrow> bool" where
  "ec_set ec = (ec_value ec \<noteq> 0)"

section \<open>Results\<close>

datatype ('t, 'e) Result = ok 't | err 'e

fun has_value :: "('t, 'e) Result \<Rightarrow> bool" where
  "has_value (ok _) = True"
| "has_value (err _) = False"

fun value_or :: "('t, 'e) Result \<Rightarrow> 't \<Rightarrow> 't" where
  "value_or (ok v) _ = v"
| "value_or (err _) d = d"

fun result_map :: "('t \<Rightarrow> 'u) \<Rightarrow> ('t, 'e) Result \<Rightarrow> ('u, 'e) Result" where
  "result_map f (ok v) = ok (f v)"
| "result_map f (err e) = err e"

fun and_then :: "('t, 'e) Result \<Rightarrow> ('t \<Rightarrow> ('u, 'e) Result) \<Rightarrow> ('u, 'e) Result" where
  "and_then (ok v) f = f v"
| "and_then (err e) f = err e"

fun or_else :: "('t, 'e) Result \<Rightarrow> ('e \<Rightarrow> ('t, 'e) Result) \<Rightarrow> ('t, 'e) Result" where
  "or_else (ok v) f = ok v"
| "or_else (err e) f = f e"

fun transform_error :: "('e \<Rightarrow> 'f) \<Rightarrow> ('t, 'e) Result \<Rightarrow> ('t, 'f) Result" where
  "transform_error f (ok v) = ok v"
| "transform_error f (err e) = err (f e)"

section \<open>Exceptions\<close>

datatype cpp_exn =
    Invalid_argument string
  | Runtime_error string
  | Out_of_range string
  | Json_error string
  | Yaml_error string

section \<open>Facts\<close>

lemma has_value_map [simp]: "has_value (result_map f r) = has_value r"
  by (cases r) simp_all

lemma and_then_assoc: "and_then (and_then r f) g = and_then r (\<lambda>v. and_then (f v) g)"
  by (cases r) simp_all

lemma and_then_ok [simp]: "and_then r ok = r"
  by (cases r) simp_all

lemma result_map_and_then: "result_map f r = and_then r (\<lambda>v. ok (f v))"
  by (cases r) simp_all

lemma err_code_range: "0 \<le> err_code e \<and> err_code e < 30"
  by (cases e) simp_all

lemma err_code_zero: "err_code e = 0 \<longleftrightarrow> e = success"
  by (cases e) simp_all

lemma distinct_codes: "distinct (map (err_code \<circ> fst) message_cases)"
  by (simp add: message_cases_def)

lemma distinct_messages: "distinct (map snd message_cases)"
  by (simp add: message_cases_def)

lemma every_code_has_case: "\<exists>m. (e, m) \<in> set message_cases"
  by (cases e) (simp_all add: message_cases_def)

lemma category_message_case: "(e, m) \<in> set message_cases \<Longrightarrow> ev mod 2 ^ 8 = err_code e \<Longrightarrow> category_message ev = m"
proof -
  assume a: "(e, m) \<in> set message_cases" "ev mod 2 ^ 8 = err_code e"
  let ?P = "\<lambda>c. err_code (fst c) = ev mod 2 ^ 8"
  have "find ?P message_cases \<noteq> None" using a by (auto simp: find_None_iff)
  then obtain c where c: "find ?P message_cases = Some c" by blast
  then have m: "c \<in> set message_cases" "(err_code \<circ> fst) c = (err_code \<circ> fst) (e, m)" using a(2) by (auto simp: find_Some_iff)
  have "inj_on (err_code \<circ> fst) (set message_cases)" using distinct_codes by (simp add: distinct_map)
  then have "c = (e, m)" using m(2,1) a(1) by (rule inj_onD)
  with c show "category_message ev = m" by (simp add: category_message_def)
qed

lemma err_message_case: "(e, m) \<in> set message_cases \<Longrightarrow> err_message e = m"
  using category_message_case [of e m "err_code e"] err_code_range [of e] by (simp add: err_message_def)

lemma err_message_inj: "err_message a = err_message b \<longleftrightarrow> a = b"
proof
  assume e: "err_message a = err_message b"
  obtain m n where m: "(a, m) \<in> set message_cases" "(b, n) \<in> set message_cases" using every_code_has_case by blast
  have s: "snd (a, m) = snd (b, n)" using e err_message_case [OF m(1)] err_message_case [OF m(2)] by (simp only: snd_conv)
  have "inj_on snd (set message_cases)" using distinct_messages by (simp add: distinct_map)
  then have "(a, m) = (b, n)" using s m by (rule inj_onD)
  then show "a = b" by simp
qed simp

text \<open>
  The switch covers the enumeration: a number has a message of its own exactly if its last eight bits are the number of a code, the
  messages of different codes differ, and the error code made of a code tests as an error exactly if it is not \<open>success\<close>.
\<close>

theorem error_codes_faithful:
  "(ev mod 256 = err_code e \<longrightarrow> category_message ev = err_message e)
   \<and> (30 \<le> ev mod 256 \<longrightarrow> category_message ev = ''unrecognized error'')
   \<and> err_message e \<noteq> ''unrecognized error'' \<and> (err_message e = err_message e' \<longleftrightarrow> e = e')
   \<and> (ec_set (make_error_code e) \<longleftrightarrow> e \<noteq> success)"
proof -
  obtain m where m: "(e, m) \<in> set message_cases" using every_code_has_case by blast
  have known: "category_message ev = err_message e" if "ev mod 256 = err_code e"
    using category_message_case [OF m] err_message_case [OF m] that by simp
  have unknown_number: "category_message ev = ''unrecognized error''" if "30 \<le> ev mod 256"
  proof -
    have "err_code (fst c) \<noteq> ev mod 2 ^ 8" for c :: "Err \<times> string" using that err_code_range [of "fst c"] by auto
    then have "find (\<lambda>c. err_code (fst c) = ev mod 2 ^ 8) message_cases = None" by (simp only: find_None_iff) blast
    then show ?thesis by (simp only: category_message_def option.case)
  qed
  have n: "''unrecognized error'' \<notin> set (map snd message_cases)" by (simp add: message_cases_def)
  have own: "err_message e \<noteq> ''unrecognized error''"
  proof
    assume "err_message e = ''unrecognized error''"
    then have "(e, ''unrecognized error'') \<in> set message_cases" using m err_message_case [OF m] by (simp only:)
    then have "snd (e, ''unrecognized error'') \<in> set (map snd message_cases)" by (simp only: set_map imageI)
    with n show False by (simp only: snd_conv)
  qed
  have "ec_set (make_error_code e) \<longleftrightarrow> e \<noteq> success" by (simp add: ec_set_def make_error_code_def err_code_zero)
  then show ?thesis by (intro conjI impI known unknown_number own err_message_inj)
qed

theorem error_codes_faithful_witness: "category_message 256 = err_message success \<and> category_message 286 = ''unrecognized error''"
proof
  have a: "256 mod 256 = err_code success" by simp
  show "category_message 256 = err_message success" using error_codes_faithful [of 256 success success, THEN conjunct1] a by (rule mp)
  have b: "30 \<le> (286 :: int) mod 256" by simp
  show "category_message 286 = ''unrecognized error''"
    using error_codes_faithful [of 286 success success, THEN conjunct2, THEN conjunct1] b by (rule mp)
qed

end
