(* ===== verification/Token_Bucket.thy ===== *)
theory Token_Bucket
  imports Volley_Double Volley_Error
begin

text \<open>
  The rate limiter of \<open>core/token_bucket.cpp\<close> and \<open>include/cppload/core/token_bucket.hpp\<close>.
  Every public operation is a critical section under \<open>mtx_\<close>; the reading of
  \<open>steady_clock::now()\<close> inside it is an argument. An operation that waits on \<open>cv_\<close> releases
  the mutex, so it is two or more sections: what it does up to the wait, and what it does when
  it wakes up. \<open>tb_step\<close> interleaves the sections of any number of threads.
\<close>

section \<open>State and operations\<close>

record TokenBucket =
  tb_rate :: rat
  tb_burst :: rat
  tb_tokens :: rat
  tb_last_refill :: time_ns

text \<open>\<open>std::chrono::duration<double>(now - last_refill_).count()\<close>: nanoseconds to seconds.\<close>

definition elapsed_sec :: "time_ns \<Rightarrow> time_ns \<Rightarrow> rat" where
  "elapsed_sec now since = fdiv (rnd (of_int (now - since))) 1000000000"

definition TokenBucket_new :: "rat \<Rightarrow> rat \<Rightarrow> time_ns \<Rightarrow> cpp_exn + TokenBucket" where
  "TokenBucket_new rate burst now =
     (let b = (if burst > 0 then burst else rate)
      in if rate \<le> 0 then Inl (Invalid_argument ''TokenBucket: rate must be > 0'')
         else Inr \<lparr>tb_rate = rate, tb_burst = b, tb_tokens = b, tb_last_refill = now\<rparr>)"

definition refill :: "time_ns \<Rightarrow> TokenBucket \<Rightarrow> TokenBucket" where
  "refill now b =
     (let elapsed = elapsed_sec now (tb_last_refill b)
      in if elapsed > 0 then
           let t = fadd (tb_tokens b) (fmul elapsed (tb_rate b));
               t' = (if t > tb_burst b then tb_burst b else t)
           in b\<lparr>tb_tokens := t', tb_last_refill := now\<rparr>
         else b)"

definition set_rate :: "rat \<Rightarrow> time_ns \<Rightarrow> TokenBucket \<Rightarrow> cpp_exn + TokenBucket" where
  "set_rate rate now b =
     (if rate \<le> 0 then Inl (Invalid_argument ''TokenBucket: rate must be > 0'')
      else Inr ((refill now b)\<lparr>tb_rate := rate\<rparr>))"

definition set_burst :: "rat \<Rightarrow> time_ns \<Rightarrow> TokenBucket \<Rightarrow> cpp_exn + TokenBucket" where
  "set_burst burst now b =
     (if burst \<le> 0 then Inl (Invalid_argument ''TokenBucket: burst must be > 0'')
      else let b' = (refill now b)\<lparr>tb_burst := burst\<rparr>
           in Inr (if tb_tokens b' > burst then b'\<lparr>tb_tokens := burst\<rparr> else b'))"

definition take_token :: "TokenBucket \<Rightarrow> TokenBucket" where
  "take_token b = b\<lparr>tb_tokens := fsub (tb_tokens b) 1\<rparr>"

definition try_consume :: "time_ns \<Rightarrow> TokenBucket \<Rightarrow> bool \<times> TokenBucket" where
  "try_consume now b =
     (let b = refill now b in if tb_tokens b < 1 then (False, b) else (True, take_token b))"

text \<open>The nanoseconds \<open>consume\<close> sleeps for at most, given the state it goes to sleep in.\<close>

definition wait_sec :: "TokenBucket \<Rightarrow> rat" where
  "wait_sec b = fdiv (fsub 1 (tb_tokens b)) (tb_rate b)"

definition wait_ns :: "rat \<Rightarrow> int" where
  "wait_ns sec = trunc_int (fmul sec 1000000000)"

definition consume_wait :: "TokenBucket \<Rightarrow> int" where
  "consume_wait b = wait_ns (if wait_sec b > 1 then 1 else wait_sec b)"

text \<open>
  One pass of \<open>consume\<close>, from acquiring the mutex (on entry or on wake-up) to releasing it:
  \<open>Inr\<close> when it has taken its token, \<open>Inl w\<close> when it goes to sleep for \<open>w\<close> nanoseconds.
\<close>

definition consume_pass :: "time_ns \<Rightarrow> TokenBucket \<Rightarrow> (int + unit) \<times> TokenBucket" where
  "consume_pass now b =
     (let b = refill now b
      in if tb_tokens b < 1 then (Inl (consume_wait b), b) else (Inr (), take_token b))"

text \<open>
  \<open>consume\<close> by a thread that no other thread disturbs, given the clock readings of its
  passes; \<open>None\<close> when the readings end before it has returned. The second component counts
  the passes that went to sleep.
\<close>

fun consume :: "time_ns list \<Rightarrow> TokenBucket \<Rightarrow> (nat \<times> TokenBucket) option" where
  "consume [] b = None"
| "consume (now # nows) b =
     (case consume_pass now b of
        (Inr _, b') \<Rightarrow> Some (0, b')
      | (Inl _, b') \<Rightarrow> map_option (\<lambda>(n, b''). (Suc n, b'')) (consume nows b'))"

text \<open>
  \<open>try_consume_for\<close> up to its wait: \<open>Inr r\<close> when it returns \<open>r\<close> at once, \<open>Inl w\<close> when it
  waits \<open>w\<close> nanoseconds (it does not release the mutex when \<open>w\<close> is not positive). Its
  wake-up section is the one of \<open>try_consume\<close>.
\<close>

definition try_consume_for_enter :: "rat \<Rightarrow> time_ns \<Rightarrow> TokenBucket \<Rightarrow> (int + bool) \<times> TokenBucket"
where
  "try_consume_for_enter max_wait now b =
     (let b = refill now b
      in if tb_tokens b \<ge> 1 then (Inr True, take_token b)
         else if wait_sec b > max_wait then (Inr False, b)
         else (Inl (wait_ns (wait_sec b)), b))"

definition try_consume_for :: "rat \<Rightarrow> time_ns \<Rightarrow> time_ns \<Rightarrow> TokenBucket \<Rightarrow> bool \<times> TokenBucket" where
  "try_consume_for max_wait now wake b =
     (case try_consume_for_enter max_wait now b of
        (Inr r, b') \<Rightarrow> (r, b')
      | (Inl _, b') \<Rightarrow> try_consume wake b')"

definition tokens_available :: "time_ns \<Rightarrow> TokenBucket \<Rightarrow> rat" where
  "tokens_available now b =
     (let elapsed = elapsed_sec now (tb_last_refill b);
          available = fadd (tb_tokens b) (fmul elapsed (tb_rate b))
      in if available > tb_burst b then tb_burst b else if available < 0 then 0 else available)"

section \<open>Interleaving\<close>

inductive tb_step :: "TokenBucket \<Rightarrow> TokenBucket \<Rightarrow> bool" where
  Set_rate: "rnd r = r \<Longrightarrow> set_rate r now b = Inr b' \<Longrightarrow> tb_step b b'"
| Set_burst: "rnd r = r \<Longrightarrow> set_burst r now b = Inr b' \<Longrightarrow> tb_step b b'"
| Try_consume: "try_consume now b = (r, b') \<Longrightarrow> tb_step b b'"
| Consume_pass: "consume_pass now b = (p, b') \<Longrightarrow> tb_step b b'"
| Enter_for: "try_consume_for_enter w now b = (q, b') \<Longrightarrow> tb_step b b'"

inductive tb_reach :: "TokenBucket \<Rightarrow> bool" where
  Start: "TokenBucket_new r c now = Inr b \<Longrightarrow> rnd r = r \<Longrightarrow> rnd c = c \<Longrightarrow> tb_reach b"
| Step: "tb_reach b \<Longrightarrow> tb_step b b' \<Longrightarrow> tb_reach b'"

section \<open>Invariant\<close>

text \<open>
  The fields are doubles, the rate is positive, and the bucket holds between zero and
  \<open>burst_\<close> tokens.
\<close>

definition tb_inv :: "TokenBucket \<Rightarrow> bool" where
  "tb_inv b \<longleftrightarrow> rnd (tb_rate b) = tb_rate b \<and> rnd (tb_burst b) = tb_burst b
     \<and> rnd (tb_tokens b) = tb_tokens b \<and> 0 < tb_rate b \<and> 0 < tb_burst b
     \<and> 0 \<le> tb_tokens b \<and> tb_tokens b \<le> tb_burst b"

lemma refill_frame [frame_simps]:
  "tb_rate (refill now b) = tb_rate b" "tb_burst (refill now b) = tb_burst b"
  by (simp_all add: refill_def Let_def)

lemma take_token_frame [frame_simps]:
  "tb_rate (take_token b) = tb_rate b" "tb_burst (take_token b) = tb_burst b"
  "tb_last_refill (take_token b) = tb_last_refill b"
  by (simp_all add: take_token_def)

lemma refill_inv [inv_intros]: "tb_inv b \<Longrightarrow> tb_inv (refill now b)"
  by (auto simp: tb_inv_def refill_def Let_def fp_defs intro!: ieee.pos_part add_nonneg_nonneg)

lemma take_token_inv [inv_intros]: "tb_inv b \<Longrightarrow> 1 \<le> tb_tokens b \<Longrightarrow> tb_inv (take_token b)"
  using ieee.le_fix [of "tb_tokens b - 1" "tb_tokens b"]
  by (auto simp: tb_inv_def take_token_def fp_defs intro!: ieee.pos_part)

lemma new_inv: "TokenBucket_new r c now = Inr b \<Longrightarrow> rnd r = r \<Longrightarrow> rnd c = c \<Longrightarrow> tb_inv b"
  by (auto simp: TokenBucket_new_def tb_inv_def Let_def split: if_splits)

lemma set_rate_inv: "set_rate r now b = Inr b' \<Longrightarrow> rnd r = r \<Longrightarrow> tb_inv b \<Longrightarrow> tb_inv b'"
  using refill_inv [of b now] by (auto simp: set_rate_def tb_inv_def split: if_splits)

lemma set_burst_inv: "set_burst r now b = Inr b' \<Longrightarrow> rnd r = r \<Longrightarrow> tb_inv b \<Longrightarrow> tb_inv b'"
  using refill_inv [of b now] by (auto simp: set_burst_def tb_inv_def Let_def split: if_splits)

lemma try_consume_inv: "try_consume now b = (r, b') \<Longrightarrow> tb_inv b \<Longrightarrow> tb_inv b'"
  by (auto simp: try_consume_def Let_def split: if_splits intro: inv_intros)

lemma consume_pass_inv: "consume_pass now b = (r, b') \<Longrightarrow> tb_inv b \<Longrightarrow> tb_inv b'"
  by (auto simp: consume_pass_def Let_def split: if_splits intro: inv_intros)

lemma enter_for_inv: "try_consume_for_enter w now b = (r, b') \<Longrightarrow> tb_inv b \<Longrightarrow> tb_inv b'"
  by (auto simp: try_consume_for_enter_def Let_def split: if_splits intro: inv_intros)

lemma tb_step_inv: "tb_step b b' \<Longrightarrow> tb_inv b \<Longrightarrow> tb_inv b'"
  by (cases rule: tb_step.cases)
    (auto dest: set_rate_inv set_burst_inv try_consume_inv consume_pass_inv enter_for_inv)

lemma tb_reach_inv: "tb_reach b \<Longrightarrow> tb_inv b"
  by (induction rule: tb_reach.induct) (auto dest: new_inv tb_step_inv)

section \<open>Progress of the refill\<close>

text \<open>Read in units of \<open>2\<^sup>-\<^sup>3\<^sup>0\<close> tokens: a nanosecond is worth at least \<open>R\<close> units at rate \<open>R\<close>.\<close>

definition units :: "int \<Rightarrow> rat" where
  "units k = of_int k * 2 powi (-30)"

lemma units_ge: "units k \<le> x \<Longrightarrow> \<bar>k\<bar> \<le> 2 ^ 31 \<Longrightarrow> units k \<le> rnd x"
  unfolding units_def by (rule ieee.ge_scaled) auto

lemma units_mono: "i \<le> j \<Longrightarrow> units i \<le> units j"
  by (simp add: units_def mult_right_mono)

lemma units_one: "units (2 ^ 30) = 1"
  by (simp add: units_def)

lemma elapsed_ge_units:
  assumes "0 \<le> g" "g \<le> 2 ^ 30" "g \<le> now - since"
  shows "units g \<le> elapsed_sec now since"
proof -
  have "of_int g \<le> rnd (of_int (now - since))"
    using assms by (intro ieee.ge_int) auto
  then have "of_int g / 1000000000 \<le> rnd (of_int (now - since)) / 1000000000"
    by (simp add: divide_right_mono)
  moreover have "units g \<le> of_int g / 1000000000"
    using assms(1) by (simp add: units_def power_int_minus divide_simps)
  ultimately show ?thesis
    unfolding elapsed_sec_def fdiv_def using assms by (intro units_ge) auto
qed

lemma elapsed_pos: "since < now \<Longrightarrow> 0 < elapsed_sec now since"
  using elapsed_ge_units [of 1 now since] by (simp add: units_def power_int_minus)

lemma elapsed_self [simp]: "elapsed_sec now now = 0"
  by (simp add: elapsed_sec_def fdiv_def)

lemma refill_last: "tb_last_refill b \<le> now \<Longrightarrow> tb_last_refill (refill now b) = now"
  using elapsed_pos [of "tb_last_refill b" now]
  by (cases "tb_last_refill b = now") (auto simp: refill_def Let_def)

lemma refill_units:
  assumes b: "tb_inv b" "1 \<le> tb_burst b" and R: "1 \<le> R" "of_int R \<le> tb_rate b"
    and k: "0 \<le> k" "k \<le> 2 ^ 30" "units k \<le> tb_tokens b" and t: "tb_last_refill b \<le> now"
  shows "units (min (k + R * (now - tb_last_refill b)) (2 ^ 30)) \<le> tb_tokens (refill now b)"
proof (cases "tb_last_refill b = now")
  case True
  with k show ?thesis by (simp add: refill_def min_def)
next
  case False
  define g where "g = now - tb_last_refill b"
  define h where "h = min g (2 ^ 30)"
  define m where "m = min (R * g) (2 ^ 30)"
  have g: "0 < g" using False t by (simp add: g_def)
  have h: "0 \<le> h" "h \<le> 2 ^ 30" "h \<le> g" using g by (auto simp: h_def)
  have m: "0 \<le> m" "m \<le> 2 ^ 30" using g R by (auto simp: m_def)
  have mh: "m \<le> R * h" using R by (cases "g \<le> 2 ^ 30") (auto simp: m_def h_def)
  have e: "units h \<le> elapsed_sec now (tb_last_refill b)"
    using h by (intro elapsed_ge_units) (auto simp: g_def)
  have "units m \<le> units (R * h)" using mh by (intro units_mono)
  also have "\<dots> = units h * of_int R" by (simp add: units_def)
  also have "\<dots> \<le> elapsed_sec now (tb_last_refill b) * tb_rate b"
    using e R h by (intro mult_mono) (auto simp: units_def)
  finally have p: "units m \<le> fmul (elapsed_sec now (tb_last_refill b)) (tb_rate b)"
    unfolding fmul_def using m by (intro units_ge) auto
  define j where "j = min (k + R * g) (2 ^ 30)"
  have j: "0 \<le> j" "j \<le> 2 ^ 30" "j \<le> k + m" using k m g R by (auto simp: j_def m_def)
  have "units j \<le> units k + units m"
    using units_mono [OF j(3)] by (simp add: units_def algebra_simps)
  then have s: "units j \<le> fadd (tb_tokens b) (fmul (elapsed_sec now (tb_last_refill b)) (tb_rate b))"
    unfolding fadd_def using j p k by (intro units_ge) auto
  have "units j \<le> tb_burst b" using units_mono [OF j(2)] b(2) by (simp only: units_one)
  with s elapsed_pos [of "tb_last_refill b" now] False t show ?thesis
    by (simp add: refill_def Let_def j_def g_def)
qed

lemma consume_progress:
  assumes "tb_inv b" "1 \<le> tb_burst b" "1 \<le> R" "of_int R \<le> tb_rate b"
    and "sorted (tb_last_refill b # nows)" "nows \<noteq> []"
    and "0 \<le> k" "k \<le> 2 ^ 30" "units k \<le> tb_tokens b"
    and "2 ^ 30 \<le> k + R * (last nows - tb_last_refill b)"
  shows "\<exists>n b'. consume nows b = Some (n, b') \<and> n < length nows \<and> tb_inv b'"
  using assms
proof (induction nows arbitrary: b k)
  case (Cons now nows)
  let ?b = "refill now b"
  let ?k = "min (k + R * (now - tb_last_refill b)) (2 ^ 30)"
  have t: "tb_last_refill b \<le> now" using Cons.prems by simp
  have u: "units ?k \<le> tb_tokens ?b" using Cons.prems t by (intro refill_units)
  have i: "tb_inv ?b" using Cons.prems by (intro inv_intros)
  show ?case
  proof (cases "tb_tokens ?b < 1")
    case False
    with i show ?thesis by (simp add: consume_pass_def Let_def take_token_inv)
  next
    case True
    have lt: "k + R * (now - tb_last_refill b) < 2 ^ 30"
    proof (rule ccontr)
      assume "\<not> ?thesis"
      then have "?k = 2 ^ 30" by linarith
      with u True show False by (simp only: units_one)
    qed
    have ne: "nows \<noteq> []" using Cons.prems lt by auto
    have "\<exists>n b'. consume nows ?b = Some (n, b') \<and> n < length nows \<and> tb_inv b'"
    proof (rule Cons.IH [where k = ?k])
      show "2 ^ 30 \<le> ?k + R * (last nows - tb_last_refill ?b)"
        using Cons.prems lt ne refill_last [OF t] by (simp add: algebra_simps)
    qed (use Cons.prems i u ne refill_last [OF t] lt in \<open>auto simp: frame_simps\<close>)
    with True show ?thesis by (auto simp: consume_pass_def Let_def)
  qed
qed simp

text \<open>A bucket whose capacity is below one token never fills.\<close>

lemma try_consume_small: "tb_inv b \<Longrightarrow> tb_burst b < 1 \<Longrightarrow> try_consume now b = (False, refill now b)"
  using refill_inv [of b now] by (auto simp: try_consume_def tb_inv_def frame_simps)

lemma consume_small: "tb_inv b \<Longrightarrow> tb_burst b < 1 \<Longrightarrow> consume nows b = None"
proof (induction nows arbitrary: b)
  case (Cons now nows)
  then have "tb_tokens (refill now b) < 1"
    using refill_inv [of b now] by (auto simp: tb_inv_def frame_simps)
  with Cons show ?case by (simp add: consume_pass_def Let_def frame_simps inv_intros)
qed simp

section \<open>The limit on grants\<close>

text \<open>The number of tokens a sequence of \<open>try_consume\<close> calls obtains.\<close>

fun grants :: "time_ns list \<Rightarrow> TokenBucket \<Rightarrow> nat \<times> TokenBucket" where
  "grants [] b = (0, b)"
| "grants (now # nows) b =
     (let (r, b') = try_consume now b; (n, b'') = grants nows b'
      in (if r then Suc n else n, b''))"

lemma rel_step: "0 \<le> x \<Longrightarrow> x \<le> a * y \<Longrightarrow> x + x / 2 ^ 53 \<le> (a * (1 + 1 / 2 ^ 53)) * (y :: rat)"
proof -
  assume "0 \<le> x" "x \<le> a * y"
  then have "x * (1 + 1 / 2 ^ 53) \<le> (a * y) * (1 + 1 / 2 ^ 53)" by (intro mult_right_mono) auto
  then show ?thesis by (simp add: algebra_simps)
qed

lemma elapsed_le:
  assumes "since < now"
  shows "elapsed_sec now since \<le> (1 + 1 / 2 ^ 53) ^ 2 * (of_int (now - since) / 10 ^ 9)"
proof -
  let ?g = "of_int (now - since) :: rat"
  have g: "1 \<le> ?g" using assms by (simp flip: of_int_1_le_iff)
  have small: "(2::rat) powi (-1000) \<le> 1 / 10 ^ 9" by simp
  have r1: "1 \<le> rnd ?g" using g ieee.ge_int [of 1 ?g] by simp
  have "rnd ?g \<le> ?g + ?g / 2 ^ 53"
    using g small by (intro ieee.half_ulp_rel order_trans [OF small]) simp
  also have "\<dots> \<le> (1 * (1 + 1 / 2 ^ 53)) * ?g" using g by (intro rel_step) auto
  finally have r2: "rnd ?g / 10 ^ 9 \<le> (1 + 1 / 2 ^ 53) * (?g / 10 ^ 9)"
    by (simp add: divide_right_mono)
  have "(1::rat) / 10 ^ 9 \<le> rnd ?g / 10 ^ 9" using r1 by (intro divide_right_mono) auto
  with small have "2 powi (-1000) \<le> rnd ?g / 10 ^ 9" by (rule order_trans)
  then have "rnd (rnd ?g / 10 ^ 9) \<le> rnd ?g / 10 ^ 9 + rnd ?g / 10 ^ 9 / 2 ^ 53"
    by (rule ieee.half_ulp_rel)
  also have "\<dots> \<le> ((1 + 1 / 2 ^ 53) * (1 + 1 / 2 ^ 53)) * (?g / 10 ^ 9)"
    using r1 r2 by (intro rel_step) auto
  finally show ?thesis by (simp only: elapsed_sec_def fdiv_def power2_eq_square) simp
qed

lemma refill_le:
  assumes b: "tb_inv b" and t: "tb_last_refill b \<le> now"
  shows "tb_tokens (refill now b) \<le> tb_tokens b
           + (1 + 1 / 2 ^ 50) * (tb_rate b * (of_int (now - tb_last_refill b) / 10 ^ 9))
           + (tb_burst b + 3) / 2 ^ 53"
proof (cases "tb_last_refill b = now")
  case True
  with b show ?thesis by (simp add: refill_def tb_inv_def)
next
  case False
  let ?g = "of_int (now - tb_last_refill b) / 10 ^ 9 :: rat"
  let ?u = "1 / 2 ^ 53 :: rat"
  let ?e = "elapsed_sec now (tb_last_refill b)"
  define G where "G = tb_rate b * ?g"
  define p where "p = fmul ?e (tb_rate b)"
  have r: "0 < tb_rate b" and tb: "0 \<le> tb_tokens b" "tb_tokens b \<le> tb_burst b"
    using b by (auto simp: tb_inv_def)
  have e0: "0 < ?e" using False t by (intro elapsed_pos) simp
  have G0: "0 \<le> G" using r t by (simp add: G_def)
  have "?e * tb_rate b \<le> (1 + ?u) ^ 2 * ?g * tb_rate b"
    using elapsed_le [of "tb_last_refill b" now] False t r by (intro mult_right_mono) auto
  then have er: "?e * tb_rate b \<le> (1 + ?u) ^ 2 * G" by (simp add: G_def mult_ac)
  have p0: "0 \<le> p" using e0 r by (auto simp: p_def fmul_def intro: ieee.pos_part)
  have "p \<le> ?e * tb_rate b + (?e * tb_rate b + 1) / 2 ^ 53"
    unfolding p_def fmul_def using e0 r by (intro ieee.half_ulp) auto
  then have p: "p \<le> (1 + ?u) ^ 3 * G + ?u" using er by (simp add: field_simps power_def)
  have "fadd (tb_tokens b) p \<le> (tb_tokens b + p) + (tb_tokens b + p + 1) / 2 ^ 53"
    unfolding fadd_def using p0 tb by (intro ieee.half_ulp) auto
  also have "\<dots> \<le> tb_tokens b + (1 + ?u) * p + (tb_burst b + 1) / 2 ^ 53"
    using tb by (simp add: field_simps)
  also have "(1 + ?u) * p \<le> (1 + ?u) * ((1 + ?u) ^ 3 * G + ?u)"
    using p by (intro mult_left_mono) auto
  also have "\<dots> \<le> (1 + 1 / 2 ^ 50) * G + 2 / 2 ^ 53"
    using G0 by (simp add: field_simps)
  finally have "fadd (tb_tokens b) p \<le> tb_tokens b + (1 + 1 / 2 ^ 50) * G + (tb_burst b + 3) / 2 ^ 53"
    by (simp add: field_simps)
  then show ?thesis using e0 by (simp add: refill_def Let_def p_def [symmetric] G_def)
qed

lemma refill_cost:
  assumes "tb_inv b" "tb_last_refill b \<le> now" "try_consume now b = (r, b')"
  shows "of_bool r + tb_tokens b' \<le> tb_tokens b
           + (1 + 1 / 2 ^ 50) * (tb_rate b * (of_int (now - tb_last_refill b) / 10 ^ 9))
           + (tb_burst b + 2) / 2 ^ 52"
proof -
  let ?b = "refill now b"
  have i: "tb_inv ?b" using assms(1) by (rule refill_inv)
  then have c: "0 < tb_burst b" "tb_tokens ?b \<le> tb_burst b" by (auto simp: tb_inv_def frame_simps)
  have "of_bool r + tb_tokens b' \<le> tb_tokens ?b + tb_burst b / 2 ^ 53"
  proof (cases "tb_tokens ?b < 1")
    case True
    with assms(3) c show ?thesis by (simp add: try_consume_def)
  next
    case False
    then have "fsub (tb_tokens ?b) 1 \<le> (tb_tokens ?b - 1) + ((tb_tokens ?b - 1) + 1) / 2 ^ 53"
      unfolding fsub_def by (intro ieee.half_ulp) simp
    with False assms(3) c show ?thesis
      by (auto simp: try_consume_def take_token_def Let_def field_simps)
  qed
  with refill_le [OF assms(1,2)] show ?thesis by (simp add: field_simps)
qed

lemma try_consume_frame:
  assumes "try_consume now b = (r, b')"
  shows "tb_rate b' = tb_rate b" "tb_burst b' = tb_burst b"
    and "tb_last_refill b \<le> now \<Longrightarrow> tb_last_refill b' = now"
  using assms by (auto simp: try_consume_def Let_def frame_simps refill_last split: if_splits)

lemma grants_bound:
  assumes "tb_inv b" "sorted (tb_last_refill b # nows)" "grants nows b = (n, b')"
  shows "of_nat n + tb_tokens b' \<le> tb_tokens b
     + (1 + 1 / 2 ^ 50) * (tb_rate b * (of_int (last (tb_last_refill b # nows) - tb_last_refill b) / 10 ^ 9))
     + of_nat (length nows) * ((tb_burst b + 2) / 2 ^ 52)"
  using assms
proof (induction nows arbitrary: b n)
  case (Cons now nows)
  obtain r b1 where t: "try_consume now b = (r, b1)" by (cases "try_consume now b")
  obtain m b2 where g: "grants nows b1 = (m, b2)" by (cases "grants nows b1")
  have le: "tb_last_refill b \<le> now" using Cons.prems by simp
  note f = try_consume_frame [OF t]
  have n: "of_nat n = of_bool r + (of_nat m :: rat)" "b2 = b'"
    using Cons.prems(3) t g by (auto split: if_splits)
  have "of_nat m + tb_tokens b' \<le> tb_tokens b1
     + (1 + 1 / 2 ^ 50) * (tb_rate b1 * (of_int (last (tb_last_refill b1 # nows) - tb_last_refill b1) / 10 ^ 9))
     + of_nat (length nows) * ((tb_burst b1 + 2) / 2 ^ 52)"
    using Cons.prems f(3) [OF le] try_consume_inv [OF t] g n(2) by (intro Cons.IH) auto
  moreover have "last (tb_last_refill b # now # nows) = last (now # nows)" by simp
  ultimately show ?case using refill_cost [OF Cons.prems(1) le t]
    by (simp add: n f(1,2) f(3) [OF le] algebra_simps add_divide_distrib diff_divide_distrib)
qed simp

section \<open>Properties\<close>

text \<open>
  C12: whatever sequence of operations any number of threads run on a bucket, with whatever
  clock readings, the token count computed in IEEE arithmetic stays between zero and the burst,
  and so does the value \<open>tokens_available\<close> reports.
\<close>

theorem token_bucket_bounded:
  assumes "tb_reach b"
  shows "0 \<le> tb_tokens b \<and> tb_tokens b \<le> tb_burst b
       \<and> 0 \<le> tokens_available now b \<and> tokens_available now b \<le> tb_burst b"
  using tb_reach_inv [OF assms] by (auto simp: tb_inv_def tokens_available_def Let_def)

theorem token_bucket_bounded_witness:
  "\<exists>b. tb_reach b \<and> tb_burst b = 2 \<and> 0 \<le> tb_tokens b \<and> tb_tokens b \<le> 2"
proof -
  let ?b = "\<lparr>tb_rate = 5, tb_burst = 2, tb_tokens = 2, tb_last_refill = 0\<rparr>"
  have "TokenBucket_new 5 2 0 = Inr ?b" by (simp add: TokenBucket_new_def)
  then have r: "tb_reach ?b" by (rule tb_reach.Start) simp_all
  from token_bucket_bounded [OF r] r show ?thesis by (intro exI [of _ ?b]) simp
qed

text \<open>
  C13: the limiter limits. Over calls of \<open>try_consume\<close> at the times \<open>nows\<close>, the number of
  tokens granted is at most the tokens in the bucket plus the rate times the elapsed seconds,
  up to a relative error of \<open>2\<^sup>-\<^sup>5\<^sup>0\<close> and an absolute error of \<open>(burst + 2) / 2\<^sup>5\<^sup>2\<close> per call, which
  is what rounding can add.
\<close>

theorem try_consume_rate_limited:
  assumes "tb_reach b" "sorted (tb_last_refill b # nows)" "grants nows b = (n, b')"
  shows "of_nat n \<le> tb_tokens b
     + (1 + 1 / 2 ^ 50) * (tb_rate b * (of_int (last (tb_last_refill b # nows) - tb_last_refill b) / 10 ^ 9))
     + of_nat (length nows) * ((tb_burst b + 2) / 2 ^ 52)"
proof -
  have "0 \<le> tb_tokens b'"
  proof -
    have "tb_inv c \<Longrightarrow> grants ts c = (k, c') \<Longrightarrow> tb_inv c'" for c k c' ts
      by (induction ts arbitrary: c k) (auto split: prod.splits if_splits dest: try_consume_inv)
    with assms tb_reach_inv show ?thesis by (metis tb_inv_def)
  qed
  with grants_bound [OF tb_reach_inv [OF assms(1)] assms(2,3)] show ?thesis by linarith
qed

theorem try_consume_rate_limited_witness:
  "fst (grants [0, 0, 0] \<lparr>tb_rate = 5, tb_burst = 2, tb_tokens = 2, tb_last_refill = 0\<rparr>) = 2
   \<and> of_nat (fst (grants [0, 0, 0] \<lparr>tb_rate = 5, tb_burst = 2, tb_tokens = 2, tb_last_refill = 0\<rparr>))
      \<le> 2 + 3 * ((2 + 2) / 2 ^ 52 :: rat)"
proof -
  let ?b = "\<lparr>tb_rate = 5, tb_burst = 2, tb_tokens = 2, tb_last_refill = 0\<rparr>"
  have "TokenBucket_new 5 2 0 = Inr ?b" by (simp add: TokenBucket_new_def)
  then have r: "tb_reach ?b" by (rule tb_reach.Start) simp_all
  have g: "grants [0, 0, 0] ?b = (2, ?b\<lparr>tb_tokens := 0\<rparr>)"
    by (simp add: try_consume_def refill_def take_token_def fsub_def numeral_2_eq_2)
  have "sorted (tb_last_refill ?b # [0, 0, 0])" by simp
  from try_consume_rate_limited [OF r this g] g show ?thesis by simp
qed

text \<open>
  C14: \<open>consume\<close> returns. A thread that is alone on a bucket of at least one token and of rate
  at least \<open>R \<ge> 1\<close> has its token at the latest on the wake-up by which \<open>2\<^sup>3\<^sup>0 / R\<close> nanoseconds
  have passed since the last refill, however the clock readings in between fall.
\<close>

theorem consume_returns:
  assumes "tb_reach b" "1 \<le> tb_burst b" "1 \<le> R" "of_int R \<le> tb_rate b"
    and "sorted (tb_last_refill b # nows)" "nows \<noteq> []"
    and "2 ^ 30 \<le> R * (last nows - tb_last_refill b)"
  shows "\<exists>n b'. consume nows b = Some (n, b') \<and> n < length nows"
  using consume_progress [of b R nows 0] tb_reach_inv [OF assms(1)] assms
  by (auto simp: units_def tb_inv_def)

theorem consume_returns_witness:
  "\<exists>n b'. consume [10, 2 ^ 30] \<lparr>tb_rate = 1, tb_burst = 1, tb_tokens = 1, tb_last_refill = 0\<rparr>
            = Some (n, b') \<and> n < length [10, 2 ^ 30 :: int]"
proof -
  let ?b = "\<lparr>tb_rate = 1, tb_burst = 1, tb_tokens = 1, tb_last_refill = 0\<rparr>"
  have "TokenBucket_new 1 1 0 = Inr ?b" by (simp add: TokenBucket_new_def)
  then have "tb_reach ?b" by (rule tb_reach.Start) simp_all
  then show ?thesis by (rule consume_returns [where R = 1]) simp_all
qed

text \<open>
  A burst below one token, which \<open>set_burst\<close> and the constructor accept, blocks the
  limiter for good: \<open>try_consume\<close> always refuses and \<open>consume\<close> never returns, whatever
  the clock does.
\<close>

theorem small_burst_blocks:
  assumes "tb_reach b" "tb_burst b < 1"
  shows "fst (try_consume now b) = False \<and> consume nows b = None"
  using tb_reach_inv [OF assms(1)] assms(2) by (simp add: try_consume_small consume_small)

theorem small_burst_blocks_witness:
  "consume [0, 10 ^ 12] \<lparr>tb_rate = 5, tb_burst = 1/2, tb_tokens = 1/2, tb_last_refill = 0\<rparr> = None"
proof -
  let ?b = "\<lparr>tb_rate = 5, tb_burst = 1/2, tb_tokens = 1/2, tb_last_refill = 0\<rparr>"
  have "rnd (1/2) = 1/2" using rnd_representable [of 1 "-1"] by simp
  moreover have "TokenBucket_new 5 (1/2) 0 = Inr ?b" by (simp add: TokenBucket_new_def Let_def)
  ultimately have "tb_reach ?b" by (intro tb_reach.Start) auto
  then show ?thesis using small_burst_blocks [of ?b] by simp
qed

end
