(* ===== verification/Metrics_Contract.thy ===== *)
theory Metrics_Contract
  imports Volley_Prelude
begin

text \<open>
  What a metrics collector promises about its counters, whatever it stores them in. The
  contract is a locale over the recording operation and the view of the counters; both
  collectors of the program, \<open>MetricsCollector\<close> and \<open>ShardedMetricsCollector\<close>, are
  interpretations of it.
\<close>

record Obs =
  ob_status :: u16
  ob_latency :: int
  ob_sent :: u64
  ob_received :: u64

record Counters =
  ct_total :: u64
  ct_successful :: u64
  ct_failed :: u64
  ct_sent :: u64
  ct_received :: u64

definition is_success :: "u16 \<Rightarrow> bool" where
  "is_success c \<longleftrightarrow> c \<ge> 200 \<and> c < 400"

definition counters_zero :: Counters where
  "counters_zero = \<lparr>ct_total = 0, ct_successful = 0, ct_failed = 0, ct_sent = 0, ct_received = 0\<rparr>"

definition count_obs :: "Obs \<Rightarrow> Counters \<Rightarrow> Counters" where
  "count_obs ob c = c\<lparr>ct_total := ct_total c + 1,
     ct_successful := ct_successful c + of_bool (is_success (ob_status ob)),
     ct_failed := ct_failed c + of_bool (\<not> is_success (ob_status ob)),
     ct_sent := ct_sent c + ob_sent ob,
     ct_received := ct_received c + ob_received ob\<rparr>"

text \<open>The closed form of the counters of a sequence of requests.\<close>

definition counters_of :: "Obs list \<Rightarrow> Counters" where
  "counters_of obs = \<lparr>ct_total = of_nat (length obs),
     ct_successful = of_nat (length (filter (is_success \<circ> ob_status) obs)),
     ct_failed = of_nat (length (filter (\<lambda>ob. \<not> is_success (ob_status ob)) obs)),
     ct_sent = sum_list (map ob_sent obs), ct_received = sum_list (map ob_received obs)\<rparr>"

fun record_all :: "('o \<Rightarrow> 's \<Rightarrow> 's option) \<Rightarrow> 'o list \<Rightarrow> 's \<Rightarrow> 's option" where
  "record_all rec [] s = Some s"
| "record_all rec (ob # obs) s = Option.bind (rec ob s) (record_all rec obs)"

lemma record_all_snoc: "record_all rec (obs @ [ob]) s = Option.bind (record_all rec obs s) (rec ob)"
  by (induction obs arbitrary: s) (auto simp: Option.bind_assoc split: bind_splits)

lemma fold_count_obs:
  "fold count_obs obs c =
     \<lparr>ct_total = ct_total c + ct_total (counters_of obs),
      ct_successful = ct_successful c + ct_successful (counters_of obs),
      ct_failed = ct_failed c + ct_failed (counters_of obs),
      ct_sent = ct_sent c + ct_sent (counters_of obs),
      ct_received = ct_received c + ct_received (counters_of obs)\<rparr>"
  by (induction obs arbitrary: c) (auto simp: counters_of_def count_obs_def)

lemma fold_count_obs_zero: "fold count_obs obs counters_zero = counters_of obs"
  by (simp add: fold_count_obs counters_zero_def counters_of_def)

lemma counters_of_split:
  "ct_total (counters_of obs) = ct_successful (counters_of obs) + ct_failed (counters_of obs)"
proof -
  have "length obs = length (filter (is_success \<circ> ob_status) obs)
      + length (filter (\<lambda>ob. \<not> is_success (ob_status ob)) obs)"
    using sum_length_filter_compl [of "is_success \<circ> ob_status" obs] by simp
  then have "(of_nat (length obs) :: u64) = of_nat (length (filter (is_success \<circ> ob_status) obs)
      + length (filter (\<lambda>ob. \<not> is_success (ob_status ob)) obs))" by (rule arg_cong)
  then show ?thesis by (simp only: counters_of_def Counters.simps of_nat_add)
qed

text \<open>
  \<open>inv n s\<close>: the state is well-formed and has room for \<open>n\<close> more requests (the 64-bit ring
  positions are the only resource that runs out).
\<close>

locale request_recorder =
  fixes inv :: "nat \<Rightarrow> 's \<Rightarrow> bool"
    and rec :: "'o \<Rightarrow> 's \<Rightarrow> 's option"
    and view :: "'s \<Rightarrow> Counters"
    and obs_of :: "'o \<Rightarrow> Obs"
  assumes rec_ok: "inv (Suc n) s \<Longrightarrow>
      \<exists>s'. rec q s = Some s' \<and> inv n s' \<and> view s' = count_obs (obs_of q) (view s)"
begin

lemma record_all_ok:
  "inv (length qs + n) s \<Longrightarrow>
     \<exists>s'. record_all rec qs s = Some s' \<and> inv n s' \<and> view s' = fold count_obs (map obs_of qs) (view s)"
proof (induction qs arbitrary: s)
  case (Cons q qs)
  then obtain s1 where "rec q s = Some s1" "inv (length qs + n) s1"
      "view s1 = count_obs (obs_of q) (view s)"
    using rec_ok [of "length qs + n" s q] by auto
  with Cons.IH [of s1] show ?case by auto
qed simp

lemma record_all_fresh:
  "inv (length qs + n) s \<Longrightarrow> view s = counters_zero \<Longrightarrow>
     \<exists>s'. record_all rec qs s = Some s' \<and> inv n s' \<and> view s' = counters_of (map obs_of qs)"
  using record_all_ok [of qs n s] by (simp add: fold_count_obs_zero)

end

end
