(* ===== verification/Ring_Collector.thy ===== *)
theory Ring_Collector
  imports Volley_Double Metrics_Contract "HOL-Library.Monad_Syntax"
begin

text \<open>
  \<open>MetricsCollector\<close> of \<open>core/metrics/collector.cpp\<close>: the counters, the sample ring with
  drop-oldest eviction, snapshots with percentiles, and reset, each run to completion by one
  thread. The interleaving of producers inside the ring is the subject of \<open>Ring_Protocol\<close>,
  over the same cells. Ring positions are naturals: \<open>head_\<close> and \<open>tail_\<close> only grow, and the
  code's 64-bit subtraction is written out with its wrap-around.
\<close>

unbundle bit_operations_syntax

section \<open>The ring\<close>

record Cell =
  cl_seq :: nat
  cl_value :: int

record Ring =
  rg_head :: nat
  rg_tail :: nat
  rg_cells :: "nat \<Rightarrow> Cell"

definition kRingCapacity :: nat where "kRingCapacity = 2 ^ 20"
definition kRingMask :: nat where "kRingMask = kRingCapacity - 1"
definition kMaxSnapshotSamples :: nat where "kMaxSnapshotSamples = 100000"

definition slot :: "nat \<Rightarrow> nat" where
  "slot i = i AND kRingMask"

text \<open>\<open>t - h\<close> on \<open>uint64_t\<close>.\<close>

definition u64_sub :: "nat \<Rightarrow> nat \<Rightarrow> nat" where
  "u64_sub t h = nat ((int t - int h) mod 2 ^ 64)"

definition ring_new :: Ring where
  "ring_new = \<lparr>rg_head = 0, rg_tail = 0, rg_cells = (\<lambda>i. \<lparr>cl_seq = i, cl_value = 0\<rparr>)\<rparr>"

text \<open>
  The push loop of \<open>record_request\<close>, run by one thread: a \<open>compare_exchange\<close> then succeeds.
  \<open>None\<close> means that the loop does not end.
\<close>

partial_function (option) ring_push :: "int \<Rightarrow> nat \<Rightarrow> Ring \<Rightarrow> Ring option" where
  "ring_push v t r =
     (let h = rg_head r
      in if u64_sub t h \<ge> kRingCapacity then
           if cl_seq (rg_cells r (slot h)) \<noteq> h + 1 then ring_push v (rg_tail r) r
           else ring_push v (rg_tail r) (r\<lparr>rg_head := h + 1\<rparr>)
         else Some (r\<lparr>rg_tail := t + 1,
                      rg_cells := (rg_cells r)(slot t := \<lparr>cl_seq = t + 1, cl_value = v\<rparr>)\<rparr>))"

fun scan_cells :: "(nat \<Rightarrow> Cell) \<Rightarrow> nat \<Rightarrow> nat \<Rightarrow> int list" where
  "scan_cells c i 0 = []"
| "scan_cells c i (Suc n) =
     (if cl_seq (c (slot i)) \<noteq> i + 1 then []
      else cl_value (c (slot i)) # scan_cells c (Suc i) n)"

definition collect_ring_samples :: "Ring \<Rightarrow> int list" where
  "collect_ring_samples r =
     (let h = rg_head r; t = rg_tail r
      in if t > h then
           let start = (if t - h > kMaxSnapshotSamples then t - kMaxSnapshotSamples else h)
           in scan_cells (rg_cells r) start (t - start)
         else [])"

text \<open>The loop of \<open>reset\<close> over the positions \<open>h .. t - 1\<close>.\<close>

fun clear_cells :: "(nat \<Rightarrow> Cell) \<Rightarrow> nat \<Rightarrow> nat \<Rightarrow> nat \<Rightarrow> Cell" where
  "clear_cells c i 0 = c"
| "clear_cells c i (Suc n) =
     clear_cells (c(slot i := (c (slot i))\<lparr>cl_seq := i + kRingCapacity\<rparr>)) (Suc i) n"

definition ring_reset :: "Ring \<Rightarrow> Ring" where
  "ring_reset r = r\<lparr>rg_cells := clear_cells (rg_cells r) (rg_head r) (rg_tail r - rg_head r),
                    rg_head := rg_tail r\<rparr>"

section \<open>Percentiles\<close>

text \<open>
  \<open>std::nth_element(first, nth, last)\<close> on the whole of a list, and on its first \<open>m\<close> elements.
  The order it leaves the other elements in is unspecified; \<open>nth_element\<close> is the implementation
  that sorts, and \<open>quantile_impl\<close> below shows that no result depends on that choice.
\<close>

definition nth_element :: "nat \<Rightarrow> int list \<Rightarrow> int list" where
  "nth_element n xs = sort xs"

definition kP95 :: rat where "kP95 = rnd (95 / 100)"
definition kP99 :: rat where "kP99 = rnd (99 / 100)"

text \<open>\<open>min(static_cast<ptrdiff_t>(size * p), size - 1)\<close>, the product taken in doubles.\<close>

definition quantile_idx :: "rat \<Rightarrow> nat \<Rightarrow> nat" where
  "quantile_idx p n = min (nat (trunc_int (fmul (rnd (of_nat n)) p))) (n - 1)"

text \<open>The \<open>(p95, p99)\<close> selection of \<open>snapshot\<close>, over any \<open>nth_element\<close>.\<close>

definition quantile_pair :: "(nat \<Rightarrow> int list \<Rightarrow> int list) \<Rightarrow> int list \<Rightarrow> int \<times> int" where
  "quantile_pair ne samples =
     (let i95 = quantile_idx kP95 (length samples); i99 = quantile_idx kP99 (length samples)
      in if i99 > i95 then
           let s1 = ne i99 samples; s2 = ne i95 (take i99 s1) @ drop i99 s1
           in (s2 ! i95, s2 ! i99)
         else let s1 = ne i95 samples in (s1 ! i95, s1 ! i95))"

section \<open>The collector\<close>

record RequestMetrics =
  rm_total_requests :: u64
  rm_successful_requests :: u64
  rm_failed_requests :: u64
  rm_total_bytes_sent :: u64
  rm_total_bytes_received :: u64
  rm_min_latency :: int
  rm_max_latency :: int
  rm_mean_latency_us :: rat
  rm_p95_latency_us :: u64
  rm_p99_latency_us :: u64

record MetricsCollector =
  mc_total_requests :: u64
  mc_successful_requests :: u64
  mc_failed_requests :: u64
  mc_total_bytes_sent :: u64
  mc_total_bytes_received :: u64
  mc_cumulative_latency_us :: u64
  mc_min_latency_us :: int
  mc_max_latency_us :: int
  mc_start_time :: time_ns
  mc_ring :: Ring

definition us_max :: int where "us_max = 2 ^ 63 - 1"
definition us_min :: int where "us_min = - (2 ^ 63)"

definition MetricsCollector_new :: "time_ns \<Rightarrow> MetricsCollector" where
  "MetricsCollector_new now =
     \<lparr>mc_total_requests = 0, mc_successful_requests = 0, mc_failed_requests = 0,
      mc_total_bytes_sent = 0, mc_total_bytes_received = 0, mc_cumulative_latency_us = 0,
      mc_min_latency_us = us_max, mc_max_latency_us = us_min, mc_start_time = now,
      mc_ring = ring_new\<rparr>"

definition record_counters :: "u16 \<Rightarrow> int \<Rightarrow> u64 \<Rightarrow> u64 \<Rightarrow> MetricsCollector \<Rightarrow> MetricsCollector" where
  "record_counters status_code latency sent received m =
     m\<lparr>mc_total_requests := mc_total_requests m + 1,
       mc_total_bytes_sent := mc_total_bytes_sent m + sent,
       mc_total_bytes_received := mc_total_bytes_received m + received,
       mc_cumulative_latency_us := mc_cumulative_latency_us m + word_of_int latency,
       mc_successful_requests := mc_successful_requests m
         + (if status_code \<ge> 200 \<and> status_code < 400 then 1 else 0),
       mc_failed_requests := mc_failed_requests m
         + (if status_code \<ge> 200 \<and> status_code < 400 then 0 else 1),
       mc_min_latency_us := (if latency < mc_min_latency_us m then latency else mc_min_latency_us m),
       mc_max_latency_us := (if latency > mc_max_latency_us m then latency else mc_max_latency_us m)\<rparr>"

definition record_request :: "u16 \<Rightarrow> int \<Rightarrow> u64 \<Rightarrow> u64 \<Rightarrow> MetricsCollector \<Rightarrow> MetricsCollector option"
where
  "record_request status_code latency sent received m =
     (let m = record_counters status_code latency sent received m
      in do {
           r \<leftarrow> ring_push latency (rg_tail (mc_ring m)) (mc_ring m);
           Some (m\<lparr>mc_ring := r\<rparr>)
         })"

definition u64_double :: "u64 \<Rightarrow> rat" where
  "u64_double w = rnd (of_nat (unat w))"

definition snapshot :: "MetricsCollector \<Rightarrow> RequestMetrics" where
  "snapshot m =
     (let samples = collect_ring_samples (mc_ring m);
          (p95, p99) = (if samples \<noteq> [] then quantile_pair nth_element samples else (0, 0))
      in \<lparr>rm_total_requests = mc_total_requests m,
          rm_successful_requests = mc_successful_requests m,
          rm_failed_requests = mc_failed_requests m,
          rm_total_bytes_sent = mc_total_bytes_sent m,
          rm_total_bytes_received = mc_total_bytes_received m,
          rm_min_latency = mc_min_latency_us m,
          rm_max_latency = mc_max_latency_us m,
          rm_mean_latency_us = (if mc_total_requests m > 0
             then fdiv (u64_double (mc_cumulative_latency_us m)) (u64_double (mc_total_requests m))
             else 0),
          rm_p95_latency_us = word_of_int p95,
          rm_p99_latency_us = word_of_int p99\<rparr>)"

definition kMinElapsedSeconds :: rat where "kMinElapsedSeconds = rnd (1 / 1000)"

definition requests_per_second :: "time_ns \<Rightarrow> MetricsCollector \<Rightarrow> rat" where
  "requests_per_second now m =
     (let elapsed = fdiv (rnd (of_int (now - mc_start_time m))) 1000000000
      in if elapsed < kMinElapsedSeconds then 0
         else fdiv (u64_double (mc_total_requests m)) elapsed)"

definition error_rate :: "MetricsCollector \<Rightarrow> rat" where
  "error_rate m =
     (if mc_total_requests m = 0 then 0
      else fmul (fdiv (u64_double (mc_failed_requests m)) (u64_double (mc_total_requests m))) 100)"

definition percentile :: "rat \<Rightarrow> MetricsCollector \<Rightarrow> u64" where
  "percentile p m =
     (if p < 0 \<or> p > 1 then 0
      else let samples = collect_ring_samples (mc_ring m)
           in if samples = [] then 0
              else let idx = quantile_idx p (length samples)
                   in word_of_int (nth_element idx samples ! idx))"

definition reset :: "time_ns \<Rightarrow> MetricsCollector \<Rightarrow> MetricsCollector" where
  "reset now m =
     m\<lparr>mc_total_requests := 0, mc_successful_requests := 0, mc_failed_requests := 0,
       mc_total_bytes_sent := 0, mc_total_bytes_received := 0, mc_cumulative_latency_us := 0,
       mc_min_latency_us := us_max, mc_max_latency_us := us_min, mc_start_time := now,
       mc_ring := ring_reset (mc_ring m)\<rparr>"

section \<open>Facts about slots\<close>

lemma slot_mod: "slot i = i mod kRingCapacity"
proof -
  have "i AND (2 ^ 20 - 1) = i AND mask 20" by (simp add: mask_eq_exp_minus_1)
  also have "\<dots> = i mod 2 ^ 20" by (metis take_bit_eq_mask take_bit_eq_mod)
  finally show ?thesis by (simp add: slot_def kRingMask_def kRingCapacity_def)
qed

lemma capacity_pos [simp]: "0 < kRingCapacity"
  by (simp add: kRingCapacity_def)

text \<open>Two positions less than a capacity apart lie in different slots.\<close>

lemma slot_inj: "slot i = slot j \<Longrightarrow> i \<le> j \<Longrightarrow> j < i + kRingCapacity \<Longrightarrow> i = j"
  unfolding slot_mod by (metis add_diff_cancel_left' le_add_diff_inverse less_diff_conv2
      mod_eq_dvd_iff_nat nat_dvd_not_less neq0_conv diff_less_mono le_add1 add_0_right)

lemma slot_window:
  "slot i = slot j \<longleftrightarrow> i = j" if "b \<le> i" "i < b + kRingCapacity" "b \<le> j" "j < b + kRingCapacity"
  using that slot_inj [of i j] slot_inj [of j i] by (cases "i \<le> j") auto

lemma u64_sub_le: "h \<le> t \<Longrightarrow> t < 2 ^ 64 \<Longrightarrow> u64_sub t h = t - h"
proof -
  assume a: "h \<le> t" "t < 2 ^ 64"
  then have "(int t - int h) mod 2 ^ 64 = int t - int h"
    by (intro mod_pos_pos_trivial) (auto simp flip: of_nat_less_iff)
  with a show ?thesis by (simp add: u64_sub_def)
qed

text \<open>A difference below the capacity is a true one as long as the positions are below \<open>2\<^sup>6\<^sup>3\<close>.\<close>

lemma u64_sub_small:
  assumes "u64_sub t h < kRingCapacity" "t < 2 ^ 63" "h < 2 ^ 63"
  shows "h \<le> t \<and> t < h + kRingCapacity"
proof (cases "h \<le> t")
  case True
  with assms show ?thesis by (simp add: u64_sub_le)
next
  case False
  then have "(int t - int h) mod 2 ^ 64 = (int t - int h + 2 ^ 64) mod 2 ^ 64" by simp
  also have "\<dots> = int t - int h + 2 ^ 64"
    using False assms(2,3) by (intro mod_pos_pos_trivial) (auto simp flip: of_nat_less_iff)
  finally have "u64_sub t h = nat (int t - int h + 2 ^ 64)" by (simp add: u64_sub_def)
  with assms False show ?thesis by (simp add: kRingCapacity_def)
qed

section \<open>The ring holds the most recent samples\<close>

text \<open>Every position from head to tail is published in its slot.\<close>

definition ring_wf :: "Ring \<Rightarrow> bool" where
  "ring_wf r \<longleftrightarrow> rg_head r \<le> rg_tail r \<and> rg_tail r \<le> rg_head r + kRingCapacity
     \<and> (\<forall>i. rg_head r \<le> i \<and> i < rg_tail r \<longrightarrow> cl_seq (rg_cells r (slot i)) = i + 1)"

text \<open>The abstract content: the samples between head and tail, oldest first.\<close>

definition ring_samples :: "Ring \<Rightarrow> int list" where
  "ring_samples r = map (\<lambda>i. cl_value (rg_cells r (slot i))) [rg_head r ..< rg_tail r]"

definition keep_last :: "nat \<Rightarrow> 'a list \<Rightarrow> 'a list" where
  "keep_last n xs = drop (length xs - n) xs"

lemma keep_last_snoc: "keep_last n (keep_last n xs @ [x]) = keep_last n (xs @ [x])"
  by (cases "n \<le> length xs") (auto simp: keep_last_def Suc_diff_le)

lemma keep_last_keep_last: "m \<le> n \<Longrightarrow> keep_last m (keep_last n xs) = keep_last m xs"
proof -
  assume "m \<le> n"
  then have "(length xs - (length xs - n) - m) + (length xs - n) = length xs - m" by arith
  then show ?thesis by (simp add: keep_last_def)
qed

lemma keep_last_short: "length xs \<le> n \<Longrightarrow> keep_last n xs = xs"
  by (simp add: keep_last_def)

lemma ring_new_wf: "ring_wf ring_new" and ring_new_samples: "ring_samples ring_new = []"
  by (simp_all add: ring_wf_def ring_new_def ring_samples_def)

definition ring_evict :: "Ring \<Rightarrow> Ring" where
  "ring_evict r = (if rg_tail r - rg_head r < kRingCapacity then r else r\<lparr>rg_head := rg_head r + 1\<rparr>)"

definition ring_put :: "int \<Rightarrow> Ring \<Rightarrow> Ring" where
  "ring_put v r = r\<lparr>rg_tail := rg_tail r + 1,
     rg_cells := (rg_cells r)(slot (rg_tail r) := \<lparr>cl_seq = rg_tail r + 1, cl_value = v\<rparr>)\<rparr>"

lemma ring_push_eq:
  assumes "ring_wf r" "rg_tail r < 2 ^ 64"
  shows "ring_push v (rg_tail r) r = Some (ring_put v (ring_evict r))"
proof (cases "rg_tail r - rg_head r < kRingCapacity")
  case True
  with assms show ?thesis
    by (subst ring_push.simps) (simp add: ring_wf_def u64_sub_le ring_evict_def ring_put_def)
next
  case False
  then have full: "rg_tail r = rg_head r + kRingCapacity" using assms(1) unfolding ring_wf_def by linarith
  then have pub: "cl_seq (rg_cells r (slot (rg_head r))) = rg_head r + 1"
    using assms(1) by (simp add: ring_wf_def)
  have sub: "u64_sub (rg_tail r) (rg_head r) = kRingCapacity"
    "u64_sub (rg_tail r) (Suc (rg_head r)) < kRingCapacity"
    using full assms(2) by (simp_all add: u64_sub_le kRingCapacity_def)
  have "ring_push v (rg_tail r) r = ring_push v (rg_tail r) (r\<lparr>rg_head := rg_head r + 1\<rparr>)"
    by (subst ring_push.simps) (simp add: sub pub)
  also have "\<dots> = Some (ring_put v (ring_evict r))"
    using sub(2) by (subst ring_push.simps) (simp add: False ring_evict_def ring_put_def)
  finally show ?thesis .
qed

lemma ring_evict_wf:
  assumes "ring_wf r"
  shows "ring_wf (ring_evict r)" "rg_tail (ring_evict r) < rg_head (ring_evict r) + kRingCapacity"
    and "ring_samples (ring_evict r) = keep_last (kRingCapacity - 1) (ring_samples r)"
    and "rg_tail (ring_evict r) = rg_tail r"
proof -
  have "ring_wf (ring_evict r) \<and> rg_tail (ring_evict r) < rg_head (ring_evict r) + kRingCapacity
    \<and> ring_samples (ring_evict r) = keep_last (kRingCapacity - 1) (ring_samples r)"
  proof (cases "rg_tail r - rg_head r < kRingCapacity")
    case True
    with assms show ?thesis
      by (auto simp: ring_wf_def ring_evict_def ring_samples_def keep_last_def)
  next
    case False
    then have full: "rg_tail r = rg_head r + kRingCapacity"
      using assms(1) unfolding ring_wf_def by linarith
    have "ring_samples (ring_evict r) = drop 1 (ring_samples r)"
      by (simp add: ring_evict_def False ring_samples_def drop_map)
    moreover have "keep_last (kRingCapacity - 1) (ring_samples r) = drop 1 (ring_samples r)"
      by (simp add: keep_last_def ring_samples_def full kRingCapacity_def)
    ultimately show ?thesis
      using assms full by (simp add: ring_evict_def ring_wf_def Suc_le_eq)
  qed
  then show "ring_wf (ring_evict r)" "rg_tail (ring_evict r) < rg_head (ring_evict r) + kRingCapacity"
    "ring_samples (ring_evict r) = keep_last (kRingCapacity - 1) (ring_samples r)" by blast+
qed (simp add: ring_evict_def)

lemma ring_put_wf:
  assumes "ring_wf r" "rg_tail r < rg_head r + kRingCapacity"
  shows "ring_wf (ring_put v r)" "ring_samples (ring_put v r) = ring_samples r @ [v]"
proof -
  have ne: "slot i \<noteq> slot (rg_tail r)" if "rg_head r \<le> i" "i < rg_tail r" for i
    using slot_window [of "rg_head r" i "rg_tail r"] that assms by (auto simp: ring_wf_def)
  show "ring_wf (ring_put v r)"
    using assms ne by (auto simp: ring_wf_def ring_put_def less_Suc_eq)
  show "ring_samples (ring_put v r) = ring_samples r @ [v]"
    using assms ne by (auto simp: ring_samples_def ring_put_def ring_wf_def)
qed

lemma ring_push_refines:
  assumes "ring_wf r" "rg_tail r < 2 ^ 64"
  shows "\<exists>r'. ring_push v (rg_tail r) r = Some r' \<and> ring_wf r' \<and> rg_tail r' = rg_tail r + 1
           \<and> ring_samples r' = keep_last kRingCapacity (ring_samples r @ [v])"
proof -
  note e = ring_evict_wf [OF assms(1)]
  have "keep_last (kRingCapacity - 1) (ring_samples r) @ [v]
      = keep_last kRingCapacity (ring_samples r @ [v])"
    using capacity_pos by (cases kRingCapacity) (auto simp: keep_last_def)
  with ring_push_eq [OF assms] ring_put_wf [OF e(1,2)] e(3,4) show ?thesis
    by (auto simp: ring_put_def)
qed

lemma scan_cells_published:
  "\<forall>j. i \<le> j \<and> j < i + n \<longrightarrow> cl_seq (c (slot j)) = j + 1
    \<Longrightarrow> scan_cells c i n = map (\<lambda>j. cl_value (c (slot j))) [i ..< i + n]"
proof (induction n arbitrary: i)
  case (Suc n)
  then have "scan_cells c (Suc i) n = map (\<lambda>j. cl_value (c (slot j))) [Suc i ..< Suc i + n]"
    by (intro Suc.IH) auto
  with Suc.prems show ?case by (simp add: upt_conv_Cons del: upt_Suc)
qed simp

lemma collect_refines:
  assumes "ring_wf r"
  shows "collect_ring_samples r = keep_last kMaxSnapshotSamples (ring_samples r)"
proof -
  define s where "s = rg_head r + (rg_tail r - rg_head r - kMaxSnapshotSamples)"
  have s: "rg_head r \<le> s" "s \<le> rg_tail r" using assms by (auto simp: s_def ring_wf_def)
  have "collect_ring_samples r = scan_cells (rg_cells r) s (rg_tail r - s)"
    by (auto simp: collect_ring_samples_def Let_def s_def)
  also have "\<dots> = map (\<lambda>j. cl_value (rg_cells r (slot j))) [s ..< rg_tail r]"
    using assms s scan_cells_published [of s "rg_tail r - s" "rg_cells r"] by (auto simp: ring_wf_def)
  also have "\<dots> = keep_last kMaxSnapshotSamples (ring_samples r)"
    by (simp add: ring_samples_def keep_last_def drop_map s_def)
  finally show ?thesis .
qed

lemma ring_reset_wf: "ring_wf (ring_reset r)" "ring_samples (ring_reset r) = []"
    "rg_tail (ring_reset r) = rg_tail r"
  by (simp_all add: ring_wf_def ring_reset_def ring_samples_def)

section \<open>Percentiles are order statistics\<close>

text \<open>The contract of \<open>std::nth_element\<close>.\<close>

locale quantile_impl =
  fixes ne :: "nat \<Rightarrow> int list \<Rightarrow> int list"
  assumes perm: "n < length xs \<Longrightarrow> mset (ne n xs) = mset xs"
    and below: "n < length xs \<Longrightarrow> i < n \<Longrightarrow> ne n xs ! i \<le> ne n xs ! n"
    and above: "n < length xs \<Longrightarrow> n < i \<Longrightarrow> i < length xs \<Longrightarrow> ne n xs ! n \<le> ne n xs ! i"
begin

lemma len: "n < length xs \<Longrightarrow> length (ne n xs) = length xs"
  using perm by (metis size_mset)

lemma sort_split:
  assumes "n < length xs"
  shows "sort xs = sort (take n (ne n xs)) @ [ne n xs ! n] @ sort (drop (Suc n) (ne n xs))"
proof -
  let ?y = "ne n xs"
  have l: "length ?y = length xs" using assms by (rule len)
  let ?z = "sort (take n ?y) @ [?y ! n] @ sort (drop (Suc n) ?y)"
  have "mset ?z = mset (take n ?y @ ?y ! n # drop (Suc n) ?y)" by simp
  also have "\<dots> = mset xs" using assms l perm by (simp only: id_take_nth_drop [symmetric])
  finally have m: "mset ?z = mset xs" .
  have lo: "a \<le> ?y ! n" if "a \<in> set (take n ?y)" for a
    using that assms below l unfolding in_set_conv_nth by auto
  have hi: "?y ! n \<le> a" if "a \<in> set (drop (Suc n) ?y)" for a
  proof -
    from that obtain i where "i < length xs - Suc n" "a = ?y ! (Suc n + i)"
      unfolding in_set_conv_nth using assms l by auto
    with assms above [of n xs "Suc n + i"] show ?thesis by simp
  qed
  have "sorted ?z" using lo hi by (auto simp: sorted_append intro: order_trans)
  with m show ?thesis by (intro properties_for_sort)
qed

lemma at_nth: "n < length xs \<Longrightarrow> ne n xs ! n = sort xs ! n"
  using sort_split [of n xs] len [of n xs] by (simp add: nth_append)

lemma below_nth: "n < length xs \<Longrightarrow> i < n \<Longrightarrow> sort (take n (ne n xs)) ! i = sort xs ! i"
  using sort_split [of n xs] len [of n xs] by (simp add: nth_append)

lemma pair_sorted:
  assumes "xs \<noteq> []" "quantile_idx kP95 (length xs) \<le> quantile_idx kP99 (length xs)"
    and "quantile_idx kP99 (length xs) < length xs"
  shows "quantile_pair ne xs = (sort xs ! quantile_idx kP95 (length xs), sort xs ! quantile_idx kP99 (length xs))"
proof (cases "quantile_idx kP95 (length xs) < quantile_idx kP99 (length xs)")
  case True
  let ?i = "quantile_idx kP95 (length xs)" and ?j = "quantile_idx kP99 (length xs)"
  let ?t = "take ?j (ne ?j xs)"
  have l: "length ?t = ?j" using assms(3) len by simp
  then have l2: "length (ne ?i ?t) = ?j" using True len [of ?i ?t] by simp
  have "ne ?i ?t ! ?i = sort xs ! ?i"
    using True l at_nth [of ?i ?t] below_nth [OF assms(3) True] by simp
  moreover have "drop ?j (ne ?j xs) ! 0 = sort xs ! ?j"
    using assms(3) len at_nth by simp
  ultimately show ?thesis using True l2 by (simp add: quantile_pair_def Let_def nth_append)
next
  case False
  with assms show ?thesis by (simp add: quantile_pair_def Let_def at_nth)
qed

end

interpretation std_nth: quantile_impl nth_element
  by unfold_locales (auto simp: nth_element_def intro!: sorted_nth_le)

lemma quantile_idx_less: "0 < n \<Longrightarrow> quantile_idx p n < n"
  by (simp add: quantile_idx_def)

lemma quantile_idx_mono:
  assumes "0 \<le> p" "p \<le> q"
  shows "quantile_idx p n \<le> quantile_idx q n"
proof -
  have n: "0 \<le> rnd (of_nat n)" by (rule ieee.pos_part) simp
  have "rnd (of_nat n) * p \<le> rnd (of_nat n) * q" using assms n by (intro mult_left_mono)
  then have "fmul (rnd (of_nat n)) p \<le> fmul (rnd (of_nat n)) q" unfolding fmul_def by (rule ieee.mono)
  moreover have "0 \<le> fmul (rnd (of_nat n)) p"
    using assms n by (simp add: fmul_def ieee.pos_part)
  ultimately have "trunc_int (fmul (rnd (of_nat n)) p) \<le> trunc_int (fmul (rnd (of_nat n)) q)"
    by (simp add: trunc_int_nonneg floor_mono)
  then show ?thesis by (auto simp: quantile_idx_def)
qed

lemma quantile_95_99: "quantile_idx kP95 n \<le> quantile_idx kP99 n"
  unfolding kP95_def kP99_def by (intro quantile_idx_mono ieee.mono ieee.pos_part) auto

lemma quantile_pair_sorted:
  "xs \<noteq> [] \<Longrightarrow> quantile_pair nth_element xs
     = (sort xs ! quantile_idx kP95 (length xs), sort xs ! quantile_idx kP99 (length xs))"
  by (intro std_nth.pair_sorted quantile_95_99 quantile_idx_less) auto

section \<open>The collector meets the contract\<close>

definition mc_view :: "MetricsCollector \<Rightarrow> Counters" where
  "mc_view m = \<lparr>ct_total = mc_total_requests m, ct_successful = mc_successful_requests m,
     ct_failed = mc_failed_requests m, ct_sent = mc_total_bytes_sent m,
     ct_received = mc_total_bytes_received m\<rparr>"

definition mc_inv :: "nat \<Rightarrow> MetricsCollector \<Rightarrow> bool" where
  "mc_inv n m \<longleftrightarrow> ring_wf (mc_ring m) \<and> rg_tail (mc_ring m) + n \<le> 2 ^ 63"

definition mc_record :: "Obs \<Rightarrow> MetricsCollector \<Rightarrow> MetricsCollector option" where
  "mc_record ob m = record_request (ob_status ob) (ob_latency ob) (ob_sent ob) (ob_received ob) m"

lemma record_request_ok:
  assumes "ring_wf (mc_ring m)" "rg_tail (mc_ring m) < 2 ^ 64"
  shows "\<exists>r'. record_request c l bs br m = Some ((record_counters c l bs br m)\<lparr>mc_ring := r'\<rparr>)
           \<and> ring_wf r' \<and> rg_tail r' = rg_tail (mc_ring m) + 1
           \<and> ring_samples r' = keep_last kRingCapacity (ring_samples (mc_ring m) @ [l])"
proof -
  have "mc_ring (record_counters c l bs br m) = mc_ring m" by (simp add: record_counters_def)
  with ring_push_refines [OF assms, of l] show ?thesis
    by (auto simp: record_request_def Let_def)
qed

lemma mc_view_record:
  "mc_view ((record_counters (ob_status q) (ob_latency q) (ob_sent q) (ob_received q) m)\<lparr>mc_ring := r\<rparr>)
     = count_obs q (mc_view m)"
  by (simp add: mc_view_def count_obs_def record_counters_def is_success_def of_bool_def)

interpretation mc: request_recorder mc_inv mc_record mc_view "\<lambda>ob. ob"
proof
  fix n m q
  assume "mc_inv (Suc n) m"
  then have w: "ring_wf (mc_ring m)" "rg_tail (mc_ring m) < 2 ^ 64"
    and t: "rg_tail (mc_ring m) + Suc n \<le> 2 ^ 63" by (auto simp: mc_inv_def)
  from record_request_ok [OF w, of "ob_status q" "ob_latency q" "ob_sent q" "ob_received q"]
  obtain r where r: "mc_record q m = Some ((record_counters (ob_status q) (ob_latency q) (ob_sent q) (ob_received q) m)\<lparr>mc_ring := r\<rparr>)"
      "ring_wf r" "rg_tail r = rg_tail (mc_ring m) + 1"
    unfolding mc_record_def by blast
  show "\<exists>m'. mc_record q m = Some m' \<and> mc_inv n m' \<and> mc_view m' = count_obs q (mc_view m)"
    using r t mc_view_record by (simp add: mc_inv_def)
qed

section \<open>Rates\<close>

lemma u64_double_nonneg: "0 \<le> u64_double w"
  by (simp add: u64_double_def ieee.pos_part del: of_nat_unat)

lemma u64_double_mono: "unat a \<le> unat b \<Longrightarrow> u64_double a \<le> u64_double b"
  by (simp add: u64_double_def ieee.mono del: of_nat_unat)

lemma u64_double_ge_one: "w \<noteq> 0 \<Longrightarrow> 1 \<le> u64_double w"
proof -
  assume "w \<noteq> 0"
  then have "1 \<le> unat w" by (simp add: Suc_leI unat_gt_0)
  then have "(1::rat) \<le> of_nat (unat w)" by (simp del: of_nat_unat)
  then show ?thesis using ieee.ge_int [of 1 "of_nat (unat w)"] by (simp add: u64_double_def del: of_nat_unat)
qed

text \<open>A percentage of two counters lies between 0 and 100, after every rounding.\<close>

lemma percent_bounds:
  assumes "unat f \<le> unat t" "t \<noteq> 0"
  shows "0 \<le> fmul (fdiv (u64_double f) (u64_double t)) 100"
    and "fmul (fdiv (u64_double f) (u64_double t)) 100 \<le> 100"
proof -
  have t: "0 < u64_double t" using u64_double_ge_one [OF assms(2)] by simp
  have "u64_double f / u64_double t \<le> 1" using u64_double_mono [OF assms(1)] t by simp
  then have "fdiv (u64_double f) (u64_double t) \<le> 1"
    unfolding fdiv_def using ieee.le_int [of _ 1] by simp
  then show "fmul (fdiv (u64_double f) (u64_double t)) 100 \<le> 100"
    unfolding fmul_def using ieee.le_int [of "fdiv (u64_double f) (u64_double t) * 100" 100] by simp
  show "0 \<le> fmul (fdiv (u64_double f) (u64_double t)) 100"
    by (simp add: fmul_def fdiv_def ieee.pos_part u64_double_nonneg)
qed

lemma u64_double_le: "u64_double w \<le> 2 ^ 64"
proof -
  have "unat w \<le> 2 ^ 64" using unsigned_less [of w, where 'a = nat] by simp
  then have "(of_nat (unat w) :: rat) \<le> of_nat (2 ^ 64)" by (simp only: of_nat_le_iff)
  then have "u64_double w \<le> rnd (of_nat (2 ^ 64))" unfolding u64_double_def by (rule ieee.mono)
  also have "rnd (of_nat (2 ^ 64)) = 2 ^ 64" using rnd_powi [of 64] by simp
  finally show ?thesis .
qed

lemma percent_pos:
  assumes "f \<noteq> 0" "t \<noteq> 0"
  shows "0 < fmul (fdiv (u64_double f) (u64_double t)) 100"
proof -
  have t: "1 \<le> u64_double t" using assms(2) by (rule u64_double_ge_one)
  have "(2::rat) powi (-64) \<le> 1 / u64_double t"
    using t u64_double_le [of t] by (simp add: power_int_minus field_simps)
  also have "\<dots> \<le> u64_double f / u64_double t"
    using u64_double_ge_one [OF assms(1)] t by (intro divide_right_mono) auto
  finally have d: "2 powi (-64) \<le> fdiv (u64_double f) (u64_double t)"
    unfolding fdiv_def using ieee.ge_scaled [of 1 "-64"] by simp
  then have "2 powi (-64) \<le> fdiv (u64_double f) (u64_double t) * 100" by simp
  then have "2 powi (-64) \<le> fmul (fdiv (u64_double f) (u64_double t)) 100"
    unfolding fmul_def using ieee.ge_scaled [of 1 "-64"] by simp
  then show ?thesis by (rule less_le_trans [rotated]) simp
qed

lemma counters_of_unat:
  assumes "length obs < 2 ^ 64"
  shows "unat (ct_total (counters_of obs)) = length obs"
    and "unat (ct_failed (counters_of obs)) = length (filter (\<lambda>ob. \<not> is_success (ob_status ob)) obs)"
  using assms
  by (auto simp: counters_of_def intro!: unat_of_nat_small intro: le_less_trans [OF length_filter_le])

lemma record_all_samples:
  assumes "mc_inv (length obs) m" "record_all mc_record obs m = Some m'"
  shows "ring_wf (mc_ring m')"
    and "ring_samples (mc_ring m) = keep_last kRingCapacity hist
      \<Longrightarrow> ring_samples (mc_ring m') = keep_last kRingCapacity (hist @ map ob_latency obs)"
proof -
  have "ring_wf (mc_ring m') \<and> (ring_samples (mc_ring m) = keep_last kRingCapacity hist
      \<longrightarrow> ring_samples (mc_ring m') = keep_last kRingCapacity (hist @ map ob_latency obs))"
    using assms
  proof (induction obs arbitrary: m hist)
    case Nil
    then show ?case by (simp add: mc_inv_def)
  next
    case (Cons ob obs)
    then have w: "ring_wf (mc_ring m)" "rg_tail (mc_ring m) < 2 ^ 64" by (auto simp: mc_inv_def)
    obtain r' where r': "mc_record ob m = Some ((record_counters (ob_status ob) (ob_latency ob) (ob_sent ob) (ob_received ob) m)\<lparr>mc_ring := r'\<rparr>)"
      "ring_wf r'" "rg_tail r' = rg_tail (mc_ring m) + 1"
      "ring_samples r' = keep_last kRingCapacity (ring_samples (mc_ring m) @ [ob_latency ob])"
      using record_request_ok [OF w, of "ob_status ob" "ob_latency ob" "ob_sent ob" "ob_received ob"]
      unfolding mc_record_def by blast
    let ?m = "(record_counters (ob_status ob) (ob_latency ob) (ob_sent ob) (ob_received ob) m)\<lparr>mc_ring := r'\<rparr>"
    have "mc_inv (length obs) ?m" "record_all mc_record obs ?m = Some m'"
      using Cons.prems r' by (auto simp: mc_inv_def)
    from Cons.IH [OF this, of "hist @ [ob_latency ob]"] r'(4) show ?case
      by (auto simp: keep_last_snoc)
  qed
  then show "ring_wf (mc_ring m')" "ring_samples (mc_ring m) = keep_last kRingCapacity hist
      \<Longrightarrow> ring_samples (mc_ring m') = keep_last kRingCapacity (hist @ map ob_latency obs)" by blast+
qed

lemma mc_new_inv: "n \<le> 2 ^ 63 \<Longrightarrow> mc_inv n (MetricsCollector_new now)"
  using ring_new_wf by (simp add: mc_inv_def MetricsCollector_new_def ring_new_def)

lemma mc_new_view: "mc_view (MetricsCollector_new now) = counters_zero"
  by (simp add: mc_view_def MetricsCollector_new_def counters_zero_def)

lemma mc_new_samples: "ring_samples (mc_ring (MetricsCollector_new now)) = keep_last kRingCapacity []"
  using ring_new_samples by (simp add: MetricsCollector_new_def keep_last_def)

lemma mc_reset: "mc_inv n m \<Longrightarrow> mc_inv n (reset now m) \<and> mc_view (reset now m) = counters_zero
    \<and> ring_samples (mc_ring (reset now m)) = keep_last kRingCapacity []"
  using ring_reset_wf [of "mc_ring m"]
  by (simp add: mc_inv_def mc_view_def reset_def counters_zero_def keep_last_def)

text \<open>A snapshot of a well-formed collector, spelled out.\<close>

lemma snapshot_samples:
  assumes "ring_wf (mc_ring m)" "ring_samples (mc_ring m) = keep_last kRingCapacity hist"
  shows "collect_ring_samples (mc_ring m) = keep_last kMaxSnapshotSamples hist"
proof -
  have "keep_last kMaxSnapshotSamples (keep_last kRingCapacity hist) = keep_last kMaxSnapshotSamples hist"
    by (rule keep_last_keep_last) (simp add: kMaxSnapshotSamples_def kRingCapacity_def)
  with collect_refines [OF assms(1)] assms(2) show ?thesis by simp
qed

lemma recorded_counters:
  assumes "length obs \<le> 2 ^ 63" "record_all mc_record obs (MetricsCollector_new now) = Some m"
  shows "mc_view m = counters_of obs"
proof -
  have "mc_inv (length obs) (MetricsCollector_new now)" using assms(1) by (rule mc_new_inv)
  then show ?thesis using mc.record_all_fresh [of obs 0 "MetricsCollector_new now"] mc_new_view assms(2) by auto
qed

lemma recorded_samples:
  assumes "length obs \<le> 2 ^ 63" "record_all mc_record obs (MetricsCollector_new now) = Some m"
  shows "collect_ring_samples (mc_ring m) = keep_last kMaxSnapshotSamples (map ob_latency obs)"
proof -
  have i: "mc_inv (length obs) (MetricsCollector_new now)" using assms(1) by (rule mc_new_inv)
  note r = record_all_samples [OF i assms(2)]
  show ?thesis using snapshot_samples [OF r(1) r(2) [OF mc_new_samples]] by simp
qed

section \<open>Properties\<close>

text \<open>
  C3: recording never hangs and never loses a count. A fresh collector accepts any sequence of
  up to \<open>2\<^sup>6\<^sup>3\<close> requests; a snapshot then has the exact counters, total equal to
  successes plus failures, and the sample window is the latencies of the most recent
  requests, in order, capped at \<open>kMaxSnapshotSamples\<close>.
\<close>

theorem collector_records_all:
  assumes "length obs \<le> 2 ^ 63"
  shows "\<exists>m. record_all mc_record obs (MetricsCollector_new now) = Some m
     \<and> rm_total_requests (snapshot m) = of_nat (length obs)
     \<and> rm_total_requests (snapshot m) = rm_successful_requests (snapshot m) + rm_failed_requests (snapshot m)
     \<and> rm_successful_requests (snapshot m) = of_nat (length (filter (is_success \<circ> ob_status) obs))
     \<and> rm_total_bytes_sent (snapshot m) = sum_list (map ob_sent obs)
     \<and> rm_total_bytes_received (snapshot m) = sum_list (map ob_received obs)
     \<and> collect_ring_samples (mc_ring m) = keep_last kMaxSnapshotSamples (map ob_latency obs)"
proof -
  have i: "mc_inv (length obs) (MetricsCollector_new now)" using assms by (rule mc_new_inv)
  obtain m where m: "record_all mc_record obs (MetricsCollector_new now) = Some m"
    and v: "mc_view m = counters_of obs"
    using mc.record_all_fresh [of obs 0 "MetricsCollector_new now"] i mc_new_view by auto
  note r = record_all_samples [OF i m]
  have "collect_ring_samples (mc_ring m) = keep_last kMaxSnapshotSamples (map ob_latency obs)"
    using snapshot_samples [OF r(1) r(2) [OF mc_new_samples]] by simp
  moreover have "rm_total_requests (snapshot m) = ct_total (mc_view m)"
    "rm_successful_requests (snapshot m) = ct_successful (mc_view m)"
    "rm_failed_requests (snapshot m) = ct_failed (mc_view m)"
    "rm_total_bytes_sent (snapshot m) = ct_sent (mc_view m)"
    "rm_total_bytes_received (snapshot m) = ct_received (mc_view m)"
    by (simp_all add: snapshot_def mc_view_def Let_def split: prod.split)
  ultimately show ?thesis
    using m counters_of_split [of obs] unfolding v by (intro exI [of _ m] conjI) (simp_all add: counters_of_def)
qed

theorem collector_records_all_witness:
  "\<exists>m. record_all mc_record
         [\<lparr>ob_status = 200, ob_latency = 30, ob_sent = 5, ob_received = 7\<rparr>,
          \<lparr>ob_status = 503, ob_latency = 10, ob_sent = 5, ob_received = 0\<rparr>]
         (MetricsCollector_new 0) = Some m
     \<and> rm_total_requests (snapshot m) = 2 \<and> rm_successful_requests (snapshot m) = 1
     \<and> collect_ring_samples (mc_ring m) = [30, 10]"
  using collector_records_all [of "[\<lparr>ob_status = 200, ob_latency = 30, ob_sent = 5, ob_received = 7\<rparr>,
          \<lparr>ob_status = 503, ob_latency = 10, ob_sent = 5, ob_received = 0\<rparr>]" 0]
  by (auto simp: is_success_def keep_last_def kMaxSnapshotSamples_def)

lemma percentile_bounds:
  assumes "samples = collect_ring_samples (mc_ring m)" "samples \<noteq> []"
    and "\<forall>l\<in>set samples. 0 \<le> l \<and> l < 2 ^ 63"
  shows "unat (rm_p95_latency_us (snapshot m)) = nat (sort samples ! quantile_idx kP95 (length samples))
       \<and> unat (rm_p99_latency_us (snapshot m)) = nat (sort samples ! quantile_idx kP99 (length samples))
       \<and> quantile_idx kP99 (length samples) < length samples
       \<and> rm_p95_latency_us (snapshot m) \<le> rm_p99_latency_us (snapshot m)
       \<and> unat (rm_p99_latency_us (snapshot m)) \<le> nat (Max (set samples))"
proof -
  let ?i = "quantile_idx kP95 (length samples)" and ?j = "quantile_idx kP99 (length samples)"
  have p: "rm_p95_latency_us (snapshot m) = word_of_int (sort samples ! ?i)"
    "rm_p99_latency_us (snapshot m) = word_of_int (sort samples ! ?j)"
    using assms(1,2) quantile_pair_sorted [of samples] by (simp_all add: snapshot_def Let_def)
  have j: "?j < length samples" using assms(2) by (simp add: quantile_idx_less)
  then have i: "?i < length samples" using quantile_95_99 by (rule le_less_trans [rotated])
  have mem: "sort samples ! k \<in> set samples" if "k < length samples" for k
    using that nth_mem [of k "sort samples"] by simp
  have val: "unat (word_of_int (sort samples ! k) :: u64) = nat (sort samples ! k)"
    if "k < length samples" for k
  proof -
    have "0 \<le> sort samples ! k" "sort samples ! k < 2 ^ 64" using assms(3) mem [OF that] by force+
    then show ?thesis by (simp add: unsigned_of_int take_bit_int_eq_self)
  qed
  have le: "sort samples ! ?i \<le> sort samples ! ?j"
    using quantile_95_99 j by (intro sorted_nth_le) auto
  have "sort samples ! ?j \<le> Max (set samples)" using mem [OF j] by simp
  with le show ?thesis using p val [OF i] val [OF j] j by (simp add: word_le_nat_alt nat_mono)
qed

text \<open>
  C4: the percentiles of a snapshot are order statistics of the buffered samples, found
  by the two partial \<open>nth_element\<close> passes at indices inside the sample vector, and for
  latencies that are not negative p95 is at most p99 and p99 at most the largest sample.
\<close>

theorem snapshot_percentiles:
  assumes "samples = collect_ring_samples (mc_ring m)" "samples \<noteq> []"
    and "\<forall>l\<in>set samples. 0 \<le> l \<and> l < 2 ^ 63"
  shows "unat (rm_p95_latency_us (snapshot m)) = nat (sort samples ! quantile_idx kP95 (length samples))
       \<and> unat (rm_p99_latency_us (snapshot m)) = nat (sort samples ! quantile_idx kP99 (length samples))
       \<and> quantile_idx kP99 (length samples) < length samples
       \<and> rm_p95_latency_us (snapshot m) \<le> rm_p99_latency_us (snapshot m)
       \<and> unat (rm_p99_latency_us (snapshot m)) \<le> nat (Max (set samples))"
  using assms by (rule percentile_bounds)

theorem snapshot_percentiles_witness:
  "\<exists>m. collect_ring_samples (mc_ring m) = [30, 10] \<and> rm_p95_latency_us (snapshot m) \<le> rm_p99_latency_us (snapshot m)"
proof -
  let ?m = "(MetricsCollector_new 0)\<lparr>mc_ring := ring_put 10 (ring_put 30 ring_new)\<rparr>"
  have c: "collect_ring_samples (mc_ring ?m) = [30, 10]"
    by (simp add: collect_ring_samples_def ring_put_def ring_new_def slot_mod kRingCapacity_def
        kMaxSnapshotSamples_def numeral_2_eq_2)
  show ?thesis using snapshot_percentiles [OF c [symmetric]] c by (intro exI [of _ ?m]) simp
qed

lemma recorded_error_rate:
  assumes "length obs \<le> 2 ^ 63" "record_all mc_record obs (MetricsCollector_new now) = Some m"
  shows "0 \<le> error_rate m \<and> error_rate m \<le> 100
       \<and> (error_rate m = 0 \<longleftrightarrow> list_all (is_success \<circ> ob_status) obs)"
proof -
  have "mc_inv (length obs) (MetricsCollector_new now)" using assms(1) by (rule mc_new_inv)
  then have v: "mc_view m = counters_of obs"
    using mc.record_all_fresh [of obs 0 "MetricsCollector_new now"] mc_new_view assms(2) by auto
  have l: "length obs < 2 ^ 64" using assms(1) by simp
  have t: "mc_total_requests m = ct_total (counters_of obs)"
    "mc_failed_requests m = ct_failed (counters_of obs)"
    unfolding v [symmetric] by (simp_all add: mc_view_def)
  have "unat (mc_failed_requests m) \<le> unat (mc_total_requests m)"
    using counters_of_unat [OF l] t by simp
  then have "0 \<le> error_rate m \<and> error_rate m \<le> 100"
    using percent_bounds [of "mc_failed_requests m" "mc_total_requests m"]
    by (auto simp: error_rate_def)
  moreover have "error_rate m = 0 \<longleftrightarrow> mc_failed_requests m = 0"
  proof (cases "mc_failed_requests m = 0")
    case True
    then show ?thesis by (simp add: error_rate_def u64_double_def fp_defs)
  next
    case False
    then have "mc_total_requests m \<noteq> 0"
      using \<open>unat (mc_failed_requests m) \<le> unat (mc_total_requests m)\<close> by (auto simp: unat_eq_0)
    with False percent_pos [of "mc_failed_requests m" "mc_total_requests m"] show ?thesis
      by (simp add: error_rate_def)
  qed
  moreover have "mc_failed_requests m = 0 \<longleftrightarrow> list_all (is_success \<circ> ob_status) obs"
    using counters_of_unat(2) [OF l] t(2)
    by (auto simp: list_all_iff filter_empty_conv simp flip: unat_eq_0)
  ultimately show ?thesis by blast
qed

text \<open>
  C5: the error rate of any recorded sequence is a percentage between 0 and 100 in spite of
  rounding, and it is zero exactly when no request failed.
\<close>

theorem error_rate_percentage:
  assumes "length obs \<le> 2 ^ 63" "record_all mc_record obs (MetricsCollector_new now) = Some m"
  shows "0 \<le> error_rate m \<and> error_rate m \<le> 100
       \<and> (error_rate m = 0 \<longleftrightarrow> list_all (is_success \<circ> ob_status) obs)"
  using assms by (rule recorded_error_rate)

theorem error_rate_percentage_witness:
  "\<exists>m. record_all mc_record [\<lparr>ob_status = 204, ob_latency = 3, ob_sent = 0, ob_received = 0\<rparr>]
         (MetricsCollector_new 0) = Some m \<and> error_rate m = 0"
proof -
  let ?obs = "[\<lparr>ob_status = 204, ob_latency = 3, ob_sent = 0, ob_received = 0\<rparr>]"
  have "mc_inv (length ?obs) (MetricsCollector_new 0)" by (rule mc_new_inv) simp
  then obtain m where m: "record_all mc_record ?obs (MetricsCollector_new 0) = Some m"
    using mc.record_all_ok [of ?obs 0 "MetricsCollector_new 0"] by auto
  with error_rate_percentage [of ?obs 0 m] show ?thesis by (auto simp: is_success_def)
qed

end
