(* ===== verification/Ring_Protocol.thy ===== *)
theory Ring_Protocol
  imports Ring_Collector
begin

text \<open>
  The lock-free push of \<open>MetricsCollector::record_request\<close> under any number of producer
  threads. Every atomic load, store and compare-exchange of the loop is one step; steps of
  different threads interleave freely, and a \<open>compare_exchange_weak\<close> may fail without reason.
  Atomics are taken as sequentially consistent. \<open>reset\<close> is not a step: no part of
  the program calls it while producers run (only the Python binding exposes it).
\<close>

section \<open>Program counters and steps\<close>

datatype Pc =
    Idle
  | AtHead int nat       \<comment> \<open>loop head, with the local \<open>t\<close>\<close>
  | AtCheck int nat nat  \<comment> \<open>\<open>h\<close> is loaded\<close>
  | AtEvict int nat      \<comment> \<open>the oldest slot was seen published\<close>
  | AtReload int         \<comment> \<open>about to reload \<open>tail_\<close>\<close>
  | AtWrite int nat      \<comment> \<open>owns position \<open>t\<close>, payload not written\<close>
  | AtPublish int nat    \<comment> \<open>payload written, \<open>seq\<close> not stored\<close>

record Ring_State =
  rp_ring :: Ring
  rp_pc :: "nat \<Rightarrow> Pc"
  rp_log :: "nat \<Rightarrow> int"  \<comment> \<open>the sample that reserved each position (ghost)\<close>

fun ticket :: "Pc \<Rightarrow> nat option" where
  "ticket (AtWrite v t) = Some t"
| "ticket (AtPublish v t) = Some t"
| "ticket _ = None"

definition set_pc :: "nat \<Rightarrow> Pc \<Rightarrow> Ring_State \<Rightarrow> Ring_State" where
  "set_pc i p s = s\<lparr>rp_pc := (rp_pc s)(i := p)\<rparr>"

definition set_cell :: "nat \<Rightarrow> (Cell \<Rightarrow> Cell) \<Rightarrow> Ring_State \<Rightarrow> Ring_State" where
  "set_cell k f s = s\<lparr>rp_ring := (rp_ring s)\<lparr>rg_cells := (rg_cells (rp_ring s))(k := f (rg_cells (rp_ring s) k))\<rparr>\<rparr>"

abbreviation hd_of :: "Ring_State \<Rightarrow> nat" where "hd_of s \<equiv> rg_head (rp_ring s)"
abbreviation tl_of :: "Ring_State \<Rightarrow> nat" where "tl_of s \<equiv> rg_tail (rp_ring s)"
abbreviation cell_at :: "Ring_State \<Rightarrow> nat \<Rightarrow> Cell" where
  "cell_at s p \<equiv> rg_cells (rp_ring s) (slot p)"

inductive rp_step :: "Ring_State \<Rightarrow> Ring_State \<Rightarrow> bool" where
  Start: "rp_pc s i = Idle \<Longrightarrow> rp_step s (set_pc i (AtHead v (tl_of s)) s)"
| Load_head: "rp_pc s i = AtHead v t \<Longrightarrow> rp_step s (set_pc i (AtCheck v t (hd_of s)) s)"
| Mid_write: "rp_pc s i = AtCheck v t h \<Longrightarrow> u64_sub t h \<ge> kRingCapacity \<Longrightarrow> cl_seq (cell_at s h) \<noteq> h + 1
    \<Longrightarrow> rp_step s (set_pc i (AtReload v) s)"
| Oldest_ready: "rp_pc s i = AtCheck v t h \<Longrightarrow> u64_sub t h \<ge> kRingCapacity \<Longrightarrow> cl_seq (cell_at s h) = h + 1
    \<Longrightarrow> rp_step s (set_pc i (AtEvict v h) s)"
| Evict_ok: "rp_pc s i = AtEvict v h \<Longrightarrow> hd_of s = h
    \<Longrightarrow> rp_step s (set_pc i (AtReload v) (s\<lparr>rp_ring := (rp_ring s)\<lparr>rg_head := h + 1\<rparr>\<rparr>))"
| Evict_fail: "rp_pc s i = AtEvict v h \<Longrightarrow> rp_step s (set_pc i (AtReload v) s)"
| Reload: "rp_pc s i = AtReload v \<Longrightarrow> rp_step s (set_pc i (AtHead v (tl_of s)) s)"
| Reserve_ok: "rp_pc s i = AtCheck v t h \<Longrightarrow> u64_sub t h < kRingCapacity \<Longrightarrow> tl_of s = t
    \<Longrightarrow> rp_step s (set_pc i (AtWrite v t)
          (s\<lparr>rp_ring := (rp_ring s)\<lparr>rg_tail := t + 1\<rparr>, rp_log := (rp_log s)(t := v)\<rparr>))"
| Reserve_fail: "rp_pc s i = AtCheck v t h \<Longrightarrow> u64_sub t h < kRingCapacity
    \<Longrightarrow> rp_step s (set_pc i (AtHead v (tl_of s)) s)"
| Write_value: "rp_pc s i = AtWrite v t
    \<Longrightarrow> rp_step s (set_pc i (AtPublish v t) (set_cell (slot t) (\<lambda>c. c\<lparr>cl_value := v\<rparr>) s))"
| Store_seq: "rp_pc s i = AtPublish v t
    \<Longrightarrow> rp_step s (set_pc i Idle (set_cell (slot t) (\<lambda>c. c\<lparr>cl_seq := t + 1\<rparr>) s))"

definition rp_init :: Ring_State where
  "rp_init = \<lparr>rp_ring = ring_new, rp_pc = (\<lambda>_. Idle), rp_log = (\<lambda>_. 0)\<rparr>"

inductive rp_reach :: "Ring_State \<Rightarrow> bool" where
  Init: "rp_reach rp_init"
| Next: "rp_reach s \<Longrightarrow> rp_step s s' \<Longrightarrow> rp_reach s'"

section \<open>Invariant\<close>

definition published :: "Ring_State \<Rightarrow> nat \<Rightarrow> bool" where
  "published s p \<longleftrightarrow> cl_seq (cell_at s p) = p + 1"

fun pc_ok :: "Ring_State \<Rightarrow> Pc \<Rightarrow> bool" where
  "pc_ok s Idle = True"
| "pc_ok s (AtHead v t) = (t \<le> tl_of s)"
| "pc_ok s (AtCheck v t h) = (t \<le> tl_of s \<and> h \<le> hd_of s)"
| "pc_ok s (AtEvict v h) = (h \<le> hd_of s \<and> (h = hd_of s \<longrightarrow> h < tl_of s \<and> published s h))"
| "pc_ok s (AtReload v) = True"
| "pc_ok s (AtWrite v t) = (hd_of s \<le> t \<and> t < tl_of s \<and> rp_log s t = v \<and> \<not> published s t)"
| "pc_ok s (AtPublish v t) = (hd_of s \<le> t \<and> t < tl_of s \<and> rp_log s t = v \<and> \<not> published s t
     \<and> cl_value (cell_at s t) = v)"

definition rp_inv :: "Ring_State \<Rightarrow> bool" where
  "rp_inv s \<longleftrightarrow> hd_of s \<le> tl_of s \<and> tl_of s \<le> hd_of s + kRingCapacity
     \<and> (\<forall>i. pc_ok s (rp_pc s i))
     \<and> (\<forall>i j t. ticket (rp_pc s i) = Some t \<longrightarrow> ticket (rp_pc s j) = Some t \<longrightarrow> i = j)
     \<and> (\<forall>p. hd_of s \<le> p \<and> p < tl_of s \<longrightarrow>
          (published s p \<and> cl_value (cell_at s p) = rp_log s p) \<or> (\<exists>i. ticket (rp_pc s i) = Some p))
     \<and> (\<forall>p \<ge> tl_of s. \<not> published s p)"

lemma set_pc_simps [simp]:
  "rp_ring (set_pc i p s) = rp_ring s" "rp_log (set_pc i p s) = rp_log s"
  "rp_pc (set_pc i p s) = (rp_pc s)(i := p)" "published (set_pc i p s) = published s"
  by (simp_all add: set_pc_def published_def fun_eq_iff)

lemma set_cell_simps [simp]:
  "hd_of (set_cell k f s) = hd_of s" "tl_of (set_cell k f s) = tl_of s"
  "rp_log (set_cell k f s) = rp_log s" "rp_pc (set_cell k f s) = rp_pc s"
  "cell_at (set_cell k f s) p = (if slot p = k then f (cell_at s p) else cell_at s p)"
  by (simp_all add: set_cell_def)

lemma pc_ok_set_pc [simp]: "pc_ok (set_pc i p s) q = pc_ok s q"
  by (cases q) simp_all

lemma pc_ok_ticket: "pc_ok s p \<Longrightarrow> ticket p = Some t \<Longrightarrow> hd_of s \<le> t \<and> t < tl_of s \<and> \<not> published s t"
  by (cases p) auto

lemma rp_invD:
  assumes "rp_inv s"
  shows "hd_of s \<le> tl_of s" "tl_of s \<le> hd_of s + kRingCapacity" "pc_ok s (rp_pc s i)"
    and "ticket (rp_pc s i) = Some t \<Longrightarrow> ticket (rp_pc s j) = Some t \<Longrightarrow> i = j"
    and "hd_of s \<le> p \<Longrightarrow> p < tl_of s \<Longrightarrow>
          (published s p \<and> cl_value (cell_at s p) = rp_log s p) \<or> (\<exists>i. ticket (rp_pc s i) = Some p)"
    and "tl_of s \<le> p \<Longrightarrow> \<not> published s p"
  using assms by (auto simp: rp_inv_def)

text \<open>Two positions of the window in one slot are one position.\<close>

lemma window_slot:
  assumes "rp_inv s" "hd_of s \<le> p" "p < tl_of s" "hd_of s \<le> q" "q < tl_of s"
  shows "slot p = slot q \<longleftrightarrow> p = q"
  using assms rp_invD(2) [OF assms(1)] slot_window [of "hd_of s" p q] by auto

text \<open>Steps that only move a program counter that owns no position.\<close>

lemma inv_move:
  assumes inv: "rp_inv s" and q: "pc_ok s q" "ticket q = None" and old: "ticket (rp_pc s i) = None"
  shows "rp_inv (set_pc i q s)"
proof -
  have tk: "ticket (rp_pc (set_pc i q s) j) = ticket (rp_pc s j)" for j using q old by simp
  show ?thesis unfolding rp_inv_def
  proof (intro conjI allI impI)
    show "pc_ok (set_pc i q s) (rp_pc (set_pc i q s) j)" for j
      using rp_invD(3) [OF inv] q by simp
  next
    fix a b t
    assume "ticket (rp_pc (set_pc i q s) a) = Some t" "ticket (rp_pc (set_pc i q s) b) = Some t"
    then show "a = b" unfolding tk by (rule rp_invD(4) [OF inv])
  next
    fix p
    assume "hd_of (set_pc i q s) \<le> p \<and> p < tl_of (set_pc i q s)"
    then show "published (set_pc i q s) p \<and> cl_value (cell_at (set_pc i q s) p) = rp_log (set_pc i q s) p
      \<or> (\<exists>a. ticket (rp_pc (set_pc i q s) a) = Some p)"
      unfolding tk using rp_invD(5) [OF inv] by simp
  qed (use rp_invD [OF inv] in auto)
qed

lemma inv_evict:
  assumes inv: "rp_inv s" and i: "rp_pc s i = AtEvict v (hd_of s)"
  shows "rp_inv (set_pc i (AtReload v) (s\<lparr>rp_ring := (rp_ring s)\<lparr>rg_head := hd_of s + 1\<rparr>\<rparr>))"
    (is "rp_inv (set_pc i _ ?s)")
proof (rule inv_move)
  have pub: "hd_of s < tl_of s" "published s (hd_of s)" using rp_invD(3) [OF inv, of i] i by auto
  have P: "published ?s = published s" by (simp add: published_def fun_eq_iff)
  have ok: "pc_ok ?s (rp_pc s j)" for j
    using rp_invD(3) [OF inv, of j] pub P by (cases "rp_pc s j") (auto simp: Suc_le_eq le_less)
  show "rp_inv ?s" unfolding rp_inv_def
    using rp_invD [OF inv] pub ok P by (auto simp: Suc_le_eq)
qed (use i in simp_all)

lemma inv_reserve:
  assumes inv: "rp_inv s" and i: "rp_pc s i = AtCheck v t h" and u: "u64_sub t h < kRingCapacity"
    and t: "tl_of s = t" and bound: "t < 2 ^ 63"
  shows "rp_inv (set_pc i (AtWrite v t)
          (s\<lparr>rp_ring := (rp_ring s)\<lparr>rg_tail := t + 1\<rparr>, rp_log := (rp_log s)(t := v)\<rparr>))"
    (is "rp_inv (set_pc i _ ?s)")
proof -
  have h: "h \<le> hd_of s" "hd_of s \<le> t" using rp_invD(1) [OF inv] rp_invD(3) [OF inv, of i] i t by auto
  then have room: "t < hd_of s + kRingCapacity"
    using u64_sub_small [OF u bound] bound by auto
  have P: "published ?s = published s" by (simp add: published_def fun_eq_iff)
  have fresh: "\<not> published s t" using rp_invD(6) [OF inv] t by simp
  have ok: "pc_ok ?s (rp_pc s j)" for j
    using rp_invD(3) [OF inv, of j] t P by (cases "rp_pc s j") auto
  have tk: "ticket (rp_pc s j) \<noteq> Some t" for j
    using pc_ok_ticket [OF rp_invD(3) [OF inv, of j]] t by auto
  show ?thesis unfolding rp_inv_def
  proof (intro conjI allI impI)
    fix j show "pc_ok (set_pc i (AtWrite v t) ?s) (rp_pc (set_pc i (AtWrite v t) ?s) j)"
      using ok h fresh P by simp
  next
    fix a b k
    assume "ticket (rp_pc (set_pc i (AtWrite v t) ?s) a) = Some k"
      "ticket (rp_pc (set_pc i (AtWrite v t) ?s) b) = Some k"
    then show "a = b" using tk rp_invD(4) [OF inv] by (auto split: if_splits)
  next
    fix p
    assume a: "hd_of (set_pc i (AtWrite v t) ?s) \<le> p \<and> p < tl_of (set_pc i (AtWrite v t) ?s)"
    show "published (set_pc i (AtWrite v t) ?s) p
        \<and> cl_value (cell_at (set_pc i (AtWrite v t) ?s) p) = rp_log (set_pc i (AtWrite v t) ?s) p
      \<or> (\<exists>j. ticket (rp_pc (set_pc i (AtWrite v t) ?s) j) = Some p)"
    proof (cases "p = t")
      case False
      with a t have "hd_of s \<le> p" "p < tl_of s" by auto
      from rp_invD(5) [OF inv this] show ?thesis
      proof
        assume "\<exists>j. ticket (rp_pc s j) = Some p"
        then obtain j where "ticket (rp_pc s j) = Some p" ..
        with i show ?thesis by (intro disjI2 exI [of _ j]) auto
      qed (use P False in simp)
    qed (auto intro!: exI [of _ i])
  qed (use h room rp_invD(6) [OF inv] P t in auto)
qed

text \<open>Writes to a cell by the thread that owns its position.\<close>

lemma inv_write:
  assumes inv: "rp_inv s" and i: "rp_pc s i = AtWrite v t"
  shows "rp_inv (set_pc i (AtPublish v t) (set_cell (slot t) (\<lambda>c. c\<lparr>cl_value := v\<rparr>) s))"
    (is "rp_inv (set_pc i ?q ?s)")
proof -
  have own: "hd_of s \<le> t" "t < tl_of s" "rp_log s t = v" "\<not> published s t"
    using rp_invD(3) [OF inv, of i] i by auto
  have P: "published ?s = published s" by (simp add: published_def fun_eq_iff)
  have other: "ticket (rp_pc s j) \<noteq> Some t" if "j \<noteq> i" for j
    using rp_invD(4) [OF inv, of i t j] i that by auto
  have keep: "cl_value (cell_at ?s p) = cl_value (cell_at s p)"
    if "hd_of s \<le> p" "p < tl_of s" "p \<noteq> t" for p
    using that own window_slot [OF inv, of p t] by simp
  have ok: "pc_ok ?s (rp_pc s j)" if "j \<noteq> i" for j
    using rp_invD(3) [OF inv, of j] other [OF that] P keep by (cases "rp_pc s j") auto
  have tk: "ticket (rp_pc (set_pc i ?q ?s) j) = ticket (rp_pc s j)" for j using i by simp
  show ?thesis unfolding rp_inv_def
  proof (intro conjI allI impI)
    fix j show "pc_ok (set_pc i ?q ?s) (rp_pc (set_pc i ?q ?s) j)" using ok own P by auto
  next
    fix a b k
    assume "ticket (rp_pc (set_pc i ?q ?s) a) = Some k" "ticket (rp_pc (set_pc i ?q ?s) b) = Some k"
    then show "a = b" unfolding tk by (rule rp_invD(4) [OF inv])
  next
    fix p assume "hd_of (set_pc i ?q ?s) \<le> p \<and> p < tl_of (set_pc i ?q ?s)"
    then have p: "hd_of s \<le> p" "p < tl_of s" by auto
    show "published (set_pc i ?q ?s) p \<and> cl_value (cell_at (set_pc i ?q ?s) p) = rp_log (set_pc i ?q ?s) p
      \<or> (\<exists>j. ticket (rp_pc (set_pc i ?q ?s) j) = Some p)"
    proof (cases "p = t")
      case False
      with rp_invD(5) [OF inv p] keep [OF p] show ?thesis unfolding tk using P by simp
    qed (auto intro!: exI [of _ i])
  qed (use rp_invD(1,2,6) [OF inv] P in auto)
qed

lemma inv_publish:
  assumes inv: "rp_inv s" and i: "rp_pc s i = AtPublish v t"
  shows "rp_inv (set_pc i Idle (set_cell (slot t) (\<lambda>c. c\<lparr>cl_seq := t + 1\<rparr>) s))"
    (is "rp_inv (set_pc i ?q ?s)")
proof -
  have own: "hd_of s \<le> t" "t < tl_of s" "rp_log s t = v" "cl_value (cell_at s t) = v"
    using rp_invD(3) [OF inv, of i] i by auto
  have V: "cl_value (cell_at ?s p) = cl_value (cell_at s p)" for p by simp
  have other: "ticket (rp_pc s j) \<noteq> Some t" if "j \<noteq> i" for j
    using rp_invD(4) [OF inv, of i t j] i that by auto
  have pt: "published ?s t" by (simp add: published_def)
  have keep: "published ?s p = published s p" if "hd_of s \<le> p" "p < tl_of s" "p \<noteq> t" for p
    using that own window_slot [OF inv, of p t] by (simp add: published_def)
  have late: "\<not> published ?s p" if "tl_of s \<le> p" for p
    using that own rp_invD(6) [OF inv that] by (auto simp: published_def)
  have up: "published s p \<Longrightarrow> hd_of s \<le> p \<Longrightarrow> p < tl_of s \<Longrightarrow> published ?s p" for p
    using keep pt by (cases "p = t") auto
  have ok: "pc_ok ?s (rp_pc s j)" if "j \<noteq> i" for j
    using rp_invD(3) [OF inv, of j] other [OF that] keep up V by (cases "rp_pc s j") auto
  show ?thesis unfolding rp_inv_def
  proof (intro conjI allI impI)
    fix j show "pc_ok (set_pc i ?q ?s) (rp_pc (set_pc i ?q ?s) j)" using ok by auto
  next
    fix a b k
    assume "ticket (rp_pc (set_pc i ?q ?s) a) = Some k" "ticket (rp_pc (set_pc i ?q ?s) b) = Some k"
    then show "a = b" using rp_invD(4) [OF inv] by (auto split: if_splits)
  next
    fix p assume "hd_of (set_pc i ?q ?s) \<le> p \<and> p < tl_of (set_pc i ?q ?s)"
    then have p: "hd_of s \<le> p" "p < tl_of s" by auto
    show "published (set_pc i ?q ?s) p \<and> cl_value (cell_at (set_pc i ?q ?s) p) = rp_log (set_pc i ?q ?s) p
      \<or> (\<exists>j. ticket (rp_pc (set_pc i ?q ?s) j) = Some p)"
    proof (cases "p = t")
      case True
      with pt own V show ?thesis by simp
    next
      case False
      from rp_invD(5) [OF inv p]
      show ?thesis
      proof
        assume "\<exists>j. ticket (rp_pc s j) = Some p"
        then obtain j where "ticket (rp_pc s j) = Some p" ..
        with i False show ?thesis by (intro disjI2 exI [of _ j]) auto
      qed (use up p V in simp)
    qed
  next
    fix p assume "tl_of (set_pc i ?q ?s) \<le> p"
    then show "\<not> published (set_pc i ?q ?s) p" using late by simp
  qed (use rp_invD(1,2) [OF inv] in auto)
qed

lemma rp_step_tail: "rp_step s s' \<Longrightarrow> tl_of s \<le> tl_of s'"
  by (cases rule: rp_step.cases) auto

lemma rp_step_inv:
  assumes "rp_step s s'" "rp_inv s" "tl_of s' \<le> 2 ^ 63"
  shows "rp_inv s'"
  using assms(1)
proof cases
  case (Oldest_ready i v t h)
  have "h < tl_of s" if "h = hd_of s"
    using rp_invD(6) [OF assms(2), of h] Oldest_ready that rp_invD(1) [OF assms(2)]
    by (cases "h < tl_of s") (auto simp: published_def)
  then have "pc_ok s (AtEvict v h)"
    using Oldest_ready rp_invD(3) [OF assms(2), of i] by (auto simp: published_def)
  with Oldest_ready show ?thesis by (simp add: inv_move [OF assms(2)] del: pc_ok.simps)
next
  case (Load_head i v t)
  with rp_invD(3) [OF assms(2), of i] show ?thesis by (simp add: inv_move [OF assms(2)])
next
  case (Reserve_ok i v t h)
  then show ?thesis using inv_reserve [OF assms(2)] assms(3) by simp
next
  case (Evict_ok i v h)
  then show ?thesis using inv_evict [OF assms(2)] by simp
qed (simp_all add: inv_move [OF assms(2)] inv_write [OF assms(2)] inv_publish [OF assms(2), simplified])

lemma rp_init_inv: "rp_inv rp_init"
  by (auto simp: rp_inv_def rp_init_def ring_new_def published_def slot_mod)
    (metis Suc_n_not_le_n mod_less_eq_dividend)

lemma rp_reach_inv: "rp_reach s \<Longrightarrow> tl_of s \<le> 2 ^ 63 \<Longrightarrow> rp_inv s"
proof (induction rule: rp_reach.induct)
  case (Next s s')
  then show ?case using rp_step_tail [of s s'] rp_step_inv [of s s'] by auto
qed (rule rp_init_inv)

section \<open>Properties\<close>

text \<open>
  C1: two producers never write the same cell. In every reachable state of every
  interleaving, below \<open>2\<^sup>6\<^sup>3\<close> samples, threads that own ring positions own different slots, an
  owned slot is not yet visible as published, and head and tail stay within one capacity.
\<close>

theorem ring_writers_exclusive:
  assumes "rp_reach s" "tl_of s \<le> 2 ^ 63"
    and "ticket (rp_pc s i) = Some p" "ticket (rp_pc s j) = Some q" "i \<noteq> j"
  shows "slot p \<noteq> slot q \<and> cl_seq (cell_at s p) \<noteq> p + 1
       \<and> hd_of s \<le> p \<and> p < tl_of s \<and> tl_of s \<le> hd_of s + kRingCapacity"
proof -
  have inv: "rp_inv s" using assms(1,2) by (rule rp_reach_inv)
  note p = pc_ok_ticket [OF rp_invD(3) [OF inv] assms(3)]
    and q = pc_ok_ticket [OF rp_invD(3) [OF inv] assms(4)]
  have "p \<noteq> q" using rp_invD(4) [OF inv assms(3)] assms(4,5) by auto
  with p q window_slot [OF inv, of p q] rp_invD(2) [OF inv] show ?thesis
    by (auto simp: published_def)
qed

lemma reach_start: "rp_reach s \<Longrightarrow> rp_pc s i = Idle \<Longrightarrow> rp_reach (set_pc i (AtHead v (tl_of s)) s)"
  by (rule rp_reach.Next [OF _ rp_step.Start])

text \<open>A thread that meets no obstacle reserves the tail position.\<close>

lemma reach_reserve:
  assumes "rp_reach s" "rp_pc s i = Idle" "hd_of s = 0" "tl_of s < kRingCapacity"
  shows "rp_reach (set_pc i (AtWrite v (tl_of s))
     (s\<lparr>rp_ring := (rp_ring s)\<lparr>rg_tail := tl_of s + 1\<rparr>, rp_log := (rp_log s)(tl_of s := v)\<rparr>))"
proof -
  let ?a = "set_pc i (AtHead v (tl_of s)) s" and ?b = "set_pc i (AtCheck v (tl_of s) 0) s"
  have "rp_reach ?a" using assms(1,2) by (rule reach_start)
  moreover have "rp_step ?a ?b"
    using rp_step.Load_head [of ?a i v "tl_of s"] assms(3) by (simp add: set_pc_def)
  ultimately have "rp_reach ?b" by (rule rp_reach.Next)
  moreover have "u64_sub (tl_of s) 0 < kRingCapacity"
    using assms(4) by (simp add: u64_sub_le kRingCapacity_def)
  then have "rp_step ?b (set_pc i (AtWrite v (tl_of s))
     (s\<lparr>rp_ring := (rp_ring s)\<lparr>rg_tail := tl_of s + 1\<rparr>, rp_log := (rp_log s)(tl_of s := v)\<rparr>))"
    using rp_step.Reserve_ok [of ?b i v "tl_of s" 0] by (simp add: set_pc_def)
  ultimately show ?thesis by (rule rp_reach.Next)
qed

theorem ring_writers_exclusive_witness:
  "\<exists>s. rp_reach s \<and> ticket (rp_pc s 0) = Some 0 \<and> ticket (rp_pc s 1) = Some 1 \<and> slot 0 \<noteq> slot 1"
proof -
  let ?s = "\<lambda>i v s. set_pc i (AtWrite v (tl_of s))
     (s\<lparr>rp_ring := (rp_ring s)\<lparr>rg_tail := tl_of s + 1\<rparr>, rp_log := (rp_log s)(tl_of s := v)\<rparr>)"
  let ?a = "?s 0 7 rp_init" and ?b = "?s 1 8 (?s 0 7 rp_init)"
  have a: "rp_reach ?a"
    by (rule reach_reserve [OF rp_reach.Init]) (simp_all add: rp_init_def ring_new_def)
  have b: "rp_reach ?b"
    by (rule reach_reserve [OF a]) (simp_all add: rp_init_def ring_new_def kRingCapacity_def)
  have t: "ticket (rp_pc ?b 0) = Some 0" "ticket (rp_pc ?b 1) = Some 1" "tl_of ?b \<le> 2 ^ 63"
    by (simp_all add: rp_init_def ring_new_def)
  from ring_writers_exclusive [OF b t(3) t(1,2)] b t show ?thesis by (intro exI [of _ ?b]) simp
qed

text \<open>
  C2: when no producer is inside the push, the concurrent ring is exactly a sequential one: it
  is well-formed and a snapshot reads, in order, the samples that reserved the last positions,
  whatever the interleaving was.
\<close>

theorem ring_quiescent_snapshot:
  assumes "rp_reach s" "tl_of s \<le> 2 ^ 63" "\<forall>i. ticket (rp_pc s i) = None"
  shows "ring_wf (rp_ring s)
       \<and> collect_ring_samples (rp_ring s) = keep_last kMaxSnapshotSamples (map (rp_log s) [hd_of s ..< tl_of s])"
proof -
  have inv: "rp_inv s" using assms(1,2) by (rule rp_reach_inv)
  have pub: "published s p" "cl_value (cell_at s p) = rp_log s p" if "hd_of s \<le> p" "p < tl_of s" for p
    using rp_invD(5) [OF inv that] assms(3) by auto
  then have w: "ring_wf (rp_ring s)"
    using rp_invD(1,2) [OF inv] by (auto simp: ring_wf_def published_def)
  have "ring_samples (rp_ring s) = map (rp_log s) [hd_of s ..< tl_of s]"
    using pub by (auto simp: ring_samples_def)
  with w collect_refines [OF w] show ?thesis by simp
qed

theorem ring_quiescent_snapshot_witness:
  "\<exists>s. rp_reach s \<and> collect_ring_samples (rp_ring s) = [7]"
proof -
  let ?a = "set_pc 0 (AtWrite 7 0)
     (rp_init\<lparr>rp_ring := (rp_ring rp_init)\<lparr>rg_tail := 1\<rparr>, rp_log := (rp_log rp_init)(0 := 7)\<rparr>)"
  let ?b = "set_pc 0 (AtPublish 7 0) (set_cell (slot 0) (\<lambda>c. c\<lparr>cl_value := 7\<rparr>) ?a)"
  let ?c = "set_pc 0 Idle (set_cell (slot 0) (\<lambda>c. c\<lparr>cl_seq := 0 + 1\<rparr>) ?b)"
  have "rp_reach ?a"
    using reach_reserve [OF rp_reach.Init, of 0 7] by (simp add: rp_init_def ring_new_def)
  moreover have "rp_step ?a ?b" by (rule rp_step.Write_value) simp
  moreover have "rp_step ?b ?c" by (rule rp_step.Store_seq [where v = 7]) simp
  ultimately have r: "rp_reach ?c" by (blast intro: rp_reach.Next)
  have t: "tl_of ?c \<le> 2 ^ 63" "\<forall>i. ticket (rp_pc ?c i) = None" by (simp_all add: rp_init_def)
  have "map (rp_log ?c) [hd_of ?c ..< tl_of ?c] = [7]" by (simp add: rp_init_def ring_new_def)
  with ring_quiescent_snapshot [OF r t] have "collect_ring_samples (rp_ring ?c) = [7]"
    by (simp only: keep_last_def) (simp add: kMaxSnapshotSamples_def)
  with r show ?thesis by blast
qed

end
