(* ===== verification/Sharded_Collector.thy ===== *)
theory Sharded_Collector
  imports Ring_Collector
begin

text \<open>
  \<open>ShardedMetricsCollector\<close> of \<open>core/metrics/sharded_collector.cpp\<close>: counters spread over
  shards that threads are assigned to round-robin, a mutex-protected ring of the last samples,
  and the windowed request rate. It meets the same contract as \<open>MetricsCollector\<close>.
\<close>

section \<open>State and operations\<close>

record Shard =
  sd_requests :: u64
  sd_successful :: u64
  sd_failed :: u64
  sd_bytes_sent :: u64
  sd_bytes_received :: u64
  sd_latency_sum_us :: u64
  sd_min_latency_us :: int
  sd_max_latency_us :: int

record ShardedMetrics =
  sm_total_requests :: u64
  sm_successful_requests :: u64
  sm_failed_requests :: u64
  sm_total_bytes_sent :: u64
  sm_total_bytes_received :: u64
  sm_mean_latency_us :: rat
  sm_min_latency_us :: u64
  sm_max_latency_us :: u64
  sm_p95_latency_us :: u64
  sm_p99_latency_us :: u64

text \<open>
  The two statics that all collectors of a process share: the counter \<open>s_next_shard\<close> and the \<open>thread_local\<close> index of every
  thread (\<open>None\<close> for \<open>SIZE_MAX\<close>). A collector has them as it finds them.
\<close>

record ShardStatics =
  ss_next_shard :: u64
  ss_t_shard_index :: "nat \<Rightarrow> nat option"

definition ShardStatics_start :: ShardStatics where
  "ShardStatics_start = \<lparr>ss_next_shard = 0, ss_t_shard_index = (\<lambda>_. None)\<rparr>"

record ShardedMetricsCollector =
  sc_shards :: "Shard list"
  sc_latency_samples :: "u64 list"
  sc_samples_head :: nat
  sc_samples_count :: nat
  sc_rps_count :: u64
  sc_rps_window_start :: time_ns
  sc_next_shard :: u64
  sc_t_shard_index :: "nat \<Rightarrow> nat option"

definition kMaxShards :: nat where "kMaxShards = 128"
definition kMinShards :: nat where "kMinShards = 4"
definition kMaxLatencySamples :: nat where "kMaxLatencySamples = 8192"

definition shard_new :: Shard where
  "shard_new = \<lparr>sd_requests = 0, sd_successful = 0, sd_failed = 0, sd_bytes_sent = 0,
     sd_bytes_received = 0, sd_latency_sum_us = 0, sd_min_latency_us = us_max, sd_max_latency_us = us_min\<rparr>"

definition num_shards :: "nat \<Rightarrow> nat" where
  "num_shards hardware_concurrency = min kMaxShards (max kMinShards (hardware_concurrency * 2))"

definition ShardedMetricsCollector_new :: "ShardStatics \<Rightarrow> nat \<Rightarrow> time_ns \<Rightarrow> ShardedMetricsCollector" where
  "ShardedMetricsCollector_new st hardware_concurrency now =
     \<lparr>sc_shards = replicate (num_shards hardware_concurrency) shard_new,
      sc_latency_samples = replicate kMaxLatencySamples 0, sc_samples_head = 0, sc_samples_count = 0,
      sc_rps_count = 0, sc_rps_window_start = now, sc_next_shard = ss_next_shard st, sc_t_shard_index = ss_t_shard_index st\<rparr>"

definition get_shard_index :: "nat \<Rightarrow> ShardedMetricsCollector \<Rightarrow> nat \<times> ShardedMetricsCollector" where
  "get_shard_index tid s =
     (case sc_t_shard_index s tid of
        Some i \<Rightarrow> (i, s)
      | None \<Rightarrow> let i = unat (sc_next_shard s) mod length (sc_shards s)
                in (i, s\<lparr>sc_next_shard := sc_next_shard s + 1,
                         sc_t_shard_index := (sc_t_shard_index s)(tid \<mapsto> i)\<rparr>))"

text \<open>The saturating latency sum; a latency of zero or less is left out.\<close>

definition add_latency :: "int \<Rightarrow> u64 \<Rightarrow> u64" where
  "add_latency lat_count cur_sum =
     (if lat_count \<le> 0 then cur_sum
      else if cur_sum > - 1 - word_of_int lat_count then - 1
      else cur_sum + word_of_int lat_count)"

definition shard_record :: "u16 \<Rightarrow> int \<Rightarrow> u64 \<Rightarrow> u64 \<Rightarrow> Shard \<Rightarrow> Shard" where
  "shard_record status_code latency sent received d =
     (let lat_val = (if latency < 0 then 0 else latency)
      in d\<lparr>sd_requests := sd_requests d + 1,
           sd_bytes_sent := sd_bytes_sent d + sent,
           sd_bytes_received := sd_bytes_received d + received,
           sd_latency_sum_us := add_latency latency (sd_latency_sum_us d),
           sd_successful := sd_successful d + (if status_code \<ge> 200 \<and> status_code < 400 then 1 else 0),
           sd_failed := sd_failed d + (if status_code \<ge> 200 \<and> status_code < 400 then 0 else 1),
           sd_min_latency_us := (if lat_val < sd_min_latency_us d then lat_val else sd_min_latency_us d),
           sd_max_latency_us := (if lat_val > sd_max_latency_us d then lat_val else sd_max_latency_us d)\<rparr>)"

definition push_sample :: "int \<Rightarrow> ShardedMetricsCollector \<Rightarrow> ShardedMetricsCollector" where
  "push_sample lat_val s =
     s\<lparr>sc_latency_samples := (sc_latency_samples s)[sc_samples_head s := word_of_int lat_val],
       sc_samples_head := (sc_samples_head s + 1) mod kMaxLatencySamples,
       sc_samples_count := (if sc_samples_count s < kMaxLatencySamples
                            then sc_samples_count s + 1 else sc_samples_count s)\<rparr>"

definition sh_record_request :: "nat \<Rightarrow> u16 \<Rightarrow> int \<Rightarrow> u64 \<Rightarrow> u64
    \<Rightarrow> ShardedMetricsCollector \<Rightarrow> ShardedMetricsCollector" where
  "sh_record_request tid status_code latency sent received s =
     (let (idx, s) = get_shard_index tid s;
          s = s\<lparr>sc_shards := (sc_shards s)[idx := shard_record status_code latency sent received (sc_shards s ! idx)]\<rparr>;
          s = push_sample (if latency < 0 then 0 else latency) s
      in s\<lparr>sc_rps_count := sc_rps_count s + 1\<rparr>)"

text \<open>The samples in the order they were recorded, as \<open>snapshot\<close> copies them out.\<close>

definition ordered_samples :: "ShardedMetricsCollector \<Rightarrow> u64 list" where
  "ordered_samples s =
     (if sc_samples_count s = kMaxLatencySamples
      then drop (sc_samples_head s) (sc_latency_samples s) @ take (sc_samples_head s) (sc_latency_samples s)
      else take (sc_samples_count s) (sc_latency_samples s))"

definition rank_idx :: "nat \<Rightarrow> nat \<Rightarrow> nat" where
  "rank_idx q n = (n * q + 99) div 100 - 1"

definition global_min :: "ShardedMetricsCollector \<Rightarrow> int" where
  "global_min s = fold (\<lambda>d g. if sd_min_latency_us d < g then sd_min_latency_us d else g) (sc_shards s) us_max"

definition global_max :: "ShardedMetricsCollector \<Rightarrow> int" where
  "global_max s = fold (\<lambda>d g. if sd_max_latency_us d > g then sd_max_latency_us d else g) (sc_shards s) us_min"

definition sh_snapshot :: "ShardedMetricsCollector \<Rightarrow> ShardedMetrics" where
  "sh_snapshot s =
     (let total = sum_list (map sd_requests (sc_shards s));
          sum = sum_list (map sd_latency_sum_us (sc_shards s));
          sorted = sort (ordered_samples s); n = length sorted
      in \<lparr>sm_total_requests = total,
          sm_successful_requests = sum_list (map sd_successful (sc_shards s)),
          sm_failed_requests = sum_list (map sd_failed (sc_shards s)),
          sm_total_bytes_sent = sum_list (map sd_bytes_sent (sc_shards s)),
          sm_total_bytes_received = sum_list (map sd_bytes_received (sc_shards s)),
          sm_mean_latency_us = (if total > 0 then fdiv (u64_double sum) (u64_double total) else 0),
          sm_min_latency_us = (if global_min s = us_max then 0 else word_of_int (global_min s)),
          sm_max_latency_us = (if global_max s = us_min then 0 else word_of_int (global_max s)),
          sm_p95_latency_us = (if total > 0 \<and> n > 0 then sorted ! rank_idx 95 n else 0),
          sm_p99_latency_us = (if total > 0 \<and> n > 0 then sorted ! rank_idx 99 n else 0)\<rparr>)"

definition sh_requests_per_second :: "time_ns \<Rightarrow> ShardedMetricsCollector \<Rightarrow> rat \<times> ShardedMetricsCollector" where
  "sh_requests_per_second now s =
     (let elapsed = fdiv (rnd (of_int (now - sc_rps_window_start s))) 1000000000
      in if elapsed \<le> 0 then (0, s)
         else if elapsed \<ge> 1 then
           (fdiv (u64_double (sc_rps_count s)) elapsed, s\<lparr>sc_rps_count := 0, sc_rps_window_start := now\<rparr>)
         else (fdiv (u64_double (sc_rps_count s)) elapsed, s))"

definition sh_error_rate :: "ShardedMetricsCollector \<Rightarrow> rat" where
  "sh_error_rate s =
     (let total = sum_list (map sd_requests (sc_shards s)); failed = sum_list (map sd_failed (sc_shards s))
      in if total = 0 then 0 else fmul (fdiv (u64_double failed) (u64_double total)) 100)"

definition sh_reset :: "time_ns \<Rightarrow> ShardedMetricsCollector \<Rightarrow> ShardedMetricsCollector" where
  "sh_reset now s =
     s\<lparr>sc_shards := map (\<lambda>d. shard_new) (sc_shards s), sc_samples_head := 0, sc_samples_count := 0,
       sc_rps_count := 0, sc_rps_window_start := now\<rparr>"

section \<open>The counters meet the contract\<close>

definition sh_view :: "ShardedMetricsCollector \<Rightarrow> Counters" where
  "sh_view s = \<lparr>ct_total = sum_list (map sd_requests (sc_shards s)),
     ct_successful = sum_list (map sd_successful (sc_shards s)),
     ct_failed = sum_list (map sd_failed (sc_shards s)),
     ct_sent = sum_list (map sd_bytes_sent (sc_shards s)),
     ct_received = sum_list (map sd_bytes_received (sc_shards s))\<rparr>"

text \<open>
  There is a shard, every assigned index is a shard, the sample vector has its full length,
  and until it is full the head is the number of samples.
\<close>

definition sh_inv :: "ShardedMetricsCollector \<Rightarrow> bool" where
  "sh_inv s \<longleftrightarrow> sc_shards s \<noteq> []
     \<and> (\<forall>tid i. sc_t_shard_index s tid = Some i \<longrightarrow> i < length (sc_shards s))
     \<and> length (sc_latency_samples s) = kMaxLatencySamples
     \<and> sc_samples_head s < kMaxLatencySamples \<and> sc_samples_count s \<le> kMaxLatencySamples
     \<and> (sc_samples_count s < kMaxLatencySamples \<longrightarrow> sc_samples_head s = sc_samples_count s)"

lemma kMaxLatencySamples_pos [simp]: "0 < kMaxLatencySamples" "kMaxLatencySamples \<noteq> 0" "0 \<noteq> kMaxLatencySamples"
  by (simp_all add: kMaxLatencySamples_def)

lemma get_shard_index_ok:
  assumes "sh_inv s" "get_shard_index tid s = (i, s')"
  shows "i < length (sc_shards s)" "sh_inv s'" "sc_shards s' = sc_shards s"
    and "sc_latency_samples s' = sc_latency_samples s" "sc_samples_head s' = sc_samples_head s"
    and "sc_samples_count s' = sc_samples_count s"
  using assms by (auto simp: get_shard_index_def sh_inv_def Let_def split: option.splits if_splits)

lemma push_sample_ok: "sh_inv s \<Longrightarrow> sh_inv (push_sample v s)" "sc_shards (push_sample v s) = sc_shards s"
  by (auto simp: push_sample_def sh_inv_def)

lemma shard_record_counts:
  "sd_requests (shard_record c l bs br d) = sd_requests d + 1"
  "sd_successful (shard_record c l bs br d) = sd_successful d + of_bool (is_success c)"
  "sd_failed (shard_record c l bs br d) = sd_failed d + of_bool (\<not> is_success c)"
  "sd_bytes_sent (shard_record c l bs br d) = sd_bytes_sent d + bs"
  "sd_bytes_received (shard_record c l bs br d) = sd_bytes_received d + br"
  by (simp_all add: shard_record_def is_success_def Let_def of_bool_def)

lemma sh_record_ok:
  assumes "sh_inv s"
  shows "sh_inv (sh_record_request tid c l bs br s)"
    and "sh_view (sh_record_request tid c l bs br s)
       = count_obs \<lparr>ob_status = c, ob_latency = l, ob_sent = bs, ob_received = br\<rparr> (sh_view s)"
proof -
  obtain i s1 where g: "get_shard_index tid s = (i, s1)" by (cases "get_shard_index tid s")
  note k = get_shard_index_ok [OF assms g]
  let ?d = "shard_record c l bs br (sc_shards s ! i)"
  let ?s2 = "s1\<lparr>sc_shards := (sc_shards s)[i := ?d]\<rparr>"
  have r: "sh_record_request tid c l bs br s
      = (push_sample (if l < 0 then 0 else l) ?s2)\<lparr>sc_rps_count := sc_rps_count s1 + 1\<rparr>"
    by (simp add: sh_record_request_def g k(3) push_sample_def)
  have "sh_inv ?s2" using k assms by (auto simp: sh_inv_def)
  then have "sh_inv (push_sample (if l < 0 then 0 else l) ?s2)" by (rule push_sample_ok)
  then show "sh_inv (sh_record_request tid c l bs br s)" unfolding r by (simp add: sh_inv_def)
  have "sc_shards (sh_record_request tid c l bs br s) = (sc_shards s)[i := ?d]"
    unfolding r by (simp add: push_sample_def)
  then show "sh_view (sh_record_request tid c l bs br s)
       = count_obs \<lparr>ob_status = c, ob_latency = l, ob_sent = bs, ob_received = br\<rparr> (sh_view s)"
    using k(1) by (simp add: sh_view_def count_obs_def shard_record_counts sum_list_update_add)
qed

definition sh_record :: "nat \<times> Obs \<Rightarrow> ShardedMetricsCollector \<Rightarrow> ShardedMetricsCollector option" where
  "sh_record q s = Some (sh_record_request (fst q) (ob_status (snd q)) (ob_latency (snd q))
     (ob_sent (snd q)) (ob_received (snd q)) s)"

interpretation sh: request_recorder "\<lambda>_. sh_inv" sh_record sh_view snd
  by unfold_locales (simp add: sh_record_def sh_record_ok(1) sh_record_ok(2) count_obs_def)

section \<open>The sample ring\<close>

lemma push_sample_ordered:
  assumes "sh_inv s"
  shows "ordered_samples (push_sample v s) = keep_last kMaxLatencySamples (ordered_samples s @ [word_of_int v])"
proof -
  let ?N = kMaxLatencySamples and ?x = "sc_latency_samples s" and ?h = "sc_samples_head s"
  have s: "length ?x = ?N" "?h < ?N" using assms by (auto simp: sh_inv_def)
  show ?thesis
  proof (cases "sc_samples_count s = ?N")
    case True
    have "keep_last ?N (ordered_samples s @ [word_of_int v]) = drop (Suc ?h) ?x @ take ?h ?x @ [word_of_int v]"
      using s True by (simp add: ordered_samples_def keep_last_def drop_Suc tl_drop Suc_le_eq)
    moreover have "take (Suc ?h) (?x[?h := word_of_int v]) = take ?h ?x @ [word_of_int v]"
      using s by (simp add: take_Suc_conv_app_nth)
    moreover have "drop (Suc ?h) (?x[?h := word_of_int v]) = drop (Suc ?h) ?x" by simp
    ultimately show ?thesis
      using s True by (cases "Suc ?h = ?N") (auto simp: ordered_samples_def push_sample_def)
  next
    case False
    then have c: "?h = sc_samples_count s" using assms by (simp add: sh_inv_def)
    have t: "take (Suc ?h) (?x[?h := word_of_int v]) = take ?h ?x @ [word_of_int v]"
      using s by (simp add: take_Suc_conv_app_nth)
    have k: "keep_last ?N (ordered_samples s @ [word_of_int v]) = take ?h ?x @ [word_of_int v]"
      using s False c by (simp add: ordered_samples_def keep_last_def)
    show ?thesis
    proof (cases "Suc ?h = ?N")
      case True
      then have "take (Suc ?h) (?x[?h := word_of_int v]) = ?x[?h := word_of_int v]" using s by simp
      with True s c t k show ?thesis by (simp add: ordered_samples_def push_sample_def)
    next
      case False
      with s c t k show ?thesis by (simp add: ordered_samples_def push_sample_def)
    qed
  qed
qed

section \<open>Minimum and maximum\<close>

definition clamp0 :: "int \<Rightarrow> int" where
  "clamp0 l = (if l < 0 then 0 else l)"

lemma global_min_fold: "global_min s = fold (\<lambda>d. min (sd_min_latency_us d)) (sc_shards s) us_max"
  unfolding global_min_def by (intro fold_cong) (auto simp: min_def)

lemma global_max_fold: "global_max s = fold (\<lambda>d. max (sd_max_latency_us d)) (sc_shards s) us_min"
  unfolding global_max_def by (intro fold_cong) (auto simp: max_def)

lemma ordered_samples_rps: "ordered_samples (s\<lparr>sc_rps_count := n\<rparr>) = ordered_samples s"
  by (simp add: ordered_samples_def)

lemma sh_record_shape:
  assumes "sh_inv s"
  obtains i where "i < length (sc_shards s)"
    "sc_shards (sh_record_request tid c l bs br s) = (sc_shards s)[i := shard_record c l bs br (sc_shards s ! i)]"
    "ordered_samples (sh_record_request tid c l bs br s)
       = keep_last kMaxLatencySamples (ordered_samples s @ [word_of_int (clamp0 l)])"
proof -
  obtain i s1 where g: "get_shard_index tid s = (i, s1)" by (cases "get_shard_index tid s")
  note k = get_shard_index_ok [OF assms g]
  let ?s2 = "s1\<lparr>sc_shards := (sc_shards s)[i := shard_record c l bs br (sc_shards s ! i)]\<rparr>"
  have r: "sh_record_request tid c l bs br s
      = (push_sample (clamp0 l) ?s2)\<lparr>sc_rps_count := sc_rps_count s1 + 1\<rparr>"
    by (simp add: sh_record_request_def g k(3) push_sample_def clamp0_def)
  have "sh_inv ?s2" using k assms by (auto simp: sh_inv_def)
  from push_sample_ordered [OF this, of "clamp0 l"]
  have "ordered_samples (sh_record_request tid c l bs br s)
       = keep_last kMaxLatencySamples (ordered_samples ?s2 @ [word_of_int (clamp0 l)])"
    unfolding r by (simp only: ordered_samples_rps)
  also have "ordered_samples ?s2 = ordered_samples s" using k by (simp add: ordered_samples_def)
  finally have "ordered_samples (sh_record_request tid c l bs br s)
       = keep_last kMaxLatencySamples (ordered_samples s @ [word_of_int (clamp0 l)])" .
  moreover have "sc_shards (sh_record_request tid c l bs br s)
      = (sc_shards s)[i := shard_record c l bs br (sc_shards s ! i)]"
    unfolding r by (simp add: push_sample_def)
  ultimately show ?thesis using that k(1) by blast
qed

lemma sh_record_extremes:
  assumes "sh_inv s"
  shows "global_min (sh_record_request tid c l bs br s) = min (clamp0 l) (global_min s)"
    and "global_max (sh_record_request tid c l bs br s) = max (clamp0 l) (global_max s)"
proof -
  obtain i where i: "i < length (sc_shards s)"
    "sc_shards (sh_record_request tid c l bs br s) = (sc_shards s)[i := shard_record c l bs br (sc_shards s ! i)]"
    by (rule sh_record_shape [OF assms])
  have m: "sd_min_latency_us (shard_record c l bs br d) = min (clamp0 l) (sd_min_latency_us d)"
    "sd_max_latency_us (shard_record c l bs br d) = max (clamp0 l) (sd_max_latency_us d)" for d
    by (auto simp: shard_record_def clamp0_def Let_def)
  show "global_min (sh_record_request tid c l bs br s) = min (clamp0 l) (global_min s)"
    unfolding global_min_fold i(2) using i(1) m(1)
    by (intro fold_update_op) (auto simp: min.assoc min.commute)
  show "global_max (sh_record_request tid c l bs br s) = max (clamp0 l) (global_max s)"
    unfolding global_max_fold i(2) using i(1) m(2)
    by (intro fold_update_op) (auto simp: max.assoc max.commute)
qed

text \<open>What a sequence of recordings leaves in the sample ring and in the extremes.\<close>

lemma sh_record_all_history:
  assumes "sh_inv s" "record_all sh_record qs s = Some s'"
    and "ordered_samples s = keep_last kMaxLatencySamples hist"
  shows "ordered_samples s' = keep_last kMaxLatencySamples
           (hist @ map (\<lambda>q. word_of_int (clamp0 (ob_latency (snd q)))) qs)
       \<and> global_min s' = fold min (map (clamp0 \<circ> ob_latency \<circ> snd) qs) (global_min s)
       \<and> global_max s' = fold max (map (clamp0 \<circ> ob_latency \<circ> snd) qs) (global_max s)"
  using assms
proof (induction qs arbitrary: s hist)
  case (Cons q qs)
  let ?s = "sh_record_request (fst q) (ob_status (snd q)) (ob_latency (snd q)) (ob_sent (snd q)) (ob_received (snd q)) s"
  have "ordered_samples ?s = keep_last kMaxLatencySamples (ordered_samples s @ [word_of_int (clamp0 (ob_latency (snd q)))])"
    by (rule sh_record_shape [OF Cons.prems(1)])
  then have "ordered_samples ?s = keep_last kMaxLatencySamples (hist @ [word_of_int (clamp0 (ob_latency (snd q)))])"
    using Cons.prems(3) by (simp add: keep_last_snoc)
  with Cons.IH [of ?s] Cons.prems sh_record_ok(1) sh_record_extremes show ?case
    by (simp add: sh_record_def)
qed simp

text \<open>Threads that recorded before have an index below the number of shards, which depends on the machine only.\<close>

definition statics_ok :: "ShardStatics \<Rightarrow> nat \<Rightarrow> bool" where
  "statics_ok st hw \<longleftrightarrow> (\<forall>i\<in>ran (ss_t_shard_index st). i < num_shards hw)"

lemma sh_new_inv: "statics_ok st hw \<Longrightarrow> sh_inv (ShardedMetricsCollector_new st hw now)"
  by (auto simp: sh_inv_def ShardedMetricsCollector_new_def num_shards_def kMaxShards_def kMinShards_def statics_ok_def ran_def)

lemma statics_ok_start: "statics_ok ShardStatics_start hw"
  by (simp add: statics_ok_def ShardStatics_start_def)

text \<open>What a collector leaves behind is fine for the next one.\<close>

lemma statics_ok_next:
  assumes "sh_inv s" "length (sc_shards s) = num_shards hw"
  shows "statics_ok \<lparr>ss_next_shard = sc_next_shard s, ss_t_shard_index = sc_t_shard_index s\<rparr> hw"
  using assms by (auto simp: statics_ok_def sh_inv_def ran_def)

lemma sh_new_view: "sh_view (ShardedMetricsCollector_new st hw now) = counters_zero"
  by (simp add: sh_view_def ShardedMetricsCollector_new_def shard_new_def counters_zero_def sum_list_replicate)

lemma sh_new_history:
  "ordered_samples (ShardedMetricsCollector_new st hw now) = keep_last kMaxLatencySamples []"
  "global_min (ShardedMetricsCollector_new st hw now) = us_max"
  "global_max (ShardedMetricsCollector_new st hw now) = us_min"
proof -
  have "fold (\<lambda>d. min (sd_min_latency_us d)) (replicate n shard_new) us_max = us_max" for n
    by (induction n) (auto simp: shard_new_def)
  moreover have "fold (\<lambda>d. max (sd_max_latency_us d)) (replicate n shard_new) us_min = us_min" for n
    by (induction n) (auto simp: shard_new_def)
  ultimately show "ordered_samples (ShardedMetricsCollector_new st hw now) = keep_last kMaxLatencySamples []"
    "global_min (ShardedMetricsCollector_new st hw now) = us_max"
    "global_max (ShardedMetricsCollector_new st hw now) = us_min"
    unfolding global_min_fold global_max_fold
    by (simp_all add: ordered_samples_def ShardedMetricsCollector_new_def keep_last_def)
qed

lemma fold_min_Min: "fold min xs (a::int) = Min (insert a (set xs))"
  using Min.set_eq_fold [of a xs] by simp

lemma fold_max_Max: "fold max xs (a::int) = Max (insert a (set xs))"
  using Max.set_eq_fold [of a xs] by simp

lemma Min_insert_top:
  assumes "finite A" "A \<noteq> {}" "\<forall>a\<in>A. a < (t::int)"
  shows "Min (insert t A) = Min A" "Min A < t"
proof -
  show "Min A < t" using Min_in [OF assms(1,2)] assms(3) by blast
  then show "Min (insert t A) = Min A" using Min_insert [OF assms(1,2), of t] by simp
qed

lemma Max_insert_bot:
  assumes "finite A" "A \<noteq> {}" "\<forall>a\<in>A. (t::int) < a"
  shows "Max (insert t A) = Max A" "t < Max A"
proof -
  show "t < Max A" using Max_in [OF assms(1,2)] assms(3) by blast
  then show "Max (insert t A) = Max A" using Max_insert [OF assms(1,2), of t] by simp
qed

lemma rank_idx_bounds:
  assumes "0 < n" "0 < q" "q \<le> 100"
  shows "rank_idx q n < n" "n * q \<le> 100 * (rank_idx q n + 1)" "100 * rank_idx q n < n * q"
proof -
  define m where "m = n * q"
  have m: "0 < m" "m \<le> 100 * n" using assms by (auto simp: m_def)
  define k where "k = (m + 99) div 100"
  have k: "100 * k \<le> m + 99" "m + 99 < 100 * k + 100"
    unfolding k_def using div_mult_mod_eq [of "m + 99" 100] mod_less_divisor [of 100 "m + 99"] by linarith+
  then obtain j where j: "k = Suc j" using m by (cases k) auto
  have r: "rank_idx q n = j" using j by (simp add: rank_idx_def m_def k_def)
  show "rank_idx q n < n" "n * q \<le> 100 * (rank_idx q n + 1)" "100 * rank_idx q n < n * q"
    unfolding r m_def [symmetric] using k m j by auto
qed

section \<open>Properties\<close>

text \<open>
  C6: sharding loses nothing. However the requests are distributed over threads, however many
  hardware threads there are, and whatever threads were assigned by collectors before, a snapshot after recording them has the exact counters of
  the whole sequence, the extremes of the (non-negative) latencies, and a sample buffer that
  is the most recent \<open>kMaxLatencySamples\<close> of them in order.
\<close>

theorem sharded_records_all:
  assumes "statics_ok st hw" "qs \<noteq> []" "\<forall>q\<in>set qs. ob_latency (snd q) < 2 ^ 63 - 1"
  shows "\<exists>s. record_all sh_record qs (ShardedMetricsCollector_new st hw now) = Some s
     \<and> sm_total_requests (sh_snapshot s) = of_nat (length qs)
     \<and> sm_total_requests (sh_snapshot s) = sm_successful_requests (sh_snapshot s) + sm_failed_requests (sh_snapshot s)
     \<and> sm_failed_requests (sh_snapshot s)
         = of_nat (length (filter (\<lambda>ob. \<not> is_success (ob_status ob)) (map snd qs)))
     \<and> sm_total_bytes_sent (sh_snapshot s) = sum_list (map (ob_sent \<circ> snd) qs)
     \<and> sm_total_bytes_received (sh_snapshot s) = sum_list (map (ob_received \<circ> snd) qs)
     \<and> sm_min_latency_us (sh_snapshot s) = word_of_int (Min (set (map (clamp0 \<circ> ob_latency \<circ> snd) qs)))
     \<and> sm_max_latency_us (sh_snapshot s) = word_of_int (Max (set (map (clamp0 \<circ> ob_latency \<circ> snd) qs)))
     \<and> ordered_samples s
         = keep_last kMaxLatencySamples (map (\<lambda>q. word_of_int (clamp0 (ob_latency (snd q)))) qs)"
proof -
  let ?new = "ShardedMetricsCollector_new st hw now" and ?ls = "map (clamp0 \<circ> ob_latency \<circ> snd) qs"
  obtain s where r: "record_all sh_record qs ?new = Some s" and v: "sh_view s = counters_of (map snd qs)"
    using sh.record_all_fresh [of ?new qs] sh_new_inv [OF assms(1)] sh_new_view by auto
  note h = sh_record_all_history [OF sh_new_inv [OF assms(1)] r sh_new_history(1), unfolded sh_new_history]
  have "0 \<le> clamp0 l \<and> (l < 2 ^ 63 - 1 \<longrightarrow> clamp0 l < us_max)" for l
    by (simp add: clamp0_def us_max_def)
  then have ls: "set ?ls \<noteq> {}" "\<forall>l\<in>set ?ls. 0 \<le> l \<and> l < us_max" using assms by auto
  have lt: "\<forall>l\<in>set ?ls. l < us_max" "\<forall>l\<in>set ?ls. us_min < l" using ls(2) by (auto simp: us_min_def)
  have mn: "global_min s = Min (set ?ls)" "global_min s < us_max"
    using h Min_insert_top [OF List.finite_set ls(1) lt(1)] unfolding fold_min_Min by metis+
  have mx: "global_max s = Max (set ?ls)" "us_min < global_max s"
    using h Max_insert_bot [OF List.finite_set ls(1) lt(2)] unfolding fold_max_Max by metis+
  have c: "sm_total_requests (sh_snapshot s) = ct_total (sh_view s)"
    "sm_successful_requests (sh_snapshot s) = ct_successful (sh_view s)"
    "sm_failed_requests (sh_snapshot s) = ct_failed (sh_view s)"
    "sm_total_bytes_sent (sh_snapshot s) = ct_sent (sh_view s)"
    "sm_total_bytes_received (sh_snapshot s) = ct_received (sh_view s)"
    by (simp_all add: sh_snapshot_def sh_view_def Let_def)
  have "sm_min_latency_us (sh_snapshot s) = word_of_int (Min (set ?ls))"
    "sm_max_latency_us (sh_snapshot s) = word_of_int (Max (set ?ls))"
    using mn mx by (simp_all only: sh_snapshot_def Let_def ShardedMetrics.simps) simp_all
  moreover have "sm_total_requests (sh_snapshot s) = of_nat (length qs)"
    "sm_failed_requests (sh_snapshot s) = of_nat (length (filter (\<lambda>ob. \<not> is_success (ob_status ob)) (map snd qs)))"
    "sm_total_bytes_sent (sh_snapshot s) = sum_list (map (ob_sent \<circ> snd) qs)"
    "sm_total_bytes_received (sh_snapshot s) = sum_list (map (ob_received \<circ> snd) qs)"
    unfolding c v by (simp_all add: counters_of_def)
  moreover have "sm_total_requests (sh_snapshot s) = sm_successful_requests (sh_snapshot s) + sm_failed_requests (sh_snapshot s)"
    unfolding c v by (rule counters_of_split)
  moreover have "ordered_samples s = keep_last kMaxLatencySamples (map (\<lambda>q. word_of_int (clamp0 (ob_latency (snd q)))) qs)"
    using h by (simp only: append_Nil)
  ultimately show ?thesis using r by blast
qed

theorem sharded_records_all_witness:
  "\<exists>s. record_all sh_record [(7, \<lparr>ob_status = 200, ob_latency = 30, ob_sent = 5, ob_received = 7\<rparr>),
          (9, \<lparr>ob_status = 503, ob_latency = -4, ob_sent = 5, ob_received = 0\<rparr>)]
         (ShardedMetricsCollector_new ShardStatics_start 8 0) = Some s
     \<and> sm_total_requests (sh_snapshot s) = 2 \<and> sm_failed_requests (sh_snapshot s) = 1
     \<and> sm_min_latency_us (sh_snapshot s) = 0 \<and> sm_max_latency_us (sh_snapshot s) = 30"
  using sharded_records_all [OF statics_ok_start [of 8], of "[(7, \<lparr>ob_status = 200, ob_latency = 30, ob_sent = 5, ob_received = 7\<rparr>),
          (9, \<lparr>ob_status = 503, ob_latency = -4, ob_sent = 5, ob_received = 0\<rparr>)]" 0]
  by (auto simp: is_success_def clamp0_def)

text \<open>
  C7: the sharded collector reports nearest-rank percentiles: at least 95\% of the buffered
  samples are at most p95 and fewer than 95\% are below it, likewise p99, and p95 is at most p99.
\<close>

theorem sharded_nearest_rank:
  assumes "xs = ordered_samples s" "xs \<noteq> []" "sum_list (map sd_requests (sc_shards s)) > 0"
  shows "length xs * 95 \<le> 100 * length (filter (\<lambda>x. x \<le> sm_p95_latency_us (sh_snapshot s)) xs)
       \<and> 100 * length (filter (\<lambda>x. x < sm_p95_latency_us (sh_snapshot s)) xs) < length xs * 95
       \<and> length xs * 99 \<le> 100 * length (filter (\<lambda>x. x \<le> sm_p99_latency_us (sh_snapshot s)) xs)
       \<and> 100 * length (filter (\<lambda>x. x < sm_p99_latency_us (sh_snapshot s)) xs) < length xs * 99
       \<and> sm_p95_latency_us (sh_snapshot s) \<le> sm_p99_latency_us (sh_snapshot s)"
proof -
  let ?n = "length xs"
  have n: "0 < ?n" using assms(2) by simp
  then have ne: "sort xs \<noteq> []" by (metis length_greater_0_conv length_sort)
  have p: "sm_p95_latency_us (sh_snapshot s) = sort xs ! rank_idx 95 ?n"
    "sm_p99_latency_us (sh_snapshot s) = sort xs ! rank_idx 99 ?n"
    using assms n ne by (simp_all add: sh_snapshot_def Let_def)
  have rank: "?n * q \<le> 100 * length (filter (\<lambda>x. x \<le> sort xs ! rank_idx q ?n) xs)"
    "100 * length (filter (\<lambda>x. x < sort xs ! rank_idx q ?n) xs) < ?n * q"
    if "0 < q" "q \<le> 100" for q
    using rank_idx_bounds [OF n that] sorted_count_le [of "sort xs" "rank_idx q ?n"]
      sorted_count_less [of "sort xs" "rank_idx q ?n"] by (simp_all add: length_filter_sort)
  have "rank_idx 95 ?n \<le> rank_idx 99 ?n" by (simp add: rank_idx_def diff_le_mono div_le_mono)
  then have "sort xs ! rank_idx 95 ?n \<le> sort xs ! rank_idx 99 ?n"
    using rank_idx_bounds(1) [OF n, of 99] by (intro sorted_nth_le) auto
  with rank [of 95] rank [of 99] show ?thesis unfolding p by simp
qed

theorem sharded_nearest_rank_witness:
  "\<exists>s. ordered_samples s = [30] \<and> sum_list (map sd_requests (sc_shards s)) > 0
     \<and> sm_p95_latency_us (sh_snapshot s) \<le> sm_p99_latency_us (sh_snapshot s)"
proof -
  let ?q = "[(0, \<lparr>ob_status = 200, ob_latency = 30, ob_sent = 0, ob_received = 0\<rparr>)]"
  let ?new = "ShardedMetricsCollector_new ShardStatics_start 8 0"
  obtain s where r: "record_all sh_record ?q ?new = Some s" and v: "sh_view s = counters_of (map snd ?q)"
    using sh.record_all_fresh [of ?new ?q] sh_new_inv [OF statics_ok_start] sh_new_view by auto
  have o: "ordered_samples s = [30]"
    using sh_record_all_history [OF sh_new_inv [OF statics_ok_start] r sh_new_history(1)]
    by (simp add: clamp0_def keep_last_def kMaxLatencySamples_def)
  have "sum_list (map sd_requests (sc_shards s)) = ct_total (sh_view s)" by (simp add: sh_view_def)
  then have t: "sum_list (map sd_requests (sc_shards s)) > 0" unfolding v by (simp add: counters_of_def)
  from sharded_nearest_rank [OF o [symmetric] _ t] o t show ?thesis by (intro exI [of _ s]) simp
qed

text \<open>
  The per-shard latency sum saturates instead of wrapping: after adding a latency it is the
  true sum, or \<open>UINT64_MAX\<close> when the true sum does not fit; latencies of zero or less are left out.
\<close>

theorem latency_sum_saturates:
  assumes "l < 2 ^ 63"
  shows "unat (add_latency l c) = min (unat c + nat l) (2 ^ 64 - 1)"
proof (cases "l \<le> 0")
  case True
  have "unat c \<le> 2 ^ 64 - 1" using unsigned_less [of c, where 'a = nat] by simp
  with True show ?thesis by (simp add: add_latency_def)
next
  case False
  then have l: "unat (word_of_int l :: u64) = nat l"
    using assms by (simp add: unsigned_of_int take_bit_int_eq_self)
  have m: "unat (- 1 :: u64) = 2 ^ 64 - 1"
    by (simp add: unsigned_minus_1_eq_mask mask_eq_exp_minus_1)
  have top: "unat (- 1 - word_of_int l :: u64) = 2 ^ 64 - 1 - nat l"
    using l m assms by (subst unat_sub) (auto simp: word_le_nat_alt)
  show ?thesis
  proof (cases "c > - 1 - word_of_int l")
    case True
    then have "2 ^ 64 - 1 - nat l < unat c" unfolding word_less_nat_alt top .
    with False True m show ?thesis by (simp add: add_latency_def)
  next
    case ok: False
    then have "unat c \<le> 2 ^ 64 - 1 - nat l" unfolding word_less_nat_alt top by simp
    moreover have "nat l \<le> 2 ^ 64 - 1" using assms by simp
    ultimately have "unat c + nat l \<le> 2 ^ 64 - 1" by linarith
    with ok False l show ?thesis by (simp add: add_latency_def unat_add_no_wrap)
  qed
qed

theorem latency_sum_saturates_witness:
  "unat (add_latency 10 (- 3)) = 2 ^ 64 - 1"
  using latency_sum_saturates [of 10 "- 3"] by simp

end
