(* ===== verification/Volley_String.thy ===== *)
theory Volley_String
  imports Volley_Prelude "HOL-Library.Sublist"
begin

text \<open>
  The operations of \<open>std::string\<close> and \<open><cctype>\<close> the program uses, on character lists:
  searching, prefixes, character classes of the "C" locale, and decimal and hexadecimal printing.
\<close>

section \<open>Searching\<close>

text \<open>\<open>s.find(p)\<close> and \<open>s.find(p, pos)\<close>; \<open>None\<close> is \<open>npos\<close>.\<close>

fun find_sub :: "string \<Rightarrow> string \<Rightarrow> nat option" where
  "find_sub p [] = (if p = [] then Some 0 else None)"
| "find_sub p (c # s) = (if prefix p (c # s) then Some 0 else map_option Suc (find_sub p s))"

definition find_from :: "string \<Rightarrow> string \<Rightarrow> nat \<Rightarrow> nat option" where
  "find_from p s pos = (if pos \<le> length s then map_option (\<lambda>i. pos + i) (find_sub p (drop pos s)) else None)"

definition find_char :: "char \<Rightarrow> string \<Rightarrow> nat option" where
  "find_char c s = find_sub [c] s"

lemma find_sub_Some:
  "find_sub p s = Some i \<Longrightarrow> i + length p \<le> length s \<and> take (length p) (drop i s) = p"
proof (induction p s arbitrary: i rule: find_sub.induct)
  case (2 p c s)
  show ?case
  proof (cases "prefix p (c # s)")
    case True
    with 2(2) prefix_length_le [OF True] show ?thesis by (auto simp: prefix_def)
  next
    case False
    with 2 show ?thesis by auto
  qed
qed (auto split: if_splits)

lemma find_sub_first:
  "find_sub p s = Some i \<Longrightarrow> j < i \<Longrightarrow> take (length p) (drop j s) \<noteq> p"
proof (induction p s arbitrary: i j rule: find_sub.induct)
  case (2 p c s)
  show ?case
  proof (cases "prefix p (c # s)")
    case True
    with 2(2,3) show ?thesis by simp
  next
    case False
    then have n: "take (length p) (c # s) \<noteq> p" by (metis take_is_prefix)
    from False 2 n show ?thesis by (cases j) auto
  qed
qed (auto split: if_splits)

lemma find_sub_None: "find_sub p s = None \<Longrightarrow> p \<noteq> [] \<Longrightarrow> take (length p) (drop j s) \<noteq> p"
proof (induction p s arbitrary: j rule: find_sub.induct)
  case (2 p c s)
  then have f: "\<not> prefix p (c # s)" "find_sub p s = None" by (auto split: if_splits)
  then have n: "take (length p) (c # s) \<noteq> p" by (metis take_is_prefix)
  from f 2 n show ?case by (cases j) auto
qed simp

lemma find_char_None: "find_char c s = None \<longleftrightarrow> c \<notin> set s"
  unfolding find_char_def by (induction s) auto

lemma find_char_Some:
  "find_char c s = Some i \<longleftrightarrow> i < length s \<and> s ! i = c \<and> c \<notin> set (take i s)"
  unfolding find_char_def
proof (induction s arbitrary: i)
  case (Cons x s)
  then show ?case by (cases i) auto
qed simp

lemma find_char_split: "find_char c s = Some i \<Longrightarrow> s = take i s @ c # drop (Suc i) s"
  by (metis find_char_Some id_take_nth_drop)

section \<open>Character classes\<close>

definition isdigit :: "char \<Rightarrow> bool" where
  "isdigit c \<longleftrightarrow> of_char c \<ge> (48::nat) \<and> of_char c \<le> (57::nat)"

definition isupper :: "char \<Rightarrow> bool" where
  "isupper c \<longleftrightarrow> of_char c \<ge> (65::nat) \<and> of_char c \<le> (90::nat)"

definition islower :: "char \<Rightarrow> bool" where
  "islower c \<longleftrightarrow> of_char c \<ge> (97::nat) \<and> of_char c \<le> (122::nat)"

definition isalpha :: "char \<Rightarrow> bool" where
  "isalpha c \<longleftrightarrow> isupper c \<or> islower c"

definition isalnum :: "char \<Rightarrow> bool" where
  "isalnum c \<longleftrightarrow> isalpha c \<or> isdigit c"

definition isspace :: "char \<Rightarrow> bool" where
  "isspace c \<longleftrightarrow> of_char c = (32::nat) \<or> (of_char c \<ge> (9::nat) \<and> of_char c \<le> (13::nat))"

definition tolower :: "char \<Rightarrow> char" where
  "tolower c = (if isupper c then char_of (of_char c + (32::nat)) else c)"

definition digit_val :: "char \<Rightarrow> nat" where
  "digit_val c = of_char c - 48"

section \<open>Printing numbers\<close>

definition digit_char :: "nat \<Rightarrow> char" where
  "digit_char d = (if d < 10 then char_of (48 + d) else char_of (87 + d))"

text \<open>A number below \<open>16 ^ w\<close> as \<open>w\<close> lower-case hexadecimal digits.\<close>

fun hex_pad :: "nat \<Rightarrow> nat \<Rightarrow> string" where
  "hex_pad 0 n = []"
| "hex_pad (Suc w) n = hex_pad w (n div 16) @ [digit_char (n mod 16)]"

fun nat_dec :: "nat \<Rightarrow> string" where
  "nat_dec n = (if n < 10 then [digit_char n] else nat_dec (n div 10) @ [digit_char (n mod 10)])"

declare nat_dec.simps [simp del]

definition int_dec :: "int \<Rightarrow> string" where
  "int_dec i = (if i < 0 then CHR ''-'' # nat_dec (nat (- i)) else nat_dec (nat i))"

fun dec_pad :: "nat \<Rightarrow> nat \<Rightarrow> string" where
  "dec_pad 0 n = []"
| "dec_pad (Suc w) n = dec_pad w (n div 10) @ [digit_char (n mod 10)]"

lemma length_hex_pad [simp]: "length (hex_pad w n) = w"
  by (induction w arbitrary: n) auto

lemma digit_char_inj: "a < 16 \<Longrightarrow> b < 16 \<Longrightarrow> digit_char a = digit_char b \<Longrightarrow> a = b"
proof -
  assume a: "a < 16" "b < 16" "digit_char a = digit_char b"
  have v: "of_char (digit_char d) = (if d < 10 then 48 + d else 87 + d :: nat)" if "d < 16" for d
    using that by (simp add: digit_char_def)
  from a(3) have "of_char (digit_char a) = (of_char (digit_char b) :: nat)" by simp
  with a(1,2) v show "a = b" by (simp split: if_splits)
qed

lemma hex_pad_inj: "hex_pad w a = hex_pad w b \<Longrightarrow> a mod 16 ^ w = b mod 16 ^ w"
proof (induction w arbitrary: a b)
  case (Suc w)
  from Suc.prems have e: "hex_pad w (a div 16) = hex_pad w (b div 16)"
    "digit_char (a mod 16) = digit_char (b mod 16)" by simp_all
  have d: "a mod 16 = b mod 16" by (rule digit_char_inj [OF _ _ e(2)]) simp_all
  have q: "(a div 16) mod 16 ^ w = (b div 16) mod 16 ^ w" by (rule Suc.IH [OF e(1)])
  have m: "x mod (16 * 16 ^ w) = 16 * ((x div 16) mod 16 ^ w) + x mod 16" for x :: nat
    by (rule mod_mult2_eq)
  show ?case unfolding power_Suc m d q ..
qed simp

section \<open>Reading integers\<close>

definition digits_val :: "string \<Rightarrow> nat" where
  "digits_val ds = fold (\<lambda>c v. v * 10 + digit_val c) ds 0"

text \<open>
  \<open>strtoll\<close> in base ten: optional white space, an optional sign, digits. The result is the
  value and the number of characters consumed, \<open>None\<close> when there is no digit.
\<close>

definition strto_int :: "string \<Rightarrow> (int \<times> nat) option" where
  "strto_int s =
     (let i = scan isspace s 0;
          neg = (i < length s \<and> s ! i = CHR ''-'');
          j = (if i < length s \<and> (s ! i = CHR ''-'' \<or> s ! i = CHR ''+'') then i + 1 else i);
          k = scan isdigit s j;
          v = int (digits_val (take (k - j) (drop j s)))
      in if k = j then None else Some (if neg then - v else v, k))"

lemma strto_int_bound: "strto_int s = Some (v, k) \<Longrightarrow> 0 < k \<and> k \<le> length s"
proof -
  assume a: "strto_int s = Some (v, k)"
  define i where "i = scan isspace s 0"
  define j where "j = (if i < length s \<and> (s ! i = CHR ''-'' \<or> s ! i = CHR ''+'') then i + 1 else i)"
  have i: "i \<le> length s" unfolding i_def by (rule scan_le_length) simp
  then have j: "j \<le> length s" by (auto simp: j_def)
  from a have k: "k = scan isdigit s j" "k \<noteq> j"
    by (auto simp: strto_int_def Let_def i_def [symmetric] j_def [symmetric] split: if_splits)
  then show ?thesis using scan_le_length [OF j, of isdigit] scan_ge [of j isdigit s]
    by (cases k) auto
qed

end
