(* ===== verification/Platform_Repository.thy ===== *)
theory Platform_Repository
  imports Volley_Error Volley_String
begin

text \<open>
  The control plane's data (\<open>include/cppload/platform/models.hpp\<close>), the \<open>Repository\<close>
  interface (\<open>repository.hpp\<close>) and its in-memory implementation
  (\<open>core/platform/in_memory_repo.cpp\<close>). The maps are association lists; a clock reading and a
  random number an operation takes are in its \<open>Env\<close> argument. The operations that check the
  project in one critical section and insert in a second are given both as sections, for the
  interleaving at the end, and as the composition a single caller sees.
\<close>

section \<open>Models\<close>

datatype RunStatus = pending | running | completed | failed

datatype PolicySeverity = warning | error

datatype PlatformError = not_found | already_exists | invalid_input | invalid_state

record Project =
  pj_id :: string
  pj_name :: string
  pj_description :: string
  pj_created_at :: int

record Scenario =
  sn_id :: string
  sn_project_id :: string
  sn_name :: string
  sn_version :: string
  sn_yaml_content :: string
  sn_created_at :: int

record RunResult =
  rr_total_requests :: int
  rr_successful_requests :: int
  rr_failed_requests :: int
  rr_error_rate_pct :: rat
  rr_throughput_rps :: rat
  rr_p50_latency_ms :: rat
  rr_p95_latency_ms :: rat
  rr_p99_latency_ms :: rat

record Run =
  rn_id :: string
  rn_project_id :: string
  rn_scenario_id :: string
  rn_environment :: string
  rn_status :: RunStatus
  rn_started_at :: int
  rn_finished_at :: "int option"
  rn_result :: "RunResult option"

record PolicyRule =
  pr_metric :: string
  pr_op :: string
  pr_threshold :: rat

record Policy =
  po_id :: string
  po_project_id :: string
  po_name :: string
  po_rules :: "PolicyRule list"
  po_created_at :: int

fun run_status_string :: "RunStatus \<Rightarrow> string" where
  "run_status_string pending = ''pending''"
| "run_status_string running = ''running''"
| "run_status_string completed = ''completed''"
| "run_status_string failed = ''failed''"

fun severity_string :: "PolicySeverity \<Rightarrow> string" where
  "severity_string warning = ''warning''"
| "severity_string error = ''error''"

section \<open>The in-memory repository\<close>

record Repository =
  rs_projects :: "(string \<times> Project) list"
  rs_scenarios :: "(string \<times> Scenario) list"
  rs_runs :: "(string \<times> Run) list"
  rs_policies :: "(string \<times> Policy) list"
  rs_counter :: u64

record Env =
  en_steady_ns :: int
  en_random :: u64
  en_now :: int

definition repository_new :: Repository where
  "repository_new = \<lparr>rs_projects = [], rs_scenarios = [], rs_runs = [], rs_policies = [], rs_counter = 0\<rparr>"

text \<open>Eight digits of the clock, four of the counter and four random ones.\<close>

definition generate_id :: "Env \<Rightarrow> u64 \<Rightarrow> string" where
  "generate_id e seq = hex_pad 8 (nat (en_steady_ns e mod 2 ^ 32))
     @ hex_pad 4 (unat seq mod 2 ^ 16) @ hex_pad 4 (unat (en_random e) mod 2 ^ 16)"

definition next_id :: "Repository \<Rightarrow> Repository" where
  "next_id s = s\<lparr>rs_counter := rs_counter s + 1\<rparr>"

definition create_project :: "Env \<Rightarrow> string \<Rightarrow> string \<Rightarrow> Repository
    \<Rightarrow> (Project, PlatformError) Result \<times> Repository" where
  "create_project e name description s =
     (if name = [] then (err invalid_input, s)
      else let proj = \<lparr>pj_id = generate_id e (rs_counter s), pj_name = name,
                       pj_description = description, pj_created_at = en_now e\<rparr>;
               s = next_id s
           in (ok proj, s\<lparr>rs_projects := AList.update (pj_id proj) proj (rs_projects s)\<rparr>))"

definition get_project :: "string \<Rightarrow> Repository \<Rightarrow> (Project, PlatformError) Result" where
  "get_project key s = (case map_of (rs_projects s) key of None \<Rightarrow> err not_found | Some p \<Rightarrow> ok p)"

text \<open>\<open>std::sort\<close> with the later time first; the order of equal times is unspecified.\<close>

definition newest_first :: "('a \<Rightarrow> int) \<Rightarrow> 'a list \<Rightarrow> 'a list" where
  "newest_first t xs = sort_key (\<lambda>x. - t x) xs"

definition list_projects :: "Repository \<Rightarrow> Project list" where
  "list_projects s = newest_first pj_created_at (map snd (rs_projects s))"

definition delete_project :: "string \<Rightarrow> Repository \<Rightarrow> (bool, PlatformError) Result \<times> Repository" where
  "delete_project key s =
     (case map_of (rs_projects s) key of
        None \<Rightarrow> (err not_found, s)
      | Some _ \<Rightarrow>
          (ok True, s\<lparr>rs_projects := AList.delete key (rs_projects s),
             rs_scenarios := filter (\<lambda>p. sn_project_id (snd p) \<noteq> key) (rs_scenarios s),
             rs_runs := filter (\<lambda>p. rn_project_id (snd p) \<noteq> key) (rs_runs s),
             rs_policies := filter (\<lambda>p. po_project_id (snd p) \<noteq> key) (rs_policies s)\<rparr>))"

definition project_check :: "bool \<Rightarrow> string \<Rightarrow> Repository \<Rightarrow> PlatformError option" where
  "project_check valid project_id s =
     (if \<not> valid then Some invalid_input
      else if map_of (rs_projects s) project_id = None then Some not_found else None)"

definition insert_scenario :: "Env \<Rightarrow> string \<Rightarrow> string \<Rightarrow> string \<Rightarrow> string \<Rightarrow> Repository \<Rightarrow> Scenario \<times> Repository"
where
  "insert_scenario e project_id name version yaml s =
     (let sc = \<lparr>sn_id = generate_id e (rs_counter s), sn_project_id = project_id, sn_name = name,
                sn_version = version, sn_yaml_content = yaml, sn_created_at = en_now e\<rparr>;
          s = next_id s
      in (sc, s\<lparr>rs_scenarios := AList.update (sn_id sc) sc (rs_scenarios s)\<rparr>))"

definition create_scenario :: "Env \<Rightarrow> string \<Rightarrow> string \<Rightarrow> string \<Rightarrow> string \<Rightarrow> Repository
    \<Rightarrow> (Scenario, PlatformError) Result \<times> Repository" where
  "create_scenario e project_id name version yaml s =
     (case project_check (project_id \<noteq> [] \<and> name \<noteq> []) project_id s of
        Some x \<Rightarrow> (err x, s)
      | None \<Rightarrow> map_prod ok id (insert_scenario e project_id name version yaml s))"

definition get_scenario :: "string \<Rightarrow> Repository \<Rightarrow> (Scenario, PlatformError) Result" where
  "get_scenario key s = (case map_of (rs_scenarios s) key of None \<Rightarrow> err not_found | Some p \<Rightarrow> ok p)"

definition list_scenarios :: "string \<Rightarrow> Repository \<Rightarrow> Scenario list" where
  "list_scenarios project_id s = newest_first sn_created_at
     (filter (\<lambda>sc. sn_project_id sc = project_id) (map snd (rs_scenarios s)))"

definition insert_run :: "Env \<Rightarrow> string \<Rightarrow> string \<Rightarrow> string \<Rightarrow> Repository \<Rightarrow> Run \<times> Repository" where
  "insert_run e project_id scenario_id environment s =
     (let run = \<lparr>rn_id = generate_id e (rs_counter s), rn_project_id = project_id,
                 rn_scenario_id = scenario_id, rn_environment = environment, rn_status = pending,
                 rn_started_at = en_now e, rn_finished_at = None, rn_result = None\<rparr>;
          s = next_id s
      in (run, s\<lparr>rs_runs := AList.update (rn_id run) run (rs_runs s)\<rparr>))"

definition create_run :: "Env \<Rightarrow> string \<Rightarrow> string \<Rightarrow> string \<Rightarrow> Repository
    \<Rightarrow> (Run, PlatformError) Result \<times> Repository" where
  "create_run e project_id scenario_id environment s =
     (case project_check (project_id \<noteq> []) project_id s of
        Some x \<Rightarrow> (err x, s)
      | None \<Rightarrow> map_prod ok id (insert_run e project_id scenario_id environment s))"

definition get_run :: "string \<Rightarrow> Repository \<Rightarrow> (Run, PlatformError) Result" where
  "get_run key s = (case map_of (rs_runs s) key of None \<Rightarrow> err not_found | Some p \<Rightarrow> ok p)"

definition list_runs :: "string \<Rightarrow> Repository \<Rightarrow> Run list" where
  "list_runs project_id s = newest_first rn_started_at
     (filter (\<lambda>r. rn_project_id r = project_id) (map snd (rs_runs s)))"

definition finish_run :: "Env \<Rightarrow> string \<Rightarrow> RunStatus \<Rightarrow> RunResult \<Rightarrow> Repository
    \<Rightarrow> (bool, PlatformError) Result \<times> Repository" where
  "finish_run e key status result s =
     (case map_of (rs_runs s) key of
        None \<Rightarrow> (err not_found, s)
      | Some r \<Rightarrow>
          if rn_status r = completed \<or> rn_status r = failed then (err invalid_state, s)
          else (ok True, s\<lparr>rs_runs := AList.update key
                 (r\<lparr>rn_status := status, rn_finished_at := Some (en_now e), rn_result := Some result\<rparr>)
                 (rs_runs s)\<rparr>))"

definition insert_policy :: "Env \<Rightarrow> string \<Rightarrow> string \<Rightarrow> PolicyRule list \<Rightarrow> Repository \<Rightarrow> Policy \<times> Repository"
where
  "insert_policy e project_id name rules s =
     (let pol = \<lparr>po_id = generate_id e (rs_counter s), po_project_id = project_id, po_name = name,
                 po_rules = rules, po_created_at = en_now e\<rparr>;
          s = next_id s
      in (pol, s\<lparr>rs_policies := AList.update (po_id pol) pol (rs_policies s)\<rparr>))"

definition create_policy :: "Env \<Rightarrow> string \<Rightarrow> string \<Rightarrow> PolicyRule list \<Rightarrow> Repository
    \<Rightarrow> (Policy, PlatformError) Result \<times> Repository" where
  "create_policy e project_id name rules s =
     (case project_check (project_id \<noteq> [] \<and> name \<noteq> [] \<and> rules \<noteq> []) project_id s of
        Some x \<Rightarrow> (err x, s)
      | None \<Rightarrow> map_prod ok id (insert_policy e project_id name rules s))"

definition get_policy :: "string \<Rightarrow> Repository \<Rightarrow> (Policy, PlatformError) Result" where
  "get_policy key s = (case map_of (rs_policies s) key of None \<Rightarrow> err not_found | Some p \<Rightarrow> ok p)"

definition list_policies :: "string \<Rightarrow> Repository \<Rightarrow> Policy list" where
  "list_policies project_id s = filter (\<lambda>p. po_project_id p = project_id) (map snd (rs_policies s))"

section \<open>Referential integrity\<close>

definition has_project :: "Repository \<Rightarrow> string \<Rightarrow> bool" where
  "has_project s key \<longleftrightarrow> map_of (rs_projects s) key \<noteq> None"

text \<open>Keys are unique, entries sit under their own id, and children have a parent project.\<close>

definition keyed :: "('a \<Rightarrow> string) \<Rightarrow> (string \<times> 'a) list \<Rightarrow> bool" where
  "keyed f m \<longleftrightarrow> distinct (keys_of m) \<and> (\<forall>k x. (k, x) \<in> set m \<longrightarrow> f x = k)"

definition children_ok :: "('a \<Rightarrow> string) \<Rightarrow> (string \<times> 'a) list \<Rightarrow> Repository \<Rightarrow> bool" where
  "children_ok f m s \<longleftrightarrow> (\<forall>k x. (k, x) \<in> set m \<longrightarrow> has_project s (f x))"

definition rs_inv :: "Repository \<Rightarrow> bool" where
  "rs_inv s \<longleftrightarrow> keyed pj_id (rs_projects s) \<and> keyed sn_id (rs_scenarios s)
     \<and> keyed rn_id (rs_runs s) \<and> keyed po_id (rs_policies s)
     \<and> children_ok sn_project_id (rs_scenarios s) s \<and> children_ok rn_project_id (rs_runs s) s
     \<and> children_ok po_project_id (rs_policies s) s"

lemma keyed_update: "keyed f m \<Longrightarrow> f x = k \<Longrightarrow> keyed f (AList.update k x m)"
  using set_update_subset [of k x m] by (auto simp: keyed_def distinct_update)

lemma keyed_filter: "keyed f m \<Longrightarrow> keyed f (filter P m)"
  by (auto simp: keyed_def distinct_keys_filter)

lemma keyed_delete: "keyed f m \<Longrightarrow> keyed f (AList.delete k m)"
  by (simp add: AList.delete_eq keyed_filter)

lemma children_update: "children_ok f m s \<Longrightarrow> has_project s (f x) \<Longrightarrow> children_ok f (AList.update k x m) s"
  using set_update_subset [of k x m] by (auto simp: children_ok_def)

lemma children_mono: "children_ok f m s \<Longrightarrow> (\<And>i. has_project s i \<Longrightarrow> has_project s' i) \<Longrightarrow> children_ok f m s'"
  by (auto simp: children_ok_def)

text \<open>The cascade of \<open>delete_project\<close> on one map of children.\<close>

lemma children_cascade:
  assumes "children_ok f m s" "\<And>i. i \<noteq> key \<Longrightarrow> has_project s i \<Longrightarrow> has_project s' i"
  shows "children_ok f (filter (\<lambda>p. f (snd p) \<noteq> key) m) s'"
  using assms by (auto simp: children_ok_def)

lemmas keyed_intros = keyed_update keyed_filter keyed_delete

section \<open>Sequences of operations\<close>

datatype Rs_Op =
    Create_project Env string string
  | Delete_project string
  | Create_scenario Env string string string string
  | Create_run Env string string string
  | Finish_run Env string RunStatus RunResult
  | Create_policy Env string string "PolicyRule list"

fun rs_exec :: "Rs_Op \<Rightarrow> Repository \<Rightarrow> Repository" where
  "rs_exec (Create_project e n d) s = snd (create_project e n d s)"
| "rs_exec (Delete_project p) s = snd (delete_project p s)"
| "rs_exec (Create_scenario e p n v y) s = snd (create_scenario e p n v y s)"
| "rs_exec (Create_run e p sc en) s = snd (create_run e p sc en s)"
| "rs_exec (Finish_run e r st res) s = snd (finish_run e r st res s)"
| "rs_exec (Create_policy e p n rules) s = snd (create_policy e p n rules s)"

lemma next_id_frame [frame_simps]:
  "rs_projects (next_id s) = rs_projects s" "rs_scenarios (next_id s) = rs_scenarios s"
  "rs_runs (next_id s) = rs_runs s" "rs_policies (next_id s) = rs_policies s"
  by (simp_all add: next_id_def)

lemma create_project_inv: "rs_inv s \<Longrightarrow> rs_inv (snd (create_project e n d s))"
proof -
  assume a: "rs_inv s"
  have "has_project (s\<lparr>rs_counter := c, rs_projects := AList.update k x (rs_projects s)\<rparr>) i"
    if "has_project s i" for i k x c
    using that by (simp add: has_project_def)
  with a show ?thesis
    unfolding create_project_def rs_inv_def Let_def next_id_def
    by (auto intro!: keyed_intros elim!: children_mono)
qed

lemma insert_inv:
  assumes "rs_inv s" "has_project s p"
  shows "rs_inv (snd (insert_scenario e p n v y s))" "rs_inv (snd (insert_run e p sc en s))"
    "rs_inv (snd (insert_policy e p n rules s))"
proof -
  have h: "has_project (s\<lparr>rs_counter := c, rs_scenarios := m\<rparr>) i = has_project s i"
    "has_project (s\<lparr>rs_counter := c, rs_runs := m1\<rparr>) i = has_project s i"
    "has_project (s\<lparr>rs_counter := c, rs_policies := m2\<rparr>) i = has_project s i" for c m m1 m2 i
    by (simp_all add: has_project_def)
  show "rs_inv (snd (insert_scenario e p n v y s))" "rs_inv (snd (insert_run e p sc en s))"
    "rs_inv (snd (insert_policy e p n rules s))"
    using assms unfolding insert_scenario_def insert_run_def insert_policy_def rs_inv_def Let_def next_id_def
    by (auto simp: h children_ok_def intro!: keyed_intros dest!: set_update_subset [THEN subsetD])
qed

lemma project_check_None: "project_check v p s = None \<longleftrightarrow> v \<and> has_project s p"
  by (simp add: project_check_def has_project_def)

lemma create_child_inv:
  assumes "rs_inv s"
  shows "rs_inv (snd (create_scenario e p n v y s))" "rs_inv (snd (create_run e p sc en s))"
    "rs_inv (snd (create_policy e p n rules s))"
  using assms insert_inv [OF assms]
  by (auto simp: create_scenario_def create_run_def create_policy_def project_check_None split: option.split)

lemma map_of_delete: "map_of (AList.delete k m) = (map_of m)(k := None)"
  by (simp add: delete_conv')

lemma delete_project_inv: "rs_inv s \<Longrightarrow> rs_inv (snd (delete_project key s))"
  unfolding delete_project_def rs_inv_def
  by (auto split: option.split intro!: keyed_intros children_cascade)
    (auto simp: has_project_def map_of_delete)

lemma finish_run_inv: "rs_inv s \<Longrightarrow> rs_inv (snd (finish_run e key st res s))"
proof (cases "map_of (rs_runs s) key")
  case (Some r)
  assume a: "rs_inv s"
  then have r: "rn_id r = key" "has_project s (rn_project_id r)"
    using map_of_SomeD [OF Some] by (auto simp: rs_inv_def keyed_def children_ok_def)
  have h: "has_project (s\<lparr>rs_runs := m\<rparr>) i = has_project s i" for m i by (simp add: has_project_def)
  from a r Some show ?thesis
    unfolding finish_run_def rs_inv_def
    by (auto simp: h children_ok_def intro!: keyed_intros dest!: set_update_subset [THEN subsetD])
qed (simp add: finish_run_def)

lemma rs_exec_inv: "rs_inv s \<Longrightarrow> rs_inv (rs_exec op s)"
  by (cases op) (simp_all add: create_project_inv create_child_inv delete_project_inv finish_run_inv)

lemma repository_new_inv: "rs_inv repository_new"
  by (simp add: rs_inv_def repository_new_def keyed_def children_ok_def)

lemma rs_fold_inv: "rs_inv s \<Longrightarrow> rs_inv (fold rs_exec ops s)"
  by (induction ops arbitrary: s) (auto simp: rs_exec_inv)

section \<open>Interleaved callers\<close>

text \<open>
  \<open>create_scenario\<close> releases the mutex between its check and its insertion. The state adds
  the callers that have passed the check: the project and the name they will insert.
\<close>

record Rs_Concurrent =
  rc_repo :: Repository
  rc_checked :: "(string \<times> string) list"

inductive rc_step :: "Rs_Concurrent \<Rightarrow> Rs_Concurrent \<Rightarrow> bool" where
  Atomic: "rc_step c (c\<lparr>rc_repo := rs_exec op (rc_repo c)\<rparr>)"
| Check: "project_check (p \<noteq> [] \<and> n \<noteq> []) p (rc_repo c) = None
    \<Longrightarrow> rc_step c (c\<lparr>rc_checked := (p, n) # rc_checked c\<rparr>)"
| Insert: "rc_checked c = (p, n) # rest
    \<Longrightarrow> rc_step c \<lparr>rc_repo = snd (insert_scenario e p n v y (rc_repo c)), rc_checked = rest\<rparr>"

inductive rc_reach :: "Rs_Concurrent \<Rightarrow> bool" where
  Init: "rc_reach \<lparr>rc_repo = repository_new, rc_checked = []\<rparr>"
| Next: "rc_reach c \<Longrightarrow> rc_step c c' \<Longrightarrow> rc_reach c'"

section \<open>Properties\<close>

text \<open>
  C8: referential integrity. After any sequence of repository operations that run one after
  another, whatever the ids generated, keys are unique, every entry sits under its own id, and
  every scenario, run and policy belongs to a project that exists.
\<close>

theorem repository_integrity:
  "rs_inv (fold rs_exec ops repository_new)
   \<and> (\<forall>k sc. map_of (rs_scenarios (fold rs_exec ops repository_new)) k = Some sc
        \<longrightarrow> has_value (get_project (sn_project_id sc) (fold rs_exec ops repository_new)))
   \<and> (\<forall>k r. map_of (rs_runs (fold rs_exec ops repository_new)) k = Some r
        \<longrightarrow> has_value (get_project (rn_project_id r) (fold rs_exec ops repository_new)))"
proof -
  let ?s = "fold rs_exec ops repository_new"
  have i: "rs_inv ?s" by (rule rs_fold_inv [OF repository_new_inv])
  have g: "has_value (get_project p ?s) \<longleftrightarrow> has_project ?s p" for p
    by (auto simp: get_project_def has_project_def split: option.split)
  show ?thesis using i unfolding g by (auto simp: rs_inv_def children_ok_def dest: map_of_SomeD)
qed

lemma generate_id_nonempty [simp]: "generate_id e n \<noteq> []"
  by (metis generate_id_def length_hex_pad append_is_Nil_conv list.size(3) zero_neq_numeral)

theorem repository_integrity_witness:
  "\<exists>ops k sc. map_of (rs_scenarios (fold rs_exec ops repository_new)) k = Some sc
     \<and> has_value (get_project (sn_project_id sc) (fold rs_exec ops repository_new))"
proof -
  let ?e = "\<lparr>en_steady_ns = 1, en_random = 2, en_now = 3\<rparr>"
  let ?ops = "[Create_project ?e ''p'' [], Create_scenario ?e (generate_id ?e 0) ''s'' [] []]"
  have "\<exists>sc. map_of (rs_scenarios (fold rs_exec ?ops repository_new)) (generate_id ?e 1) = Some sc"
    by (simp add: create_project_def create_scenario_def insert_scenario_def project_check_def
        repository_new_def next_id_def Let_def)
  with repository_integrity [of ?ops] show ?thesis by blast
qed

text \<open>
  Deleting a project removes it and everything that belongs to it, and nothing else: the
  projects, scenarios, runs and policies of every other project are listed as before.
\<close>

theorem delete_project_cascades:
  assumes "delete_project key s = (ok True, s')"
  shows "get_project key s' = err not_found
       \<and> list_scenarios key s' = [] \<and> list_runs key s' = [] \<and> list_policies key s' = []
       \<and> (\<forall>p. p \<noteq> key \<longrightarrow> get_project p s' = get_project p s \<and> list_scenarios p s' = list_scenarios p s
            \<and> list_runs p s' = list_runs p s \<and> list_policies p s' = list_policies p s)"
proof -
  have s': "s' = s\<lparr>rs_projects := AList.delete key (rs_projects s),
     rs_scenarios := filter (\<lambda>p. sn_project_id (snd p) \<noteq> key) (rs_scenarios s),
     rs_runs := filter (\<lambda>p. rn_project_id (snd p) \<noteq> key) (rs_runs s),
     rs_policies := filter (\<lambda>p. po_project_id (snd p) \<noteq> key) (rs_policies s)\<rparr>"
    using assms by (auto simp: delete_project_def split: option.splits)
  have gone: "filter (\<lambda>x. f x = key) (map snd (filter (\<lambda>p. f (snd p) \<noteq> key) m)) = []"
    for f :: "'a \<Rightarrow> string" and m :: "(string \<times> 'a) list"
    by (induction m) auto
  have kept: "filter (\<lambda>x. f x = q) (map snd (filter (\<lambda>p. f (snd p) \<noteq> key) m)) = filter (\<lambda>x. f x = q) (map snd m)"
    if "q \<noteq> key" for f :: "'a \<Rightarrow> string" and m :: "(string \<times> 'a) list" and q
    using that by (induction m) auto
  have nil: "newest_first t [] = []" for t :: "'a \<Rightarrow> int" by (simp add: newest_first_def)
  show ?thesis
    by (simp add: s' get_project_def map_of_delete list_scenarios_def list_runs_def list_policies_def gone kept nil)
qed

theorem delete_project_cascades_witness:
  "get_project ''x'' (snd (delete_project ''x''
      (repository_new\<lparr>rs_projects := [(''x'', \<lparr>pj_id = ''x'', pj_name = ''n'', pj_description = [], pj_created_at = 0\<rparr>)]\<rparr>)))
   = err not_found"
proof -
  let ?s = "repository_new\<lparr>rs_projects := [(''x'', \<lparr>pj_id = ''x'', pj_name = ''n'', pj_description = [], pj_created_at = 0\<rparr>)]\<rparr>"
  have "delete_project ''x'' ?s = (ok True, snd (delete_project ''x'' ?s))"
    by (simp add: delete_project_def)
  from delete_project_cascades [OF this] show ?thesis by simp
qed

text \<open>
  A run is finished once. A successful \<open>finish_run\<close> stores the status, the result and the
  time; if the status is a terminal one, every later \<open>finish_run\<close> on that run is refused with
  \<open>invalid_state\<close> and changes nothing.
\<close>

theorem finish_run_once:
  assumes "finish_run e key st res s = (ok True, s')"
  shows "(\<exists>r. get_run key s = ok r \<and> rn_status r \<noteq> completed \<and> rn_status r \<noteq> failed
           \<and> get_run key s' = ok (r\<lparr>rn_status := st, rn_finished_at := Some (en_now e), rn_result := Some res\<rparr>))
       \<and> (st \<in> {completed, failed} \<longrightarrow> finish_run e2 key st2 res2 s' = (err invalid_state, s'))"
  using assms by (auto simp: finish_run_def get_run_def split: option.splits if_splits)

theorem finish_run_once_witness:
  "\<exists>s s'. finish_run \<lparr>en_steady_ns = 0, en_random = 0, en_now = 9\<rparr> ''r'' completed
        \<lparr>rr_total_requests = 1, rr_successful_requests = 1, rr_failed_requests = 0, rr_error_rate_pct = 0,
         rr_throughput_rps = 1, rr_p50_latency_ms = 1, rr_p95_latency_ms = 1, rr_p99_latency_ms = 1\<rparr> s = (ok True, s')
     \<and> finish_run \<lparr>en_steady_ns = 0, en_random = 0, en_now = 9\<rparr> ''r'' running
        \<lparr>rr_total_requests = 1, rr_successful_requests = 1, rr_failed_requests = 0, rr_error_rate_pct = 0,
         rr_throughput_rps = 1, rr_p50_latency_ms = 1, rr_p95_latency_ms = 1, rr_p99_latency_ms = 1\<rparr> s' = (err invalid_state, s')"
proof -
  let ?e = "\<lparr>en_steady_ns = 0, en_random = 0, en_now = 9\<rparr>"
  let ?res = "\<lparr>rr_total_requests = 1, rr_successful_requests = 1, rr_failed_requests = 0, rr_error_rate_pct = 0,
         rr_throughput_rps = 1, rr_p50_latency_ms = 1, rr_p95_latency_ms = 1, rr_p99_latency_ms = 1\<rparr>"
  let ?s = "repository_new\<lparr>rs_runs := [(''r'', \<lparr>rn_id = ''r'', rn_project_id = ''p'', rn_scenario_id = [], rn_environment = [],
      rn_status = pending, rn_started_at = 0, rn_finished_at = None, rn_result = None\<rparr>)]\<rparr>"
  have f: "finish_run ?e ''r'' completed ?res ?s = (ok True, snd (finish_run ?e ''r'' completed ?res ?s))"
    by (simp add: finish_run_def)
  from finish_run_once [OF f, of ?e running ?res] f show ?thesis by blast
qed

text \<open>Sequence numbers that differ modulo \<open>2\<^sup>1\<^sup>6\<close> give different ids.\<close>

lemma generate_id_seq:
  assumes "unat a mod 2 ^ 16 \<noteq> unat b mod 2 ^ 16"
  shows "generate_id e a \<noteq> generate_id e' b"
proof
  assume "generate_id e a = generate_id e' b"
  then have "hex_pad 4 (unat a mod 2 ^ 16) = hex_pad 4 (unat b mod 2 ^ 16)"
    by (simp add: generate_id_def)
  from hex_pad_inj [OF this] assms show False by simp
qed

text \<open>
  Create and read back. Within \<open>2\<^sup>1\<^sup>6\<close> generated ids two ids never coincide, whatever the
  clock and the random part, so a created project is stored under a key that no project of an
  earlier sequence number has, is returned by \<open>get_project\<close>, and every earlier project reads
  back as before.
\<close>

theorem create_project_roundtrip:
  assumes "create_project e name desc s = (ok p, s')"
    and "\<forall>k\<in>set (keys_of (rs_projects s)). \<exists>e0 n. k = generate_id e0 n
           \<and> unat n mod 2 ^ 16 \<noteq> unat (rs_counter s) mod 2 ^ 16"
  shows "get_project (pj_id p) s' = ok p \<and> pj_name p = name \<and> pj_description p = desc
       \<and> get_project (pj_id p) s = err not_found
       \<and> (\<forall>k q. get_project k s = ok q \<longrightarrow> get_project k s' = ok q)"
proof -
  have n: "name \<noteq> []" and p: "p = \<lparr>pj_id = generate_id e (rs_counter s), pj_name = name,
                       pj_description = desc, pj_created_at = en_now e\<rparr>"
    and s': "rs_projects s' = AList.update (pj_id p) p (rs_projects s)"
    using assms(1) by (auto simp: create_project_def Let_def frame_simps split: if_splits)
  have "pj_id p \<notin> set (keys_of (rs_projects s))"
  proof
    assume "pj_id p \<in> set (keys_of (rs_projects s))"
    with assms(2) obtain e0 n where "pj_id p = generate_id e0 n"
      "unat n mod 2 ^ 16 \<noteq> unat (rs_counter s) mod 2 ^ 16" by blast
    with generate_id_seq [of n "rs_counter s" e0 e] p show False by simp
  qed
  then have "map_of (rs_projects s) (pj_id p) = None" by (simp add: map_of_eq_None_iff)
  with p show ?thesis by (auto simp: get_project_def s' split: option.splits if_splits)
qed

theorem create_project_roundtrip_witness:
  "\<exists>p s'. create_project \<lparr>en_steady_ns = 1, en_random = 2, en_now = 3\<rparr> ''n'' [] repository_new = (ok p, s')
     \<and> get_project (pj_id p) s' = ok p"
proof -
  let ?e = "\<lparr>en_steady_ns = 1, en_random = 2, en_now = 3\<rparr>"
  obtain p s' where c: "create_project ?e ''n'' [] repository_new = (ok p, s')"
    by (simp add: create_project_def Let_def)
  moreover have "\<forall>k\<in>set (keys_of (rs_projects repository_new)). \<exists>e0 n. k = generate_id e0 n
           \<and> unat n mod 2 ^ 16 \<noteq> unat (rs_counter repository_new) mod 2 ^ 16"
    by (simp add: repository_new_def)
  ultimately show ?thesis using create_project_roundtrip [OF c] by blast
qed

text \<open>
  With concurrent callers integrity is lost. \<open>create_scenario\<close> checks the project and
  inserts in two critical sections; a \<open>delete_project\<close> in between leaves a scenario whose
  project does not exist, and which no further delete removes.
\<close>

theorem create_scenario_race:
  "\<exists>c k sc. rc_reach c \<and> map_of (rs_scenarios (rc_repo c)) k = Some sc
     \<and> get_project (sn_project_id sc) (rc_repo c) = err not_found
     \<and> fst (delete_project (sn_project_id sc) (rc_repo c)) = err not_found"
proof -
  let ?e = "\<lparr>en_steady_ns = 1, en_random = 2, en_now = 3\<rparr>"
  let ?p = "generate_id ?e 0"
  let ?c0 = "\<lparr>rc_repo = repository_new, rc_checked = []\<rparr>"
  let ?c1 = "?c0\<lparr>rc_repo := rs_exec (Create_project ?e ''p'' []) (rc_repo ?c0)\<rparr>"
  let ?c2 = "?c1\<lparr>rc_checked := (?p, ''s'') # rc_checked ?c1\<rparr>"
  let ?c3 = "?c2\<lparr>rc_repo := rs_exec (Delete_project ?p) (rc_repo ?c2)\<rparr>"
  let ?c4 = "\<lparr>rc_repo = snd (insert_scenario ?e ?p ''s'' [] [] (rc_repo ?c3)), rc_checked = []\<rparr>"
  have r1: "rs_exec (Create_project ?e ''p'' []) repository_new = repository_new\<lparr>rs_counter := 1,
      rs_projects := [(?p, \<lparr>pj_id = ?p, pj_name = ''p'', pj_description = [], pj_created_at = 3\<rparr>)]\<rparr>"
    by (simp add: create_project_def Let_def repository_new_def next_id_def)
  have "rc_step ?c0 ?c1" by (rule rc_step.Atomic)
  moreover have "rc_step ?c1 ?c2" by (rule rc_step.Check) (simp add: r1 project_check_def del: rs_exec.simps)
  moreover have "rc_step ?c2 ?c3" by (rule rc_step.Atomic)
  moreover have "rc_step ?c3 ?c4" by (rule rc_step.Insert) simp
  ultimately have "rc_reach ?c4" by (meson rc_reach.intros)
  moreover have r3: "rc_repo ?c3 = repository_new\<lparr>rs_counter := 1\<rparr>"
    by (simp add: create_project_def Let_def delete_project_def repository_new_def next_id_def)
  have "\<exists>sc. map_of (rs_scenarios (rc_repo ?c4)) (generate_id ?e 1) = Some sc \<and> sn_project_id sc = ?p"
    "rs_projects (rc_repo ?c4) = []"
    unfolding r3 by (simp_all add: insert_scenario_def Let_def repository_new_def next_id_def)
  ultimately show ?thesis
    by (auto intro!: exI [of _ ?c4] exI [of _ "generate_id ?e 1"] simp: get_project_def delete_project_def)
qed

end
