(* ===== verification/Platform_Policy.thy ===== *)
theory Platform_Policy
  imports Platform_Repository Volley_Double
begin

text \<open>
  The policy evaluator of \<open>core/platform/policy.cpp\<close>. It sees the repository through two
  virtual calls, \<open>get_run\<close> and \<open>get_policy\<close>, which are its arguments; what it relies on when a
  run has just been finished is the locale \<open>result_store\<close>, interpreted on the in-memory
  repository. Metric values and thresholds are finite doubles.
\<close>

section \<open>Formatting a double\<close>

text \<open>\<open>std::to_string(double)\<close>: the value rounded to six decimals, ties to even.\<close>

definition double_f :: "rat \<Rightarrow> string" where
  "double_f x =
     (let n = nat (round_even (\<bar>x\<bar> * 10 ^ 6))
      in (if x < 0 then ''-'' else '''') @ nat_dec (n div 10 ^ 6) @ ''.'' @ dec_pad 6 (n mod 10 ^ 6))"

section \<open>The evaluator\<close>

record PolicyViolation =
  pv_rule_metric :: string
  pv_message :: string
  pv_severity :: PolicySeverity

record PolicyEvaluation =
  pe_run_id :: string
  pe_policy_id :: string
  pe_passed :: bool
  pe_violations :: "PolicyViolation list"

definition get_metric_value :: "RunResult \<Rightarrow> string \<Rightarrow> rat option" where
  "get_metric_value r metric =
     (if metric = ''error_rate_pct'' then Some (rr_error_rate_pct r)
      else if metric = ''throughput_rps'' then Some (rr_throughput_rps r)
      else if metric = ''p50_latency_ms'' then Some (rr_p50_latency_ms r)
      else if metric = ''p95_latency_ms'' then Some (rr_p95_latency_ms r)
      else if metric = ''p99_latency_ms'' then Some (rr_p99_latency_ms r)
      else if metric = ''total_requests'' then Some (rnd (of_int (rr_total_requests r)))
      else if metric = ''failed_requests'' then Some (rnd (of_int (rr_failed_requests r)))
      else None)"

text \<open>True when the rule is violated; an operator that is not known violates every rule.\<close>

definition check_threshold :: "rat \<Rightarrow> string \<Rightarrow> rat \<Rightarrow> bool" where
  "check_threshold actual op threshold =
     (if op = ''<'' then \<not> actual < threshold
      else if op = ''<='' then \<not> actual \<le> threshold
      else if op = ''>'' then \<not> actual > threshold
      else if op = ''>='' then \<not> actual \<ge> threshold
      else if op = ''=='' then \<bar>fsub actual threshold\<bar> > rnd (1 / 10 ^ 9)
      else if op = ''!='' then \<bar>fsub actual threshold\<bar> \<le> rnd (1 / 10 ^ 9)
      else True)"

definition format_violation :: "string \<Rightarrow> string \<Rightarrow> rat \<Rightarrow> rat \<Rightarrow> string" where
  "format_violation metric op threshold actual =
     metric @ '' expected '' @ op @ '' '' @ double_f threshold @ '' but got '' @ double_f actual"

definition error_evaluation :: "string \<Rightarrow> string \<Rightarrow> string \<Rightarrow> string \<Rightarrow> PolicyEvaluation" where
  "error_evaluation run_id policy_id what msg =
     \<lparr>pe_run_id = run_id, pe_policy_id = policy_id, pe_passed = False,
      pe_violations = [\<lparr>pv_rule_metric = what, pv_message = msg, pv_severity = error\<rparr>]\<rparr>"

text \<open>The loop body over one rule.\<close>

definition evaluate_rule :: "RunResult \<Rightarrow> PolicyRule \<Rightarrow> PolicyEvaluation \<Rightarrow> PolicyEvaluation" where
  "evaluate_rule result rule ev =
     (case get_metric_value result (pr_metric rule) of
        None \<Rightarrow> ev\<lparr>pe_violations := pe_violations ev @
           [\<lparr>pv_rule_metric = pr_metric rule, pv_message = ''unknown metric: '' @ pr_metric rule,
             pv_severity = warning\<rparr>]\<rparr>
      | Some actual \<Rightarrow>
          if check_threshold actual (pr_op rule) (pr_threshold rule) then
            ev\<lparr>pe_passed := False, pe_violations := pe_violations ev @
              [\<lparr>pv_rule_metric = pr_metric rule,
                pv_message = format_violation (pr_metric rule) (pr_op rule) (pr_threshold rule) actual,
                pv_severity = error\<rparr>]\<rparr>
          else ev)"

definition evaluate :: "(string \<Rightarrow> (Run, PlatformError) Result) \<Rightarrow> (string \<Rightarrow> (Policy, PlatformError) Result)
    \<Rightarrow> string \<Rightarrow> string \<Rightarrow> PolicyEvaluation" where
  "evaluate run_of policy_of run_id policy_id =
     (case run_of run_id of
        err _ \<Rightarrow> error_evaluation run_id policy_id ''run'' (''run not found: '' @ run_id)
      | ok run \<Rightarrow>
     (case policy_of policy_id of
        err _ \<Rightarrow> error_evaluation run_id policy_id ''policy'' (''policy not found: '' @ policy_id)
      | ok policy \<Rightarrow>
     (case rn_result run of
        None \<Rightarrow> error_evaluation run_id policy_id ''result'' ''run has no result yet''
      | Some result \<Rightarrow> fold (evaluate_rule result) (po_rules policy)
          \<lparr>pe_run_id = run_id, pe_policy_id = policy_id, pe_passed = True, pe_violations = []\<rparr>)))"

section \<open>The verdict\<close>

definition rule_ok :: "RunResult \<Rightarrow> PolicyRule \<Rightarrow> bool" where
  "rule_ok result rule \<longleftrightarrow> (case get_metric_value result (pr_metric rule) of
     None \<Rightarrow> True | Some actual \<Rightarrow> \<not> check_threshold actual (pr_op rule) (pr_threshold rule))"

definition no_error :: "PolicyEvaluation \<Rightarrow> bool" where
  "no_error ev \<longleftrightarrow> (\<forall>v\<in>set (pe_violations ev). pv_severity v = warning)"

lemma evaluate_rule_frame [frame_simps]:
  "pe_run_id (evaluate_rule res r ev) = pe_run_id ev" "pe_policy_id (evaluate_rule res r ev) = pe_policy_id ev"
  by (auto simp: evaluate_rule_def split: option.split)

lemma evaluate_rule_passed: "pe_passed (evaluate_rule res r ev) \<longleftrightarrow> pe_passed ev \<and> rule_ok res r"
  by (auto simp: evaluate_rule_def rule_ok_def split: option.split)

lemma evaluate_rule_errors:
  "pe_passed ev = no_error ev \<Longrightarrow> pe_passed (evaluate_rule res r ev) = no_error (evaluate_rule res r ev)"
  by (auto simp: evaluate_rule_def no_error_def split: option.split)

lemma fold_rules_passed:
  "pe_passed (fold (evaluate_rule res) rules ev) \<longleftrightarrow> pe_passed ev \<and> (\<forall>r\<in>set rules. rule_ok res r)"
  by (induction rules arbitrary: ev) (auto simp: evaluate_rule_passed)

lemma fold_rules_errors:
  "pe_passed ev = no_error ev \<Longrightarrow>
     pe_passed (fold (evaluate_rule res) rules ev) = no_error (fold (evaluate_rule res) rules ev)"
  by (induction rules arbitrary: ev) (auto simp: evaluate_rule_errors)

lemma evaluate_found:
  assumes "run_of k = ok run" "policy_of p = ok pol" "rn_result run = Some res"
  shows "pe_passed (evaluate run_of policy_of k p) \<longleftrightarrow> (\<forall>r\<in>set (po_rules pol). rule_ok res r)"
  using assms by (simp add: evaluate_def fold_rules_passed)

text \<open>
  What an evaluation after \<open>finish_run\<close> relies on: the finished run is found with its result, and
  finishing a run does not touch the policies.
\<close>

locale result_store =
  fixes lookup_run :: "string \<Rightarrow> 's \<Rightarrow> (Run, PlatformError) Result"
    and lookup_policy :: "string \<Rightarrow> 's \<Rightarrow> (Policy, PlatformError) Result"
    and finish :: "string \<Rightarrow> RunStatus \<Rightarrow> RunResult \<Rightarrow> 's \<Rightarrow> (bool, PlatformError) Result \<times> 's"
  assumes finished: "finish k st res s = (ok b, s') \<Longrightarrow> \<exists>r. lookup_run k s' = ok r \<and> rn_result r = Some res"
    and policies_kept: "finish k st res s = (ok b, s') \<Longrightarrow> lookup_policy p s' = lookup_policy p s"
begin

lemma verdict_of_finished:
  assumes "finish k st res s = (ok b, s')" "lookup_policy p s = ok pol"
  shows "pe_passed (evaluate (\<lambda>i. lookup_run i s') (\<lambda>i. lookup_policy i s') k p)
           \<longleftrightarrow> (\<forall>r\<in>set (po_rules pol). rule_ok res r)"
proof -
  obtain r where "lookup_run k s' = ok r" "rn_result r = Some res" using finished [OF assms(1)] by blast
  moreover have "lookup_policy p s' = ok pol" using policies_kept [OF assms(1)] assms(2) by simp
  ultimately show ?thesis by (intro evaluate_found)
qed

end

interpretation repo: result_store get_run get_policy "finish_run e" for e
  by unfold_locales (auto simp: finish_run_def get_run_def get_policy_def split: option.splits if_splits)

section \<open>Properties\<close>

text \<open>
  On every path, missing run, missing policy, missing result included, an evaluation passes
  exactly when it reports no violation of severity error.
\<close>

theorem evaluate_passed_iff_no_error:
  "pe_passed (evaluate run_of policy_of k p)
     = (\<not> (\<exists>v\<in>set (pe_violations (evaluate run_of policy_of k p)). pv_severity v = error))"
proof -
  have "pe_passed (evaluate run_of policy_of k p) = no_error (evaluate run_of policy_of k p)"
    by (auto simp: evaluate_def error_evaluation_def no_error_def fold_rules_errors [unfolded no_error_def]
        split: Result.split option.split)
  moreover have "no_error ev \<longleftrightarrow> \<not> (\<exists>v\<in>set (pe_violations ev). pv_severity v = error)" for ev
    unfolding no_error_def by (metis PolicySeverity.distinct(1) PolicySeverity.exhaust)
  ultimately show ?thesis by simp
qed

text \<open>
  End to end over the repository. Once \<open>finish_run\<close> has accepted the result of a run,
  evaluating it against a stored policy passes exactly when the result meets every rule whose
  metric is known.
\<close>

theorem evaluate_after_finish:
  assumes "finish_run e k st res s = (ok True, s')" "get_policy p s = ok pol"
  shows "pe_passed (evaluate (\<lambda>i. get_run i s') (\<lambda>i. get_policy i s') k p)
           \<longleftrightarrow> (\<forall>r\<in>set (po_rules pol). rule_ok res r)"
  using assms by (rule repo.verdict_of_finished)

definition demo_result :: RunResult where
  "demo_result = \<lparr>rr_total_requests = 10, rr_successful_requests = 9, rr_failed_requests = 1, rr_error_rate_pct = 10,
     rr_throughput_rps = 5, rr_p50_latency_ms = 1, rr_p95_latency_ms = 2, rr_p99_latency_ms = 3\<rparr>"

theorem evaluate_after_finish_witness:
  "\<exists>s s'. finish_run \<lparr>en_steady_ns = 0, en_random = 0, en_now = 9\<rparr> ''r'' completed demo_result s = (ok True, s')
     \<and> pe_passed (evaluate (\<lambda>i. get_run i s') (\<lambda>i. get_policy i s') ''r'' ''p'')"
proof -
  let ?e = "\<lparr>en_steady_ns = 0, en_random = 0, en_now = 9\<rparr>"
  let ?pol = "\<lparr>po_id = ''p'', po_project_id = ''j'', po_name = ''n'',
      po_rules = [\<lparr>pr_metric = ''p99_latency_ms'', pr_op = ''<'', pr_threshold = 4\<rparr>], po_created_at = 0\<rparr>"
  let ?s = "repository_new\<lparr>rs_runs := [(''r'', \<lparr>rn_id = ''r'', rn_project_id = ''j'', rn_scenario_id = [], rn_environment = [],
      rn_status = pending, rn_started_at = 0, rn_finished_at = None, rn_result = None\<rparr>)], rs_policies := [(''p'', ?pol)]\<rparr>"
  have f: "finish_run ?e ''r'' completed demo_result ?s = (ok True, snd (finish_run ?e ''r'' completed demo_result ?s))"
    by (simp add: finish_run_def)
  have p: "get_policy ''p'' ?s = ok ?pol" by (simp add: get_policy_def)
  have "rule_ok demo_result \<lparr>pr_metric = ''p99_latency_ms'', pr_op = ''<'', pr_threshold = 4\<rparr>"
    by (simp add: rule_ok_def get_metric_value_def check_threshold_def demo_result_def)
  with evaluate_after_finish [OF f p]
  have "pe_passed (evaluate (\<lambda>i. get_run i (snd (finish_run ?e ''r'' completed demo_result ?s)))
     (\<lambda>i. get_policy i (snd (finish_run ?e ''r'' completed demo_result ?s))) ''r'' ''p'')" by simp
  with f show ?thesis by blast
qed

end
