(* ===== verification/Cpp_Parse.thy ===== *)
theory Cpp_Parse
  imports Volley_Error Volley_String Volley_Double
begin

text \<open>
  The numeric conversions of the C++ standard library, \<open>std::stoi\<close>, \<open>stol\<close>, \<open>stoll\<close>, \<open>stoul\<close>
  and \<open>stod\<close>, with the exceptions they throw, and sequencing of computations that may throw. Trailing
  characters are ignored, as the program never asks for the number consumed. A \<open>double\<close> that may be
  infinite or not a number is an \<open>xdouble\<close>.
\<close>

section \<open>Computations that may throw\<close>

fun exn_bind :: "cpp_exn + 'a \<Rightarrow> ('a \<Rightarrow> cpp_exn + 'b) \<Rightarrow> cpp_exn + 'b" where
  "exn_bind (Inl x) f = Inl x"
| "exn_bind (Inr a) f = f a"

fun exn_map_list :: "('a \<Rightarrow> cpp_exn + 'b) \<Rightarrow> 'a list \<Rightarrow> cpp_exn + 'b list" where
  "exn_map_list f [] = Inr []"
| "exn_map_list f (x # xs) = exn_bind (f x) (\<lambda>y. exn_bind (exn_map_list f xs) (\<lambda>ys. Inr (y # ys)))"

text \<open>\<open>try { return e; } catch (const std::exception&) { return d; }\<close>\<close>

definition catch_default :: "'a \<Rightarrow> cpp_exn + 'a \<Rightarrow> 'a" where
  "catch_default d r = (case r of Inl _ \<Rightarrow> d | Inr a \<Rightarrow> a)"

lemma catch_default_simps [simp]: "catch_default d (Inl x) = d" "catch_default d (Inr a) = a"
  by (simp_all add: catch_default_def)

lemma exn_bind_Inr_iff: "exn_bind r f = Inr b \<longleftrightarrow> (\<exists>a. r = Inr a \<and> f a = Inr b)"
  by (cases r) auto

lemma exn_map_list_Inr: "exn_map_list f xs = Inr ys \<Longrightarrow> length ys = length xs \<and> (\<forall>i < length xs. f (xs ! i) = Inr (ys ! i))"
proof (induction xs arbitrary: ys)
  case (Cons x xs)
  from Cons.prems obtain y zs where y: "f x = Inr y" "exn_map_list f xs = Inr zs" "ys = y # zs"
    by (auto simp: exn_bind_Inr_iff)
  with Cons.IH [OF y(2)] show ?case by (auto simp: nth_Cons split: nat.splits)
qed simp

lemma exn_map_list_Inl: "x \<in> set xs \<Longrightarrow> f x = Inl e \<Longrightarrow> \<exists>e'. exn_map_list f xs = Inl e'"
proof (induction xs)
  case (Cons a xs)
  show ?case
  proof (cases "f a")
    case (Inr b)
    with Cons have "x \<in> set xs" by auto
    with Cons Inr show ?thesis by fastforce
  qed simp
qed simp

section \<open>Integers\<close>

definition sto_range :: "string \<Rightarrow> int \<Rightarrow> int \<Rightarrow> string \<Rightarrow> cpp_exn + int" where
  "sto_range fn lo hi s = (case strto_int s of
     None \<Rightarrow> Inl (Invalid_argument fn)
   | Some (v, _) \<Rightarrow> if v < lo \<or> v > hi then Inl (Out_of_range fn) else Inr v)"

definition stoi :: "string \<Rightarrow> cpp_exn + int" where
  "stoi s = sto_range ''stoi'' (- (2 ^ 31)) (2 ^ 31 - 1) s"

definition stol :: "string \<Rightarrow> cpp_exn + int" where
  "stol s = sto_range ''stol'' (- (2 ^ 63)) (2 ^ 63 - 1) s"

definition stoll :: "string \<Rightarrow> cpp_exn + int" where
  "stoll s = sto_range ''stoll'' (- (2 ^ 63)) (2 ^ 63 - 1) s"

text \<open>\<open>strtoul\<close> accepts a minus sign and negates modulo \<open>2 ^ 64\<close>; only the magnitude is checked.\<close>

definition stoul :: "string \<Rightarrow> cpp_exn + u64" where
  "stoul s = exn_bind (sto_range ''stoul'' (- (2 ^ 64 - 1)) (2 ^ 64 - 1) s) (\<lambda>v. Inr (word_of_int v))"

section \<open>Floating point\<close>

datatype xdouble = Fin rat | PInf | NInf | NaN

definition isxdigit :: "char \<Rightarrow> bool" where
  "isxdigit c \<longleftrightarrow> isdigit c \<or> (let l = of_char (tolower c) :: nat in 97 \<le> l \<and> l \<le> 102)"

definition xdigit_val :: "char \<Rightarrow> nat" where
  "xdigit_val c = (if isdigit c then digit_val c else of_char (tolower c) - 87)"

definition base_val :: "nat \<Rightarrow> string \<Rightarrow> nat" where
  "base_val b ds = fold (\<lambda>c v. v * b + xdigit_val c) ds 0"

text \<open>The exponent behind the mantissa, or 0 when there is no digit behind the mark.\<close>

definition read_exponent :: "char \<Rightarrow> string \<Rightarrow> int" where
  "read_exponent mark s = (case s of
     [] \<Rightarrow> 0
   | c # r \<Rightarrow>
       if tolower c \<noteq> mark then 0
       else let neg = (r \<noteq> [] \<and> hd r = CHR ''-'');
                r = (if r \<noteq> [] \<and> (hd r = CHR ''-'' \<or> hd r = CHR ''+'') then tl r else r);
                v = int (digits_val (takeWhile isdigit r))
            in if neg then - v else v)"

text \<open>Digits with at most one point among them: the value read as an integer, the number of fractional digits and the rest.\<close>

definition read_mantissa :: "nat \<Rightarrow> (char \<Rightarrow> bool) \<Rightarrow> string \<Rightarrow> (nat \<times> nat \<times> string) option" where
  "read_mantissa b isd s =
     (let ip = takeWhile isd s; r = dropWhile isd s;
          fp = (if r \<noteq> [] \<and> hd r = CHR ''.'' then takeWhile isd (tl r) else []);
          r = (if r \<noteq> [] \<and> hd r = CHR ''.'' then dropWhile isd (tl r) else r)
      in if ip @ fp = [] then None else Some (base_val b (ip @ fp), length fp, r))"

definition read_decimal :: "string \<Rightarrow> rat option" where
  "read_decimal s = map_option (\<lambda>(m, k, r). of_nat m * 10 powi (read_exponent (CHR ''e'') r - int k))
     (read_mantissa 10 isdigit s)"

definition read_hex :: "string \<Rightarrow> rat option" where
  "read_hex s = map_option (\<lambda>(m, k, r). of_nat m * 2 powi (read_exponent (CHR ''p'') r - 4 * int k))
     (read_mantissa 16 isxdigit s)"

definition read_number :: "string \<Rightarrow> rat option" where
  "read_number s =
     (if map tolower (take 2 s) = ''0x'' \<and> read_hex (drop 2 s) \<noteq> None then read_hex (drop 2 s) else read_decimal s)"

text \<open>
  The rounded value of an exact one; \<open>strtod\<close> reports a range error when it overflows, and when it
  is below the normal numbers and inexact.
\<close>

definition round_checked :: "rat \<Rightarrow> cpp_exn + xdouble" where
  "round_checked q =
     (if \<bar>rnd q\<bar> \<ge> 2 ^ 1024 \<or> (\<bar>rnd q\<bar> < 2 powi (-1022) \<and> rnd q \<noteq> q) then Inl (Out_of_range ''stod'') else Inr (Fin (rnd q)))"

definition stod :: "string \<Rightarrow> cpp_exn + xdouble" where
  "stod s =
     (let s = dropWhile isspace s;
          neg = (s \<noteq> [] \<and> hd s = CHR ''-'');
          s = (if s \<noteq> [] \<and> (hd s = CHR ''-'' \<or> hd s = CHR ''+'') then tl s else s)
      in if map tolower (take 3 s) = ''inf'' then Inr (if neg then NInf else PInf)
         else if map tolower (take 3 s) = ''nan'' then Inr NaN
         else case read_number s of
                None \<Rightarrow> Inl (Invalid_argument ''stod'')
              | Some q \<Rightarrow> round_checked (if neg then - q else q))"

section \<open>Reading back printed numbers\<close>

lemma isdigit_digit_char: "d < 10 \<Longrightarrow> isdigit (digit_char d)" "d < 10 \<Longrightarrow> digit_val (digit_char d) = d"
  by (simp_all add: isdigit_def digit_char_def digit_val_def)

lemma nat_dec_digits: "list_all isdigit (nat_dec n)" "nat_dec n \<noteq> []"
proof (induction n rule: nat_dec.induct)
  case (1 n)
  { case 1
    show ?case using "1.IH" by (subst nat_dec.simps) (simp add: isdigit_digit_char)
  next
    case 2
    show ?case by (subst nat_dec.simps) simp
  }
qed

lemma digits_val_snoc: "digits_val (ds @ [c]) = digits_val ds * 10 + digit_val c"
  by (simp add: digits_val_def)

lemma digits_val_nat_dec [simp]: "digits_val (nat_dec n) = n"
proof (induction n rule: nat_dec.induct)
  case (1 n)
  show ?case
  proof (cases "n < 10")
    case True
    then show ?thesis by (subst nat_dec.simps) (simp add: digits_val_def isdigit_digit_char)
  next
    case False
    then show ?thesis using 1 by (subst nat_dec.simps) (simp add: digits_val_snoc isdigit_digit_char)
  qed
qed

lemma base_val_digits: "list_all isdigit ds \<Longrightarrow> base_val 10 ds = digits_val ds"
proof -
  assume "list_all isdigit ds"
  then have "fold (\<lambda>c v. v * 10 + xdigit_val c) ds a = fold (\<lambda>c v. v * 10 + digit_val c) ds a" for a
    by (induction ds arbitrary: a) (simp_all add: xdigit_val_def)
  then show ?thesis by (simp add: base_val_def digits_val_def)
qed

lemma digit_not_special:
  "isdigit c \<Longrightarrow> \<not> isspace c \<and> c \<noteq> CHR ''-'' \<and> c \<noteq> CHR ''+'' \<and> tolower c = c \<and> c \<noteq> CHR ''i'' \<and> c \<noteq> CHR ''n'' \<and> c \<noteq> CHR ''x'' \<and> c \<noteq> CHR ''.''"
  by (auto simp: isdigit_def isspace_def tolower_def isupper_def)

lemma digits_split:
  assumes "list_all isdigit ds" "u = [] \<or> \<not> isdigit (hd u)"
  shows "takeWhile isdigit (ds @ u) = ds" "dropWhile isdigit (ds @ u) = u"
  using assms by (cases u; auto simp: list_all_iff takeWhile_append dropWhile_append)+

definition number_end :: "string \<Rightarrow> bool" where
  "number_end u \<longleftrightarrow> u = [] \<or> (\<not> isdigit (hd u) \<and> hd u \<noteq> CHR ''.'' \<and> tolower (hd u) \<noteq> CHR ''e'' \<and> tolower (hd u) \<noteq> CHR ''x'')"

lemma read_decimal_digits:
  assumes "list_all isdigit ds" "ds \<noteq> []" "number_end u"
  shows "read_decimal (ds @ u) = Some (of_nat (digits_val ds))"
proof -
  have u: "u = [] \<or> \<not> isdigit (hd u)" using assms(3) by (auto simp: number_end_def)
  have "read_exponent (CHR ''e'') u = 0"
    using assms(3) by (cases u) (auto simp: read_exponent_def number_end_def)
  then show ?thesis using digits_split [OF assms(1) u] assms
    by (auto simp: read_decimal_def read_mantissa_def number_end_def base_val_digits)
qed

lemma stod_digits:
  assumes ds: "list_all isdigit ds" "ds \<noteq> []" and u: "number_end u"
  shows "stod (ds @ u) = round_checked (of_nat (digits_val ds))"
proof -
  obtain c cs where c: "ds = c # cs" "isdigit c" using ds by (cases ds) auto
  note n = digit_not_special [OF c(2)]
  have "map tolower (take 2 (ds @ u)) \<noteq> ''0x''"
  proof (cases cs)
    case Nil
    then show ?thesis using u c(1) by (cases u) (auto simp: number_end_def)
  next
    case (Cons d es)
    then have "tolower d = d" "d \<noteq> CHR ''x''" using ds(1) c(1) digit_not_special [of d] by simp_all
    then show ?thesis using Cons c(1) by simp
  qed
  then have "read_number (ds @ u) = Some (of_nat (digits_val ds))"
    using read_decimal_digits [OF ds u] by (simp add: read_number_def)
  moreover have "map tolower (take 3 (ds @ u)) \<noteq> ''inf''" "map tolower (take 3 (ds @ u)) \<noteq> ''nan''"
    using n c(1) by (auto simp: numeral_3_eq_3)
  ultimately show ?thesis using n c(1) by (simp add: stod_def Let_def)
qed

lemma round_checked_nat: "n < 2 ^ 53 \<Longrightarrow> round_checked (of_nat n) = Inr (Fin (of_nat n))"
proof -
  assume n: "n < 2 ^ 53"
  then have "(of_nat n :: rat) < of_nat (2 ^ 53)" by (simp only: of_nat_less_iff)
  also have "of_nat (2 ^ 53) \<le> (2 ^ 1024 :: rat)" by simp
  finally show ?thesis using rnd_of_nat [OF n] by (simp add: round_checked_def)
qed

lemma strto_int_nat_dec: "u = [] \<or> \<not> isdigit (hd u) \<Longrightarrow> strto_int (nat_dec n @ u) = Some (int n, length (nat_dec n))"
proof -
  assume u: "u = [] \<or> \<not> isdigit (hd u)"
  obtain c cs where c: "nat_dec n = c # cs" "isdigit c" using nat_dec_digits [of n] by (cases "nat_dec n") auto
  note s = digits_split [OF nat_dec_digits(1) u]
  have "scan isspace (nat_dec n @ u) 0 = 0" using digit_not_special [OF c(2)] c by (simp add: scan_def)
  moreover have "scan isdigit (nat_dec n @ u) 0 = length (nat_dec n)" using s(1) by (simp add: scan_def)
  moreover have "(nat_dec n @ u) ! 0 = c" using c by simp
  ultimately show ?thesis using digit_not_special [OF c(2)] nat_dec_digits(2) [of n]
    by (simp add: strto_int_def Let_def)
qed

end
