(* ===== verification/Platform_Server.thy ===== *)
theory Platform_Server
  imports Platform_Policy Cpp_Parse
begin

text \<open>
  The REST server of \<open>core/platform/http_server.cpp\<close> and the entry point
  \<open>platform/control-plane/main.cpp\<close>. JSON is a third-party library: its operations are the
  fields of the argument \<open>J\<close>, over an abstract type of JSON values. A handler returns the
  exception that leaves it or the response, and the repository; the accept loop runs sessions
  one after another, and an exception that reaches it ends the process.
\<close>

section \<open>The JSON library and HTTP messages\<close>

record 'j Json_Lib =
  js_parse :: "string \<Rightarrow> 'j option"                    \<comment> \<open>\<open>None\<close>: a discarded value\<close>
  js_value :: "'j \<Rightarrow> string \<Rightarrow> string \<Rightarrow> cpp_exn + string"  \<comment> \<open>\<open>j.value(key, default)\<close>\<close>
  js_contains :: "'j \<Rightarrow> string \<Rightarrow> bool"
  js_array :: "'j \<Rightarrow> string \<Rightarrow> 'j list option"          \<comment> \<open>the elements of \<open>j[key]\<close> if it is an array\<close>
  js_at_string :: "'j \<Rightarrow> string \<Rightarrow> cpp_exn + string"
  js_at_double :: "'j \<Rightarrow> string \<Rightarrow> cpp_exn + rat"
  js_object :: "(string \<times> 'j) list \<Rightarrow> 'j"
  js_list :: "'j list \<Rightarrow> 'j"
  js_string :: "string \<Rightarrow> 'j"
  js_int :: "int \<Rightarrow> 'j"
  js_double :: "rat \<Rightarrow> 'j"
  js_bool :: "bool \<Rightarrow> 'j"
  js_dump :: "'j \<Rightarrow> cpp_exn + string"

datatype Verb = verb_get | verb_post | verb_delete | verb_other

record HttpResponse =
  hr_status :: nat
  hr_headers :: "(string \<times> string) list"
  hr_body :: string

section \<open>Rendering\<close>

text \<open>\<open>system_clock::to_time_t\<close> of a time point in nanoseconds, then \<open>std::to_string\<close>.\<close>

definition time_string :: "int \<Rightarrow> string" where
  "time_string t = int_dec (if t < 0 then - ((- t) div 10 ^ 9) else t div 10 ^ 9)"

definition project_json :: "'j Json_Lib \<Rightarrow> Project \<Rightarrow> 'j" where
  "project_json J p = js_object J
     [(''id'', js_string J (pj_id p)), (''name'', js_string J (pj_name p)),
      (''description'', js_string J (pj_description p)),
      (''created_at'', js_string J (time_string (pj_created_at p)))]"

definition scenario_json :: "'j Json_Lib \<Rightarrow> Scenario \<Rightarrow> 'j" where
  "scenario_json J s = js_object J
     [(''id'', js_string J (sn_id s)), (''project_id'', js_string J (sn_project_id s)),
      (''name'', js_string J (sn_name s)), (''version'', js_string J (sn_version s)),
      (''yaml'', js_string J (sn_yaml_content s)),
      (''created_at'', js_string J (time_string (sn_created_at s)))]"

definition result_json :: "'j Json_Lib \<Rightarrow> RunResult \<Rightarrow> 'j" where
  "result_json J r = js_object J
     [(''total_requests'', js_int J (rr_total_requests r)),
      (''successful_requests'', js_int J (rr_successful_requests r)),
      (''failed_requests'', js_int J (rr_failed_requests r)),
      (''error_rate_pct'', js_double J (rr_error_rate_pct r)),
      (''throughput_rps'', js_double J (rr_throughput_rps r)),
      (''p50_latency_ms'', js_double J (rr_p50_latency_ms r)),
      (''p95_latency_ms'', js_double J (rr_p95_latency_ms r)),
      (''p99_latency_ms'', js_double J (rr_p99_latency_ms r))]"

definition run_json :: "'j Json_Lib \<Rightarrow> Run \<Rightarrow> 'j" where
  "run_json J r = js_object J
     ([(''id'', js_string J (rn_id r)), (''project_id'', js_string J (rn_project_id r)),
       (''scenario_id'', js_string J (rn_scenario_id r)), (''environment'', js_string J (rn_environment r)),
       (''status'', js_string J (run_status_string (rn_status r))),
       (''started_at'', js_string J (time_string (rn_started_at r)))]
      @ (case rn_finished_at r of None \<Rightarrow> [] | Some t \<Rightarrow> [(''finished_at'', js_string J (time_string t))])
      @ (case rn_result r of None \<Rightarrow> [] | Some x \<Rightarrow> [(''result'', result_json J x)]))"

definition rule_json :: "'j Json_Lib \<Rightarrow> PolicyRule \<Rightarrow> 'j" where
  "rule_json J r = js_object J [(''metric'', js_string J (pr_metric r)), (''op'', js_string J (pr_op r)),
     (''threshold'', js_double J (pr_threshold r))]"

definition policy_json :: "'j Json_Lib \<Rightarrow> Policy \<Rightarrow> 'j" where
  "policy_json J p = js_object J
     [(''id'', js_string J (po_id p)), (''project_id'', js_string J (po_project_id p)),
      (''name'', js_string J (po_name p)), (''rules'', js_list J (map (rule_json J) (po_rules p))),
      (''created_at'', js_string J (time_string (po_created_at p)))]"

definition violation_json :: "'j Json_Lib \<Rightarrow> PolicyViolation \<Rightarrow> 'j" where
  "violation_json J v = js_object J [(''metric'', js_string J (pv_rule_metric v)),
     (''message'', js_string J (pv_message v)), (''severity'', js_string J (severity_string (pv_severity v)))]"

definition evaluation_json :: "'j Json_Lib \<Rightarrow> PolicyEvaluation \<Rightarrow> 'j" where
  "evaluation_json J e = js_object J [(''run_id'', js_string J (pe_run_id e)),
     (''policy_id'', js_string J (pe_policy_id e)), (''passed'', js_bool J (pe_passed e)),
     (''violations'', js_list J (map (violation_json J) (pe_violations e)))]"

definition from_json_policy_rule :: "'j Json_Lib \<Rightarrow> 'j \<Rightarrow> cpp_exn + PolicyRule" where
  "from_json_policy_rule J j =
     exn_bind (js_at_string J j ''metric'') (\<lambda>m. exn_bind (js_at_string J j ''op'') (\<lambda>o1.
       exn_bind (js_at_double J j ''threshold'') (\<lambda>t.
         Inr \<lparr>pr_metric = m, pr_op = o1, pr_threshold = t\<rparr>)))"

definition extract_path :: "string \<Rightarrow> string" where
  "extract_path target =
     (case find_char (CHR ''?'') target of
        Some p \<Rightarrow> take p target
      | None \<Rightarrow> (case find_char (CHR ''#'') target of Some p \<Rightarrow> take p target | None \<Rightarrow> target))"

section \<open>Responses\<close>

definition json_response :: "'j Json_Lib \<Rightarrow> nat \<Rightarrow> 'j \<Rightarrow> cpp_exn + HttpResponse" where
  "json_response J status j = exn_bind (js_dump J j) (\<lambda>b.
     Inr \<lparr>hr_status = status, hr_headers = [(''Content-Type'', ''application/json'')], hr_body = b\<rparr>)"

definition error_response :: "'j Json_Lib \<Rightarrow> nat \<Rightarrow> string \<Rightarrow> cpp_exn + HttpResponse" where
  "error_response J status msg = json_response J status (js_object J [(''error'', js_string J msg)])"

definition ok_response :: "'j Json_Lib \<Rightarrow> 'j \<Rightarrow> cpp_exn + HttpResponse" where
  "ok_response J j = json_response J 200 j"

definition created_response :: "'j Json_Lib \<Rightarrow> 'j \<Rightarrow> cpp_exn + HttpResponse" where
  "created_response J j = json_response J 201 j"

definition method_not_allowed_response :: "'j Json_Lib \<Rightarrow> cpp_exn + HttpResponse" where
  "method_not_allowed_response J = error_response J 405 ''method not allowed''"

definition not_found_response :: "'j Json_Lib \<Rightarrow> cpp_exn + HttpResponse" where
  "not_found_response J = error_response J 404 ''not found''"

fun status_to_http :: "PlatformError \<Rightarrow> nat" where
  "status_to_http not_found = 404"
| "status_to_http already_exists = 409"
| "status_to_http invalid_input = 400"
| "status_to_http invalid_state = 409"

fun result_to_response :: "'j Json_Lib \<Rightarrow> ('a \<Rightarrow> 'j) \<Rightarrow> ('a, PlatformError) Result \<Rightarrow> cpp_exn + HttpResponse" where
  "result_to_response J f (err x) = error_response J (status_to_http x) ''error''"
| "result_to_response J f (ok v) = ok_response J (f v)"

text \<open>The tail of the creating handlers: the error text they use, or \<open>201\<close> with the entity.\<close>

fun create_to_response :: "'j Json_Lib \<Rightarrow> string \<Rightarrow> ('a \<Rightarrow> 'j) \<Rightarrow> ('a, PlatformError) Result \<Rightarrow> cpp_exn + HttpResponse" where
  "create_to_response J msg f (err x) = error_response J (status_to_http x) msg"
| "create_to_response J msg f (ok v) = created_response J (f v)"

section \<open>Handlers\<close>

type_synonym reply = "(cpp_exn + HttpResponse) \<times> Repository"

text \<open>\<open>json::parse\<close> without exceptions, the answer to a discarded value, and what follows.\<close>

definition with_json :: "'j Json_Lib \<Rightarrow> string \<Rightarrow> ('j \<Rightarrow> reply) \<Rightarrow> Repository \<Rightarrow> reply" where
  "with_json J body k s =
     (case js_parse J body of
        None \<Rightarrow> (error_response J 400 ''invalid JSON'', s)
      | Some j \<Rightarrow> k j)"

text \<open>Reading a string with an empty default; the exception of the library leaves the handler.\<close>

definition with_value :: "'j Json_Lib \<Rightarrow> 'j \<Rightarrow> string \<Rightarrow> (string \<Rightarrow> reply) \<Rightarrow> Repository \<Rightarrow> reply" where
  "with_value J j key k s =
     (case js_value J j key [] of Inl x \<Rightarrow> (Inl x, s) | Inr v \<Rightarrow> k v)"

definition handle_projects :: "'j Json_Lib \<Rightarrow> Env \<Rightarrow> Verb \<Rightarrow> string \<Rightarrow> Repository \<Rightarrow> reply" where
  "handle_projects J e verb body s =
     (if verb = verb_get then (ok_response J (js_list J (map (project_json J) (list_projects s))), s)
      else if verb = verb_post then
        with_json J body (\<lambda>j.
          with_value J j ''name'' (\<lambda>name. with_value J j ''description'' (\<lambda>desc.
            let (res, s') = create_project e name desc s
            in (create_to_response J ''invalid input'' (project_json J) res, s')) s) s) s
      else (method_not_allowed_response J, s))"

definition handle_project :: "'j Json_Lib \<Rightarrow> Verb \<Rightarrow> string \<Rightarrow> Repository \<Rightarrow> reply" where
  "handle_project J verb key s =
     (if verb = verb_get then (result_to_response J (project_json J) (get_project key s), s)
      else if verb = verb_delete then
        let (res, s') = delete_project key s
        in ((case res of err x \<Rightarrow> error_response J (status_to_http x) ''not found''
             | ok _ \<Rightarrow> ok_response J (js_object J [(''deleted'', js_bool J True)])), s')
      else (method_not_allowed_response J, s))"

definition handle_scenarios :: "'j Json_Lib \<Rightarrow> Env \<Rightarrow> Verb \<Rightarrow> string \<Rightarrow> string \<Rightarrow> Repository \<Rightarrow> reply" where
  "handle_scenarios J e verb project_id body s =
     (if verb = verb_get then (ok_response J (js_list J (map (scenario_json J) (list_scenarios project_id s))), s)
      else if verb = verb_post then
        with_json J body (\<lambda>j.
          with_value J j ''name'' (\<lambda>name. with_value J j ''version'' (\<lambda>version. with_value J j ''yaml'' (\<lambda>yaml.
            let (res, s') = create_scenario e project_id name version yaml s
            in (create_to_response J ''error'' (scenario_json J) res, s')) s) s) s) s
      else (method_not_allowed_response J, s))"

definition handle_runs :: "'j Json_Lib \<Rightarrow> Env \<Rightarrow> Verb \<Rightarrow> string \<Rightarrow> string \<Rightarrow> Repository \<Rightarrow> reply" where
  "handle_runs J e verb project_id body s =
     (if verb = verb_get then (ok_response J (js_list J (map (run_json J) (list_runs project_id s))), s)
      else if verb = verb_post then
        with_json J body (\<lambda>j.
          with_value J j ''scenario_id'' (\<lambda>sc. with_value J j ''environment'' (\<lambda>en.
            let (res, s') = create_run e project_id sc en s
            in (create_to_response J ''error'' (run_json J) res, s')) s) s) s
      else (method_not_allowed_response J, s))"

definition read_rules :: "'j Json_Lib \<Rightarrow> 'j \<Rightarrow> cpp_exn + PolicyRule list" where
  "read_rules J j =
     (if js_contains J j ''rules'' then
        case js_array J j ''rules'' of Some rs \<Rightarrow> exn_map_list (from_json_policy_rule J) rs | None \<Rightarrow> Inr []
      else Inr [])"

definition handle_policies :: "'j Json_Lib \<Rightarrow> Env \<Rightarrow> Verb \<Rightarrow> string \<Rightarrow> string \<Rightarrow> Repository \<Rightarrow> reply" where
  "handle_policies J e verb project_id body s =
     (if verb = verb_get then (ok_response J (js_list J (map (policy_json J) (list_policies project_id s))), s)
      else if verb = verb_post then
        with_json J body (\<lambda>j.
          case read_rules J j of
            Inl x \<Rightarrow> (Inl x, s)
          | Inr rules \<Rightarrow> with_value J j ''name'' (\<lambda>name.
              let (res, s') = create_policy e project_id name rules s
              in (create_to_response J ''error'' (policy_json J) res, s')) s) s
      else (method_not_allowed_response J, s))"

definition handle_evaluate :: "'j Json_Lib \<Rightarrow> Verb \<Rightarrow> string \<Rightarrow> Repository \<Rightarrow> reply" where
  "handle_evaluate J verb body s =
     (if verb \<noteq> verb_post then (method_not_allowed_response J, s)
      else with_json J body (\<lambda>j.
        with_value J j ''run_id'' (\<lambda>run_id. with_value J j ''policy_id'' (\<lambda>policy_id.
          if run_id = [] \<or> policy_id = [] then (error_response J 400 ''run_id and policy_id required'', s)
          else (ok_response J (evaluation_json J
                  (evaluate (\<lambda>i. get_run i s) (\<lambda>i. get_policy i s) run_id policy_id)), s)) s) s) s)"

definition route :: "'j Json_Lib \<Rightarrow> Env \<Rightarrow> Verb \<Rightarrow> string \<Rightarrow> string \<Rightarrow> Repository \<Rightarrow> reply" where
  "route J e verb path body s =
     (let tail =
        (if path = ''/api/v1/evaluate'' then handle_evaluate J verb body s
         else if path = ''/health'' then (ok_response J (js_object J [(''status'', js_string J ''ok'')]), s)
         else (not_found_response J, s))
      in if path = ''/api/v1/projects'' then handle_projects J e verb body s
         else if prefix ''/api/v1/projects/'' path then
           let rest = drop 17 path
           in case find_char (CHR ''/'') rest of
                None \<Rightarrow> handle_project J verb rest s
              | Some slash \<Rightarrow>
                  let project_id = take slash rest; sub = drop slash rest
                  in if sub = ''/scenarios'' then handle_scenarios J e verb project_id body s
                     else if sub = ''/runs'' then handle_runs J e verb project_id body s
                     else if sub = ''/policies'' then handle_policies J e verb project_id body s
                     else tail
         else tail)"

section \<open>Sessions and the accept loop\<close>

record Request =
  rq_verb :: Verb
  rq_target :: string
  rq_body :: string

text \<open>A session whose request could not be read gets no response.\<close>

definition handle_session :: "'j Json_Lib \<Rightarrow> Env \<Rightarrow> Request option \<Rightarrow> Repository
    \<Rightarrow> (cpp_exn + HttpResponse option) \<times> Repository" where
  "handle_session J e req s =
     (case req of
        None \<Rightarrow> (Inr None, s)
      | Some r \<Rightarrow>
          let (res, s') = route J e (rq_verb r) (extract_path (rq_target r)) (rq_body r) s
          in (exn_bind res (\<lambda>h. Inr (Some (h\<lparr>hr_headers := hr_headers h @
                [(''Connection'', ''close''), (''Server'', ''volley-control-plane'')]\<rparr>))), s'))"

datatype Accepted = Would_block | Accept_error | Session Env "Request option"

text \<open>
  The accept loop over what \<open>accept\<close> yields while the server runs. \<open>Inl\<close> when an exception
  leaves the thread (the process terminates); the responses of the sessions in order.
\<close>

fun accept_loop :: "'j Json_Lib \<Rightarrow> Accepted list \<Rightarrow> Repository
    \<Rightarrow> HttpResponse option list \<times> (cpp_exn + Repository)" where
  "accept_loop J [] s = ([], Inr s)"
| "accept_loop J (Would_block # as) s = accept_loop J as s"
| "accept_loop J (Accept_error # as) s = accept_loop J as s"
| "accept_loop J (Session e req # as) s =
     (case handle_session J e req s of
        (Inl x, s') \<Rightarrow> ([], Inl x)
      | (Inr r, s') \<Rightarrow> let (rs, fin) = accept_loop J as s' in (r # rs, fin))"

section \<open>The control-plane command line\<close>

record Config =
  cf_address :: string
  cf_port :: u16
  cf_help :: bool

definition cp_parse_arg :: "string \<Rightarrow> Config \<Rightarrow> cpp_exn + Config" where
  "cp_parse_arg arg cfg =
     (if arg = ''--help'' \<or> arg = ''-h'' then Inr (cfg\<lparr>cf_help := True\<rparr>)
      else if prefix ''--port='' arg then
        exn_bind (stoi (drop 7 arg)) (\<lambda>v. Inr (cfg\<lparr>cf_port := word_of_int v\<rparr>))
      else if prefix ''--address='' arg then Inr (cfg\<lparr>cf_address := drop 10 arg\<rparr>)
      else Inr cfg)"

fun cp_parse_loop :: "string list \<Rightarrow> Config \<Rightarrow> cpp_exn + Config" where
  "cp_parse_loop [] cfg = Inr cfg"
| "cp_parse_loop (a # as) cfg = exn_bind (cp_parse_arg a cfg) (cp_parse_loop as)"

definition cp_parse_args :: "string list \<Rightarrow> cpp_exn + Config" where
  "cp_parse_args argv = cp_parse_loop (tl argv) \<lparr>cf_address = ''0.0.0.0'', cf_port = 8080, cf_help = False\<rparr>"

section \<open>What a request does to the repository\<close>

definition no_finish :: "Rs_Op \<Rightarrow> bool" where
  "no_finish op = (case op of Finish_run _ _ _ _ \<Rightarrow> False | _ \<Rightarrow> True)"

text \<open>A handler leaves the repository alone or runs one operation other than \<open>finish_run\<close>.\<close>

definition benign :: "Repository \<Rightarrow> Repository \<Rightarrow> bool" where
  "benign s s' \<longleftrightarrow> s' = s \<or> (\<exists>op. no_finish op \<and> s' = rs_exec op s)"

lemma benign_refl [simp]: "benign s s"
  by (simp add: benign_def)

lemma benign_exec: "no_finish op \<Longrightarrow> benign s (rs_exec op s)"
  by (auto simp: benign_def)

lemma benign_ops [simp]:
  "benign s (snd (create_project e n d s))" "benign s (snd (delete_project k s))"
  "benign s (snd (create_scenario e p n v y s))" "benign s (snd (create_run e p sc en s))"
  "benign s (snd (create_policy e p n rules s))"
  using benign_exec [of "Create_project e n d"] benign_exec [of "Delete_project k"]
    benign_exec [of "Create_scenario e p n v y"] benign_exec [of "Create_run e p sc en"]
    benign_exec [of "Create_policy e p n rules"]
  by (simp_all add: no_finish_def)

lemma with_json_benign: "(\<And>j. benign s (snd (k j))) \<Longrightarrow> benign s (snd (with_json J body k s))"
  by (auto simp: with_json_def split: option.split)

lemma with_value_benign: "(\<And>v. benign s (snd (k v))) \<Longrightarrow> benign s (snd (with_value J j key k s))"
  by (auto simp: with_value_def split: sum.split)

lemmas benign_intros = with_json_benign with_value_benign

lemma handlers_benign:
  "benign s (snd (handle_projects J e verb body s))" "benign s (snd (handle_project J verb key s))"
  "benign s (snd (handle_scenarios J e verb pid body s))" "benign s (snd (handle_runs J e verb pid body s))"
  "benign s (snd (handle_policies J e verb pid body s))" "benign s (snd (handle_evaluate J verb body s))"
  unfolding handle_projects_def handle_project_def handle_scenarios_def handle_runs_def
    handle_policies_def handle_evaluate_def
  by (auto intro!: benign_intros simp: case_prod_beta split: sum.split)

lemma route_benign: "benign s (snd (route J e verb path body s))"
  by (auto simp: route_def Let_def handlers_benign split: option.split)

lemma session_benign: "benign s (snd (handle_session J e req s))"
  by (auto simp: handle_session_def case_prod_beta route_benign split: option.split)

definition no_results :: "Repository \<Rightarrow> bool" where
  "no_results s \<longleftrightarrow> (\<forall>k r. map_of (rs_runs s) k = Some r \<longrightarrow> rn_result r = None)"

lemma exec_no_results: "no_finish op \<Longrightarrow> rs_inv s \<Longrightarrow> no_results s \<Longrightarrow> no_results (rs_exec op s)"
proof (cases op)
  case (Delete_project p)
  assume a: "rs_inv s" "no_results s"
  have "map_of (filter (\<lambda>p'. rn_project_id (snd p') \<noteq> p) (rs_runs s)) k = Some r
      \<Longrightarrow> map_of (rs_runs s) k = Some r" for k r
    using a(1) by (auto simp: rs_inv_def keyed_def dest!: map_of_SomeD intro!: map_of_is_SomeI)
  with a(2) show ?thesis
    unfolding Delete_project no_results_def
    by (auto simp: delete_project_def split: option.splits)
qed (auto simp: no_finish_def no_results_def create_project_def create_scenario_def create_run_def
    create_policy_def insert_scenario_def insert_run_def insert_policy_def Let_def frame_simps
    split: option.splits if_splits)

lemma benign_inv: "benign s s' \<Longrightarrow> rs_inv s \<Longrightarrow> rs_inv s'"
  by (auto simp: benign_def rs_exec_inv)

lemma benign_no_results: "benign s s' \<Longrightarrow> rs_inv s \<Longrightarrow> no_results s \<Longrightarrow> no_results s'"
  by (auto simp: benign_def exec_no_results)

lemma accept_loop_inv:
  "accept_loop J as s = (rs, Inr s') \<Longrightarrow> rs_inv s \<Longrightarrow> no_results s \<Longrightarrow> rs_inv s' \<and> no_results s'"
proof (induction J as s arbitrary: rs rule: accept_loop.induct)
  case (4 J e req as s)
  obtain r s1 where h: "handle_session J e req s = (r, s1)" by (cases "handle_session J e req s")
  then have b: "benign s s1" using session_benign [of s J e req] by simp
  from 4(2) h obtain v rs' where "r = Inr v" "accept_loop J as s1 = (rs', Inr s')"
    by (auto split: sum.splits prod.splits)
  with 4(1) [OF h [symmetric], of v] benign_inv [OF b 4(3)] benign_no_results [OF b 4(3,4)]
  show ?case by auto
qed auto

text \<open>What a response with a status was made from.\<close>

lemma json_response_Inr: "json_response J st j = Inr h \<Longrightarrow> hr_status h = st \<and> js_dump J j = Inr (hr_body h)"
  by (cases "js_dump J j") (auto simp: json_response_def)

lemmas response_defs = error_response_def ok_response_def created_response_def method_not_allowed_response_def not_found_response_def

lemma status_to_http_error: "status_to_http x \<in> {400, 404, 409}"
  by (cases x) simp_all

lemma result_to_response_Inr: "result_to_response J f res = Inr h \<Longrightarrow> hr_status h \<noteq> 201"
proof (cases res)
  case (err x)
  assume "result_to_response J f res = Inr h"
  then have "hr_status h = status_to_http x" using err by (auto simp: response_defs dest: json_response_Inr)
  with status_to_http_error [of x] show ?thesis by auto
qed (auto simp: response_defs dest: json_response_Inr)

lemma create_to_response_Inr:
  assumes "create_to_response J msg f res = Inr h"
  obtains (refused) x where "res = err x" "hr_status h \<in> {400, 404, 409}"
    | (made) v where "res = ok v" "hr_status h = 201" "js_dump J (f v) = Inr (hr_body h)"
proof (cases res)
  case (ok v)
  with assms made show ?thesis by (auto simp: response_defs dest: json_response_Inr)
next
  case (err x)
  then have "hr_status h = status_to_http x" using assms by (auto simp: response_defs dest: json_response_Inr)
  with status_to_http_error [of x] err refused show ?thesis by auto
qed

section \<open>What a request does\<close>

text \<open>A path that answers \<open>GET\<close> with status 200 and the document \<open>j\<close>.\<close>

definition answers :: "'j Json_Lib \<Rightarrow> Repository \<Rightarrow> string \<Rightarrow> 'j \<Rightarrow> bool" where
  "answers J s path j \<longleftrightarrow> (\<forall>e body. route J e verb_get path body s = (json_response J 200 j, s))"

text \<open>
  What a \<open>POST\<close> of the document \<open>j\<close> to a path has made when it is answered with the body \<open>b\<close>: a project, or a scenario, run or policy of the
  project in the path, with the fields of the document. It is stored, the body shows it, and a \<open>GET\<close> finds it.
\<close>

definition made_project :: "'j Json_Lib \<Rightarrow> 'j \<Rightarrow> string \<Rightarrow> string \<Rightarrow> Repository \<Rightarrow> bool" where
  "made_project J j path b s \<longleftrightarrow> (\<exists>p. path = ''/api/v1/projects'' \<and> js_value J j ''name'' [] = Inr (pj_name p) \<and> pj_name p \<noteq> []
     \<and> js_value J j ''description'' [] = Inr (pj_description p) \<and> js_dump J (project_json J p) = Inr b
     \<and> get_project (pj_id p) s = ok p \<and> answers J s (''/api/v1/projects/'' @ pj_id p) (project_json J p))"

definition made_scenario :: "'j Json_Lib \<Rightarrow> 'j \<Rightarrow> string \<Rightarrow> string \<Rightarrow> Repository \<Rightarrow> bool" where
  "made_scenario J j path b s \<longleftrightarrow> (\<exists>sc. path = ''/api/v1/projects/'' @ sn_project_id sc @ ''/scenarios'' \<and> has_project s (sn_project_id sc)
     \<and> js_value J j ''name'' [] = Inr (sn_name sc) \<and> sn_name sc \<noteq> [] \<and> js_value J j ''version'' [] = Inr (sn_version sc)
     \<and> js_value J j ''yaml'' [] = Inr (sn_yaml_content sc) \<and> js_dump J (scenario_json J sc) = Inr b
     \<and> get_scenario (sn_id sc) s = ok sc \<and> sc \<in> set (list_scenarios (sn_project_id sc) s)
     \<and> answers J s path (js_list J (map (scenario_json J) (list_scenarios (sn_project_id sc) s))))"

definition made_run :: "'j Json_Lib \<Rightarrow> 'j \<Rightarrow> string \<Rightarrow> string \<Rightarrow> Repository \<Rightarrow> bool" where
  "made_run J j path b s \<longleftrightarrow> (\<exists>r. path = ''/api/v1/projects/'' @ rn_project_id r @ ''/runs'' \<and> has_project s (rn_project_id r)
     \<and> js_value J j ''scenario_id'' [] = Inr (rn_scenario_id r) \<and> js_value J j ''environment'' [] = Inr (rn_environment r)
     \<and> rn_status r = pending \<and> rn_result r = None \<and> js_dump J (run_json J r) = Inr b
     \<and> get_run (rn_id r) s = ok r \<and> r \<in> set (list_runs (rn_project_id r) s)
     \<and> answers J s path (js_list J (map (run_json J) (list_runs (rn_project_id r) s))))"

definition made_policy :: "'j Json_Lib \<Rightarrow> 'j \<Rightarrow> string \<Rightarrow> string \<Rightarrow> Repository \<Rightarrow> bool" where
  "made_policy J j path b s \<longleftrightarrow> (\<exists>p. path = ''/api/v1/projects/'' @ po_project_id p @ ''/policies'' \<and> has_project s (po_project_id p)
     \<and> js_value J j ''name'' [] = Inr (po_name p) \<and> po_name p \<noteq> [] \<and> read_rules J j = Inr (po_rules p) \<and> po_rules p \<noteq> []
     \<and> js_dump J (policy_json J p) = Inr b \<and> get_policy (po_id p) s = ok p \<and> p \<in> set (list_policies (po_project_id p) s)
     \<and> answers J s path (js_list J (map (policy_json J) (list_policies (po_project_id p) s))))"

definition removed_project :: "'j Json_Lib \<Rightarrow> string \<Rightarrow> Repository \<Rightarrow> Repository \<Rightarrow> bool" where
  "removed_project J path s s' \<longleftrightarrow> (\<exists>k. path = ''/api/v1/projects/'' @ k \<and> has_project s k \<and> get_project k s' = err not_found
     \<and> list_scenarios k s' = [] \<and> list_runs k s' = [] \<and> list_policies k s' = []
     \<and> (\<forall>e body. route J e verb_get path body s' = (error_response J 404 ''error'', s')))"

definition evaluated :: "'j Json_Lib \<Rightarrow> string \<Rightarrow> string \<Rightarrow> Repository \<Rightarrow> bool" where
  "evaluated J body b s \<longleftrightarrow> (\<exists>j r p. js_parse J body = Some j \<and> js_value J j ''run_id'' [] = Inr r \<and> r \<noteq> []
     \<and> js_value J j ''policy_id'' [] = Inr p \<and> p \<noteq> []
     \<and> js_dump J (evaluation_json J (evaluate (\<lambda>i. get_run i s) (\<lambda>i. get_policy i s) r p)) = Inr b)"

text \<open>The documents a path takes: what they must hold to be made into a project, a scenario, a run or a policy.\<close>

definition wants_project :: "'j Json_Lib \<Rightarrow> 'j \<Rightarrow> bool" where
  "wants_project J j \<longleftrightarrow> js_value J j ''name'' [] \<noteq> Inr []"

definition wants_scenario :: "'j Json_Lib \<Rightarrow> 'j \<Rightarrow> string \<Rightarrow> Repository \<Rightarrow> bool" where
  "wants_scenario J j pid s \<longleftrightarrow> pid \<noteq> [] \<and> has_project s pid \<and> js_value J j ''name'' [] \<noteq> Inr []"

definition wants_run :: "string \<Rightarrow> Repository \<Rightarrow> bool" where
  "wants_run pid s \<longleftrightarrow> pid \<noteq> [] \<and> has_project s pid"

definition wants_policy :: "'j Json_Lib \<Rightarrow> 'j \<Rightarrow> string \<Rightarrow> Repository \<Rightarrow> bool" where
  "wants_policy J j pid s \<longleftrightarrow> pid \<noteq> [] \<and> has_project s pid \<and> js_value J j ''name'' [] \<noteq> Inr [] \<and> read_rules J j \<noteq> Inr []"

definition wanted :: "'j Json_Lib \<Rightarrow> 'j \<Rightarrow> string \<Rightarrow> Repository \<Rightarrow> bool" where
  "wanted J j path s \<longleftrightarrow> path = ''/api/v1/projects'' \<and> wants_project J j
     \<or> (\<exists>pid. CHR ''/'' \<notin> set pid \<and> (path = ''/api/v1/projects/'' @ pid @ ''/scenarios'' \<and> wants_scenario J j pid s
         \<or> path = ''/api/v1/projects/'' @ pid @ ''/runs'' \<and> wants_run pid s
         \<or> path = ''/api/v1/projects/'' @ pid @ ''/policies'' \<and> wants_policy J j pid s))"

text \<open>Ids are hexadecimal, so that the path of a project is its own.\<close>

lemma digit_char_not_slash: "d < 16 \<Longrightarrow> digit_char d \<noteq> CHR ''/''"
proof
  assume "d < 16" "digit_char d = CHR ''/''"
  then have "(of_char (digit_char d) :: nat) = 47" by simp
  moreover have "(of_char (digit_char d) :: nat) = (if d < 10 then 48 + d else 87 + d)" using \<open>d < 16\<close> by (simp add: digit_char_def)
  ultimately show False by (simp split: if_splits)
qed

lemma hex_pad_not_slash: "CHR ''/'' \<notin> set (hex_pad w n)"
proof (induction w arbitrary: n)
  case (Suc w)
  have "digit_char (n mod 16) \<noteq> CHR ''/''" by (rule digit_char_not_slash) simp
  with Suc show ?case by auto
qed simp

lemma generate_id_not_slash: "CHR ''/'' \<notin> set (generate_id e seq)"
  by (simp add: generate_id_def hex_pad_not_slash)

lemma update_stored: "x \<in> set (map snd (AList.update k x m))"
  using map_of_SomeD [of "AList.update k x m" k x] by (force simp: update_conv)

lemma with_json_Inr:
  assumes "with_json J body k s = (Inr h, s')"
  obtains (discarded) "js_parse J body = None" "hr_status h = 400" "s' = s" | (parsed) j where "js_parse J body = Some j" "k j = (Inr h, s')"
  using assms by (cases "js_parse J body") (auto simp: with_json_def response_defs dest: json_response_Inr)

lemma with_value_Inr: "with_value J j key k s = (Inr h, s') \<longleftrightarrow> (\<exists>v. js_value J j key [] = Inr v \<and> k v = (Inr h, s'))"
  by (cases "js_value J j key []") (auto simp: with_value_def)

text \<open>What the creating operations of the repository return and store.\<close>

lemma create_project_ok:
  "create_project e n d s = (ok p, s') \<Longrightarrow> pj_name p = n \<and> n \<noteq> [] \<and> pj_description p = d \<and> get_project (pj_id p) s' = ok p
     \<and> CHR ''/'' \<notin> set (pj_id p)"
  by (auto simp: create_project_def get_project_def Let_def generate_id_not_slash split: if_splits)

lemma create_scenario_ok:
  "create_scenario e pid n v y s = (ok sc, s') \<Longrightarrow> sn_project_id sc = pid \<and> sn_name sc = n \<and> n \<noteq> [] \<and> sn_version sc = v \<and> sn_yaml_content sc = y
     \<and> has_project s' pid \<and> get_scenario (sn_id sc) s' = ok sc \<and> sc \<in> set (list_scenarios pid s')"
  using update_stored
  by (auto simp: create_scenario_def project_check_None insert_scenario_def get_scenario_def list_scenarios_def newest_first_def
      has_project_def Let_def frame_simps split: option.splits)

lemma create_run_ok:
  "create_run e pid sc en s = (ok r, s') \<Longrightarrow> rn_project_id r = pid \<and> rn_scenario_id r = sc \<and> rn_environment r = en \<and> rn_status r = pending
     \<and> rn_result r = None \<and> has_project s' pid \<and> get_run (rn_id r) s' = ok r \<and> r \<in> set (list_runs pid s')"
  using update_stored
  by (auto simp: create_run_def project_check_None insert_run_def get_run_def list_runs_def newest_first_def
      has_project_def Let_def frame_simps split: option.splits)

lemma create_policy_ok:
  "create_policy e pid n rules s = (ok p, s') \<Longrightarrow> po_project_id p = pid \<and> po_name p = n \<and> n \<noteq> [] \<and> po_rules p = rules \<and> rules \<noteq> []
     \<and> has_project s' pid \<and> get_policy (po_id p) s' = ok p \<and> p \<in> set (list_policies pid s')"
  using update_stored
  by (auto simp: create_policy_def project_check_None insert_policy_def get_policy_def list_policies_def
      has_project_def Let_def frame_simps split: option.splits)

lemma create_err:
  "create_project e n d s = (err x, s') \<Longrightarrow> s' = s \<and> n = []"
  "create_scenario e pid n v y s = (err x, s') \<Longrightarrow> s' = s \<and> \<not> (pid \<noteq> [] \<and> n \<noteq> [] \<and> has_project s pid)"
  "create_run e pid sc en s = (err x, s') \<Longrightarrow> s' = s \<and> \<not> (pid \<noteq> [] \<and> has_project s pid)"
  "create_policy e pid n rules s = (err x, s') \<Longrightarrow> s' = s \<and> \<not> (pid \<noteq> [] \<and> n \<noteq> [] \<and> rules \<noteq> [] \<and> has_project s pid)"
  by (auto simp: create_project_def create_scenario_def create_run_def create_policy_def project_check_def has_project_def Let_def map_prod_def
      split: if_splits option.splits prod.splits)

lemma create_then: "(case p of (res, t) \<Rightarrow> (f res, t)) = (a, b) \<longleftrightarrow> (\<exists>res. p = (res, b) \<and> f res = a)"
  by (cases p) auto

text \<open>The paths.\<close>

lemma find_char_here: "c \<notin> set a \<Longrightarrow> find_char c (a @ c # b) = Some (length a)"
  by (simp add: find_char_Some nth_append)

lemma route_sub:
  assumes "CHR ''/'' \<notin> set pid"
  shows "route J e verb (''/api/v1/projects/'' @ pid @ ''/scenarios'') body s = handle_scenarios J e verb pid body s"
    "route J e verb (''/api/v1/projects/'' @ pid @ ''/runs'') body s = handle_runs J e verb pid body s"
    "route J e verb (''/api/v1/projects/'' @ pid @ ''/policies'') body s = handle_policies J e verb pid body s"
    "route J e verb (''/api/v1/projects/'' @ pid) body s = handle_project J verb pid s"
  using assms find_char_None [of "CHR ''/''" pid] by (simp_all add: route_def Let_def find_char_here)

lemma route_cases:
  obtains (projects) "path = ''/api/v1/projects''" "route J e verb path body s = handle_projects J e verb body s"
    | (project) k where "CHR ''/'' \<notin> set k" "path = ''/api/v1/projects/'' @ k" "route J e verb path body s = handle_project J verb k s"
    | (scenarios) pid where "CHR ''/'' \<notin> set pid" "path = ''/api/v1/projects/'' @ pid @ ''/scenarios''"
        "route J e verb path body s = handle_scenarios J e verb pid body s"
    | (runs) pid where "CHR ''/'' \<notin> set pid" "path = ''/api/v1/projects/'' @ pid @ ''/runs''"
        "route J e verb path body s = handle_runs J e verb pid body s"
    | (policies) pid where "CHR ''/'' \<notin> set pid" "path = ''/api/v1/projects/'' @ pid @ ''/policies''"
        "route J e verb path body s = handle_policies J e verb pid body s"
    | (evaluate) "path = ''/api/v1/evaluate''" "route J e verb path body s = handle_evaluate J verb body s"
    | (health) "path = ''/health''" "route J e verb path body s = (ok_response J (js_object J [(''status'', js_string J ''ok'')]), s)"
    | (nowhere) "route J e verb path body s = (not_found_response J, s)"
proof (cases "prefix ''/api/v1/projects/'' path")
  case True
  then obtain rest where p: "path = ''/api/v1/projects/'' @ rest" by (auto simp: prefix_def)
  show ?thesis
  proof (cases "find_char (CHR ''/'') rest")
    case None
    then have n: "CHR ''/'' \<notin> set rest" by (simp add: find_char_None)
    show ?thesis by (rule project [OF n p]) (simp only: p route_sub(4) [OF n])
  next
    case (Some i)
    define pid where "pid = take i rest"
    have r: "CHR ''/'' \<notin> set pid" "rest = pid @ drop i rest" using Some by (auto simp: pid_def find_char_Some)
    consider "drop i rest = ''/scenarios''" | "drop i rest = ''/runs''" | "drop i rest = ''/policies''"
      | "drop i rest \<notin> {''/scenarios'', ''/runs'', ''/policies''}" by blast
    then show ?thesis
    proof cases
      case 1
      with p r have q: "path = ''/api/v1/projects/'' @ pid @ ''/scenarios''" by simp
      show ?thesis by (rule scenarios [OF r(1) q]) (simp only: q route_sub(1) [OF r(1)])
    next
      case 2
      with p r have q: "path = ''/api/v1/projects/'' @ pid @ ''/runs''" by simp
      show ?thesis by (rule runs [OF r(1) q]) (simp only: q route_sub(2) [OF r(1)])
    next
      case 3
      with p r have q: "path = ''/api/v1/projects/'' @ pid @ ''/policies''" by simp
      show ?thesis by (rule policies [OF r(1) q]) (simp only: q route_sub(3) [OF r(1)])
    next
      case 4
      then have "route J e verb path body s = (not_found_response J, s)" using Some by (auto simp: route_def Let_def p)
      then show ?thesis by (rule nowhere)
    qed
  qed
next
  case False
  consider "path = ''/api/v1/projects''" | "path = ''/api/v1/evaluate''" | "path = ''/health''"
    | "path \<noteq> ''/api/v1/projects''" "path \<noteq> ''/api/v1/evaluate''" "path \<noteq> ''/health''" by blast
  then show ?thesis
  proof cases
    case 1
    then show ?thesis by (intro projects) (simp_all add: route_def)
  next
    case 2
    then show ?thesis by (intro evaluate) (simp_all add: route_def)
  next
    case 3
    then show ?thesis by (intro health) (simp_all add: route_def)
  next
    case 4
    with False show ?thesis by (intro nowhere) (simp add: route_def)
  qed
qed

lemmas answers_simps = answers_def route_sub handle_project_def handle_scenarios_def handle_runs_def handle_policies_def ok_response_def

lemma projects_effect:
  assumes "handle_projects J e verb body s = (Inr h, s')"
  shows "s' = s \<and> hr_status h \<noteq> 201 \<and> (\<forall>j. verb = verb_post \<and> js_parse J body = Some j \<longrightarrow> \<not> wants_project J j)
     \<or> verb = verb_post \<and> hr_status h = 201 \<and> (\<exists>j. js_parse J body = Some j \<and> made_project J j ''/api/v1/projects'' (hr_body h) s')"
proof (cases "verb = verb_post")
  case False
  then show ?thesis using assms(1) by (auto simp: handle_projects_def response_defs split: if_splits dest!: json_response_Inr)
next
  case True
  then have "with_json J body (\<lambda>j. with_value J j ''name'' (\<lambda>name. with_value J j ''description'' (\<lambda>desc.
      let (res, s') = create_project e name desc s in (create_to_response J ''invalid input'' (project_json J) res, s')) s) s) s = (Inr h, s')"
    using assms(1) by (simp add: handle_projects_def)
  then show ?thesis
  proof (cases rule: with_json_Inr)
    case (parsed j)
    then obtain n d res where v: "js_value J j ''name'' [] = Inr n" "js_value J j ''description'' [] = Inr d"
      "create_project e n d s = (res, s')" "create_to_response J ''invalid input'' (project_json J) res = Inr h"
      by (auto simp: with_value_Inr create_then)
    from v(4) show ?thesis
    proof (cases rule: create_to_response_Inr)
      case (refused x)
      then show ?thesis using create_err(1) v parsed(1) by (fastforce simp: wants_project_def)
    next
      case (made p)
      with v(3) have "create_project e n d s = (ok p, s')" by simp
      note k = create_project_ok [OF this]
      from k have "answers J s' (''/api/v1/projects/'' @ pj_id p) (project_json J p)" by (simp add: answers_simps del: append_Cons)
      with k v(1,2) made have "made_project J j ''/api/v1/projects'' (hr_body h) s'" unfolding made_project_def by (intro exI [of _ p]) (simp del: append_Cons)
      with True made parsed show ?thesis by blast
    qed
  qed simp
qed

lemma scenarios_effect:
  assumes "handle_scenarios J e verb pid body s = (Inr h, s')" "CHR ''/'' \<notin> set pid"
  shows "s' = s \<and> hr_status h \<noteq> 201 \<and> (\<forall>j. verb = verb_post \<and> js_parse J body = Some j \<longrightarrow> \<not> wants_scenario J j pid s)
     \<or> verb = verb_post \<and> hr_status h = 201 \<and> (\<exists>j. js_parse J body = Some j \<and> made_scenario J j (''/api/v1/projects/'' @ pid @ ''/scenarios'') (hr_body h) s')"
proof (cases "verb = verb_post")
  case False
  then show ?thesis using assms(1) by (auto simp: handle_scenarios_def response_defs split: if_splits dest!: json_response_Inr)
next
  case True
  then have "with_json J body (\<lambda>j. with_value J j ''name'' (\<lambda>name. with_value J j ''version'' (\<lambda>version. with_value J j ''yaml'' (\<lambda>yaml.
      let (res, s') = create_scenario e pid name version yaml s in (create_to_response J ''error'' (scenario_json J) res, s')) s) s) s) s = (Inr h, s')"
    using assms(1) by (simp add: handle_scenarios_def)
  then show ?thesis
  proof (cases rule: with_json_Inr)
    case (parsed j)
    then obtain n vs y res where v: "js_value J j ''name'' [] = Inr n" "js_value J j ''version'' [] = Inr vs" "js_value J j ''yaml'' [] = Inr y"
      "create_scenario e pid n vs y s = (res, s')" "create_to_response J ''error'' (scenario_json J) res = Inr h"
      by (auto simp: with_value_Inr create_then)
    from v(5) show ?thesis
    proof (cases rule: create_to_response_Inr)
      case (refused x)
      then show ?thesis using create_err(2) v parsed(1) by (fastforce simp: wants_scenario_def)
    next
      case (made p)
      with v(4) have "create_scenario e pid n vs y s = (ok p, s')" by simp
      note k = create_scenario_ok [OF this]
      have "answers J s' (''/api/v1/projects/'' @ pid @ ''/scenarios'') (js_list J (map (scenario_json J) (list_scenarios pid s')))"
        using assms(2) by (simp add: answers_simps del: append_Cons)
      with k v(1-3) made have "made_scenario J j (''/api/v1/projects/'' @ pid @ ''/scenarios'') (hr_body h) s'" unfolding made_scenario_def by (intro exI [of _ p]) (simp del: append_Cons)
      with True made parsed show ?thesis by blast
    qed
  qed simp
qed

lemma runs_effect:
  assumes "handle_runs J e verb pid body s = (Inr h, s')" "CHR ''/'' \<notin> set pid"
  shows "s' = s \<and> hr_status h \<noteq> 201 \<and> (\<forall>j. verb = verb_post \<and> js_parse J body = Some j \<longrightarrow> \<not> wants_run pid s)
     \<or> verb = verb_post \<and> hr_status h = 201 \<and> (\<exists>j. js_parse J body = Some j \<and> made_run J j (''/api/v1/projects/'' @ pid @ ''/runs'') (hr_body h) s')"
proof (cases "verb = verb_post")
  case False
  then show ?thesis using assms(1) by (auto simp: handle_runs_def response_defs split: if_splits dest!: json_response_Inr)
next
  case True
  then have "with_json J body (\<lambda>j. with_value J j ''scenario_id'' (\<lambda>sc. with_value J j ''environment'' (\<lambda>en.
      let (res, s') = create_run e pid sc en s in (create_to_response J ''error'' (run_json J) res, s')) s) s) s = (Inr h, s')"
    using assms(1) by (simp add: handle_runs_def)
  then show ?thesis
  proof (cases rule: with_json_Inr)
    case (parsed j)
    then obtain sc en res where v: "js_value J j ''scenario_id'' [] = Inr sc" "js_value J j ''environment'' [] = Inr en"
      "create_run e pid sc en s = (res, s')" "create_to_response J ''error'' (run_json J) res = Inr h"
      by (auto simp: with_value_Inr create_then)
    from v(4) show ?thesis
    proof (cases rule: create_to_response_Inr)
      case (refused x)
      then show ?thesis using create_err(3) v parsed(1) by (fastforce simp: wants_run_def)
    next
      case (made p)
      with v(3) have "create_run e pid sc en s = (ok p, s')" by simp
      note k = create_run_ok [OF this]
      have "answers J s' (''/api/v1/projects/'' @ pid @ ''/runs'') (js_list J (map (run_json J) (list_runs pid s')))"
        using assms(2) by (simp add: answers_simps del: append_Cons)
      with k v(1,2) made have "made_run J j (''/api/v1/projects/'' @ pid @ ''/runs'') (hr_body h) s'" unfolding made_run_def by (intro exI [of _ p]) (simp del: append_Cons)
      with True made parsed show ?thesis by blast
    qed
  qed simp
qed

lemma policies_effect:
  assumes "handle_policies J e verb pid body s = (Inr h, s')" "CHR ''/'' \<notin> set pid"
  shows "s' = s \<and> hr_status h \<noteq> 201 \<and> (\<forall>j. verb = verb_post \<and> js_parse J body = Some j \<longrightarrow> \<not> wants_policy J j pid s)
     \<or> verb = verb_post \<and> hr_status h = 201 \<and> (\<exists>j. js_parse J body = Some j \<and> made_policy J j (''/api/v1/projects/'' @ pid @ ''/policies'') (hr_body h) s')"
proof (cases "verb = verb_post")
  case False
  then show ?thesis using assms(1) by (auto simp: handle_policies_def response_defs split: if_splits dest!: json_response_Inr)
next
  case True
  then have "with_json J body (\<lambda>j. case read_rules J j of Inl x \<Rightarrow> (Inl x, s) | Inr rules \<Rightarrow> with_value J j ''name'' (\<lambda>name.
      let (res, s') = create_policy e pid name rules s in (create_to_response J ''error'' (policy_json J) res, s')) s) s = (Inr h, s')"
    using assms(1) by (simp add: handle_policies_def)
  then show ?thesis
  proof (cases rule: with_json_Inr)
    case (parsed j)
    then obtain rules n res where v: "read_rules J j = Inr rules" "js_value J j ''name'' [] = Inr n"
      "create_policy e pid n rules s = (res, s')" "create_to_response J ''error'' (policy_json J) res = Inr h"
      by (auto simp: with_value_Inr create_then split: sum.splits)
    from v(4) show ?thesis
    proof (cases rule: create_to_response_Inr)
      case (refused x)
      then show ?thesis using create_err(4) v parsed(1) by (fastforce simp: wants_policy_def)
    next
      case (made p)
      with v(3) have "create_policy e pid n rules s = (ok p, s')" by simp
      note k = create_policy_ok [OF this]
      have "answers J s' (''/api/v1/projects/'' @ pid @ ''/policies'') (js_list J (map (policy_json J) (list_policies pid s')))"
        using assms(2) by (simp add: answers_simps del: append_Cons)
      with k v(1,2) made have "made_policy J j (''/api/v1/projects/'' @ pid @ ''/policies'') (hr_body h) s'" unfolding made_policy_def by (intro exI [of _ p]) (simp del: append_Cons)
      with True made parsed show ?thesis by blast
    qed
  qed simp
qed

lemma project_effect:
  assumes "handle_project J verb k s = (Inr h, s')" "CHR ''/'' \<notin> set k"
  shows "hr_status h \<noteq> 201 \<and> (s' = s \<and> \<not> (verb = verb_delete \<and> (hr_status h = 200 \<or> has_project s k))
     \<or> verb = verb_delete \<and> hr_status h = 200 \<and> removed_project J (''/api/v1/projects/'' @ k) s s')"
proof (cases "verb = verb_delete \<and> has_project s k")
  case True
  then obtain p where p: "map_of (rs_projects s) k = Some p" by (auto simp: has_project_def)
  with True assms(1) have h: "ok_response J (js_object J [(''deleted'', js_bool J True)]) = Inr h" and s': "s' = snd (delete_project k s)"
    by (simp_all add: handle_project_def delete_project_def)
  have g: "get_project k s' = err not_found" using p by (simp add: s' delete_project_def get_project_def map_of_delete)
  have "list_scenarios k s' = []" "list_runs k s' = []" "list_policies k s' = []"
    using p by (simp_all add: s' delete_project_def list_scenarios_def list_runs_def list_policies_def newest_first_def filter_map o_def)
  moreover from g have "route J e verb_get (''/api/v1/projects/'' @ k) body s' = (error_response J 404 ''error'', s')" for e body
    by (simp add: route_sub(4) [OF assms(2)] handle_project_def del: append_Cons)
  ultimately have "removed_project J (''/api/v1/projects/'' @ k) s s'" unfolding removed_project_def using True g by blast
  with True h show ?thesis by (auto simp: ok_response_def dest: json_response_Inr)
next
  case False
  with assms(1) show ?thesis
    by (auto simp: handle_project_def delete_project_def has_project_def response_defs split: if_splits option.splits
        dest: json_response_Inr result_to_response_Inr)
qed

lemma evaluate_effect:
  assumes "handle_evaluate J verb body s = (Inr h, s')"
  shows "s' = s \<and> (hr_status h \<in> {400, 405} \<or> verb = verb_post \<and> hr_status h = 200 \<and> evaluated J body (hr_body h) s)"
proof (cases "verb = verb_post")
  case True
  with assms show ?thesis unfolding handle_evaluate_def
    by (auto elim!: with_json_Inr simp: with_value_Inr evaluated_def response_defs split: if_splits dest!: json_response_Inr)
qed (use assms in \<open>auto simp: handle_evaluate_def response_defs dest!: json_response_Inr\<close>)

lemma wanted_made:
  assumes "route J e verb_post path body s = (Inr h, s')" "js_parse J body = Some j" "wanted J j path s"
  shows "hr_status h = 201"
  using assms(3) unfolding wanted_def
proof (elim disjE conjE exE)
  assume "path = ''/api/v1/projects''" "wants_project J j"
  with assms(1,2) show ?thesis using projects_effect [of J e verb_post body s h s'] by (auto simp: route_def)
next
  fix pid assume n: "CHR ''/'' \<notin> set pid" and p: "path = ''/api/v1/projects/'' @ pid @ ''/scenarios''" and w: "wants_scenario J j pid s"
  from assms(1) have "handle_scenarios J e verb_post pid body s = (Inr h, s')" by (simp only: p route_sub(1) [OF n])
  from scenarios_effect [OF this n] assms(2) w show ?thesis by blast
next
  fix pid assume n: "CHR ''/'' \<notin> set pid" and p: "path = ''/api/v1/projects/'' @ pid @ ''/runs''" and w: "wants_run pid s"
  from assms(1) have "handle_runs J e verb_post pid body s = (Inr h, s')" by (simp only: p route_sub(2) [OF n])
  from runs_effect [OF this n] assms(2) w show ?thesis by blast
next
  fix pid assume n: "CHR ''/'' \<notin> set pid" and p: "path = ''/api/v1/projects/'' @ pid @ ''/policies''" and w: "wants_policy J j pid s"
  from assms(1) have "handle_policies J e verb_post pid body s = (Inr h, s')" by (simp only: p route_sub(3) [OF n])
  from policies_effect [OF this n] assms(2) w show ?thesis by blast
qed

text \<open>What one request does, whatever its path: nothing, or one thing made, or one project removed.\<close>

definition made :: "'j Json_Lib \<Rightarrow> 'j \<Rightarrow> string \<Rightarrow> string \<Rightarrow> Repository \<Rightarrow> bool" where
  "made J j path b s \<longleftrightarrow> made_project J j path b s \<or> made_scenario J j path b s \<or> made_run J j path b s \<or> made_policy J j path b s"

lemma route_effect:
  assumes "route J e verb path body s = (Inr h, s')"
  shows "s' = s \<and> hr_status h \<noteq> 201 \<and> (verb = verb_delete \<and> hr_status h = 200 \<longrightarrow> path = ''/health'')
     \<or> verb = verb_post \<and> hr_status h = 201 \<and> (\<exists>j. js_parse J body = Some j \<and> made J j path (hr_body h) s')
     \<or> verb = verb_delete \<and> hr_status h = 200 \<and> removed_project J path s s'"
proof (cases rule: route_cases [of path J e verb body s])
  case projects
  have h: "handle_projects J e verb body s = (Inr h, s')" using assms unfolding projects(2) .
  then have "verb = verb_delete \<Longrightarrow> hr_status h \<noteq> 200" by (auto simp: handle_projects_def response_defs dest!: json_response_Inr)
  with projects_effect [OF h, folded projects(1)] show ?thesis unfolding made_def by blast
next
  case (project k)
  have h: "handle_project J verb k s = (Inr h, s')" using assms unfolding project(3) .
  from project_effect [OF h project(1), folded project(2)] show ?thesis by blast
next
  case (scenarios pid)
  have h: "handle_scenarios J e verb pid body s = (Inr h, s')" using assms unfolding scenarios(3) .
  then have "verb = verb_delete \<Longrightarrow> hr_status h \<noteq> 200" by (auto simp: handle_scenarios_def response_defs dest!: json_response_Inr)
  with scenarios_effect [OF h scenarios(1), folded scenarios(2)] show ?thesis unfolding made_def by blast
next
  case (runs pid)
  have h: "handle_runs J e verb pid body s = (Inr h, s')" using assms unfolding runs(3) .
  then have "verb = verb_delete \<Longrightarrow> hr_status h \<noteq> 200" by (auto simp: handle_runs_def response_defs dest!: json_response_Inr)
  with runs_effect [OF h runs(1), folded runs(2)] show ?thesis unfolding made_def by blast
next
  case (policies pid)
  have h: "handle_policies J e verb pid body s = (Inr h, s')" using assms unfolding policies(3) .
  then have "verb = verb_delete \<Longrightarrow> hr_status h \<noteq> 200" by (auto simp: handle_policies_def response_defs dest!: json_response_Inr)
  with policies_effect [OF h policies(1), folded policies(2)] show ?thesis unfolding made_def by blast
next
  case evaluate
  have h: "handle_evaluate J verb body s = (Inr h, s')" using assms unfolding evaluate(2) .
  from evaluate_effect [OF h] show ?thesis by (elim conjE disjE) auto
next
  case health
  then show ?thesis using assms by (auto simp: response_defs dest!: json_response_Inr)
next
  case nowhere
  with assms have "not_found_response J = Inr h" "s' = s" by simp_all
  then show ?thesis by (auto simp: response_defs dest: json_response_Inr)
qed

lemma unparsed_refused:
  assumes "route J e verb_post path body s = (Inr h, s')" "js_parse J body = None" "path \<noteq> ''/health''"
  shows "hr_status h \<in> {400, 404, 405}"
proof (cases rule: route_cases [of path J e verb_post body s])
  case nowhere
  with assms(1) have "not_found_response J = Inr h" by simp
  then show ?thesis by (auto simp: response_defs dest: json_response_Inr)
next
  case health
  with assms(3) show ?thesis by simp
next
  case projects
  have "handle_projects J e verb_post body s = (Inr h, s')" using assms(1) unfolding projects(2) .
  with assms(2) show ?thesis by (auto simp: handle_projects_def with_json_def response_defs dest: json_response_Inr)
next
  case (project k)
  have "handle_project J verb_post k s = (Inr h, s')" using assms(1) unfolding project(3) .
  then show ?thesis by (auto simp: handle_project_def response_defs dest: json_response_Inr)
next
  case (scenarios pid)
  have "handle_scenarios J e verb_post pid body s = (Inr h, s')" using assms(1) unfolding scenarios(3) .
  with assms(2) show ?thesis by (auto simp: handle_scenarios_def with_json_def response_defs dest: json_response_Inr)
next
  case (runs pid)
  have "handle_runs J e verb_post pid body s = (Inr h, s')" using assms(1) unfolding runs(3) .
  with assms(2) show ?thesis by (auto simp: handle_runs_def with_json_def response_defs dest: json_response_Inr)
next
  case (policies pid)
  have "handle_policies J e verb_post pid body s = (Inr h, s')" using assms(1) unfolding policies(3) .
  with assms(2) show ?thesis by (auto simp: handle_policies_def with_json_def response_defs dest: json_response_Inr)
next
  case evaluate
  have "handle_evaluate J verb_post body s = (Inr h, s')" using assms(1) unfolding evaluate(2) .
  with assms(2) show ?thesis by (auto simp: handle_evaluate_def with_json_def response_defs dest: json_response_Inr)
qed

lemma delete_done:
  assumes "route J e verb_delete (''/api/v1/projects/'' @ k) body s = (Inr h, s')" "CHR ''/'' \<notin> set k" "has_project s k"
  shows "hr_status h = 200"
proof -
  have "handle_project J verb_delete k s = (Inr h, s')" using assms(1) by (simp only: route_sub(4) [OF assms(2)])
  from project_effect [OF this assms(2)] assms(3) show ?thesis by blast
qed

lemma session_route:
  assumes "handle_session J e (Some r) s = (Inr (Some h), s')"
  obtains h' where "route J e (rq_verb r) (extract_path (rq_target r)) (rq_body r) s = (Inr h', s')" "hr_status h' = hr_status h" "hr_body h' = hr_body h"
proof (cases "route J e (rq_verb r) (extract_path (rq_target r)) (rq_body r) s")
  case (Pair res t)
  with assms show ?thesis by (cases res) (auto simp: handle_session_def intro: that)
qed

section \<open>Properties\<close>

text \<open>
  C9: what a request does to the platform, for any JSON library. Take a session that ends with a response. The repository changes only with a
  \<open>POST\<close> answered 201 or a \<open>DELETE\<close> answered 200. Status 201 means that the body parsed and that the very thing the path names was made from it:
  a project with its name and description, or a scenario, run or policy of the project in the path; it is stored under its id, the response shows it,
  and a \<open>GET\<close> of its path now answers with it. Conversely every \<open>POST\<close> of a document with the fields its path requires is answered 201, and
  every \<open>POST\<close> of a body that does not parse is answered 400, 404 or 405 (\<open>/health\<close> apart, which answers any request).
  A \<open>DELETE\<close> is answered 200 for every stored project; then the project and all its scenarios, runs and policies are gone and
  a \<open>GET\<close> of its path answers 404. Status 200 from \<open>/api/v1/evaluate\<close> means that the response is the
  evaluation of the stored policy on the stored run that the document names.
\<close>

theorem server_request_effects:
  assumes "handle_session J e (Some r) s = (Inr (Some h), s')" and "path = extract_path (rq_target r)"
  shows "(s' \<noteq> s \<longrightarrow> rq_verb r = verb_post \<and> hr_status h = 201 \<or> rq_verb r = verb_delete \<and> hr_status h = 200)
    \<and> (hr_status h = 201 \<longrightarrow> rq_verb r = verb_post \<and> (\<exists>j. js_parse J (rq_body r) = Some j \<and> made J j path (hr_body h) s'))
    \<and> (\<forall>j. rq_verb r = verb_post \<and> js_parse J (rq_body r) = Some j \<and> wanted J j path s \<longrightarrow> hr_status h = 201)
    \<and> (rq_verb r = verb_post \<and> js_parse J (rq_body r) = None \<and> path \<noteq> ''/health'' \<longrightarrow> hr_status h \<in> {400, 404, 405})
    \<and> (\<forall>k. rq_verb r = verb_delete \<and> path = ''/api/v1/projects/'' @ k \<and> CHR ''/'' \<notin> set k \<and> has_project s k \<longrightarrow> hr_status h = 200)
    \<and> (rq_verb r = verb_delete \<and> hr_status h = 200 \<and> path \<noteq> ''/health'' \<longrightarrow> removed_project J path s s')
    \<and> (path = ''/api/v1/evaluate'' \<and> hr_status h = 200 \<longrightarrow> rq_verb r = verb_post \<and> evaluated J (rq_body r) (hr_body h) s)"
proof -
  obtain h' where h: "route J e (rq_verb r) path (rq_body r) s = (Inr h', s')" "hr_status h' = hr_status h" "hr_body h' = hr_body h"
    using session_route [OF assms(1)] unfolding assms(2) [symmetric] .
  note effect = route_effect [OF h(1), unfolded h(2,3)]
  have parsed: "hr_status h = 201" if "rq_verb r = verb_post" "js_parse J (rq_body r) = Some j" "wanted J j path s" for j
    using wanted_made [OF h(1) [unfolded that(1)] that(2,3)] h(2) by simp
  have unparsed: "hr_status h \<in> {400, 404, 405}" if "rq_verb r = verb_post" "js_parse J (rq_body r) = None" "path \<noteq> ''/health''"
    using unparsed_refused [OF h(1) [unfolded that(1)] that(2,3)] unfolding h(2) .
  have deleted: "hr_status h = 200" if "rq_verb r = verb_delete" "path = ''/api/v1/projects/'' @ k" "CHR ''/'' \<notin> set k" "has_project s k" for k
    using delete_done [OF h(1) [unfolded that(1,2)] that(3,4)] h(2) by simp
  have judged: "rq_verb r = verb_post \<and> evaluated J (rq_body r) (hr_body h) s" if "path = ''/api/v1/evaluate''" "hr_status h = 200"
  proof -
    have "handle_evaluate J (rq_verb r) (rq_body r) s = (Inr h', s')" using h(1) that(1) by (simp add: route_def)
    from evaluate_effect [OF this, unfolded h(2,3)] that(2) show ?thesis by auto
  qed
  have changed: "rq_verb r = verb_post \<and> hr_status h = 201 \<or> rq_verb r = verb_delete \<and> hr_status h = 200" if "s' \<noteq> s"
    using effect that by blast
  have created: "rq_verb r = verb_post \<and> (\<exists>j. js_parse J (rq_body r) = Some j \<and> made J j path (hr_body h) s')" if "hr_status h = 201"
    using effect that by (elim disjE conjE) simp_all
  have removed: "removed_project J path s s'" if "rq_verb r = verb_delete" "hr_status h = 200" "path \<noteq> ''/health''"
    using effect that by (elim disjE conjE) (blast, simp, simp)
  show ?thesis
    by (intro conjI; intro allI impI; (elim conjE)?; rule changed created parsed unparsed deleted removed judged; assumption)
qed

text \<open>A toy JSON library: every body parses to one value, whose strings are all \<open>''x''\<close>.\<close>

definition toy_json :: "unit Json_Lib" where
  "toy_json = \<lparr>js_parse = (\<lambda>_. Some ()), js_value = (\<lambda>_ _ _. Inr ''x''), js_contains = (\<lambda>_ _. False),
     js_array = (\<lambda>_ _. None), js_at_string = (\<lambda>_ _. Inl (Json_error [])), js_at_double = (\<lambda>_ _. Inl (Json_error [])),
     js_object = (\<lambda>_. ()), js_list = (\<lambda>_. ()), js_string = (\<lambda>_. ()), js_int = (\<lambda>_. ()), js_double = (\<lambda>_. ()),
     js_bool = (\<lambda>_. ()), js_dump = (\<lambda>_. Inr [])\<rparr>"

lemmas server_simps = handle_session_def extract_path_def find_char_def route_def handle_projects_def
  with_json_def with_value_def toy_json_def

theorem server_request_effects_witness:
  "\<exists>h s'. handle_session toy_json \<lparr>en_steady_ns = 1, en_random = 2, en_now = 3\<rparr>
       (Some \<lparr>rq_verb = verb_post, rq_target = ''/api/v1/projects?v=1'', rq_body = []\<rparr>) repository_new = (Inr (Some h), s')
     \<and> hr_status h = 201 \<and> made toy_json () ''/api/v1/projects'' (hr_body h) s'"
proof -
  let ?e = "\<lparr>en_steady_ns = 1, en_random = 2, en_now = 3\<rparr>"
  let ?r = "\<lparr>rq_verb = verb_post, rq_target = ''/api/v1/projects?v=1'', rq_body = []\<rparr>"
  have p: "''/api/v1/projects'' = extract_path (rq_target ?r)" by (simp add: extract_path_def find_char_def)
  obtain h s' where h: "handle_session toy_json ?e (Some ?r) repository_new = (Inr (Some h), s')"
    by (simp add: server_simps create_project_def Let_def created_response_def json_response_def)
  have "wanted toy_json () ''/api/v1/projects'' repository_new" by (simp add: wanted_def wants_project_def toy_json_def)
  with server_request_effects [OF h p] have "hr_status h = 201" by (simp add: toy_json_def)
  with server_request_effects [OF h p] h show ?thesis by (metis (full_types) old.unit.exhaust)
qed

text \<open>
  Reading requests are read-only: no request other than \<open>POST\<close> and \<open>DELETE\<close> changes the
  repository, on any path and with any body, and neither does a policy evaluation.
\<close>

theorem route_readonly:
  assumes "verb = verb_get \<or> verb = verb_other \<or> path = ''/api/v1/evaluate''"
  shows "snd (route J e verb path body s) = s"
proof -
  have ev: "snd (handle_evaluate J verb body s) = s"
    by (auto simp: handle_evaluate_def with_json_def with_value_def split: option.split sum.split)
  show ?thesis
  proof (cases "path = ''/api/v1/evaluate''")
    case True
    with ev show ?thesis by (simp add: route_def Let_def)
  next
    case False
    with assms have "verb \<noteq> verb_post" "verb \<noteq> verb_delete" by auto
    with ev show ?thesis
      by (auto simp: route_def Let_def handle_projects_def handle_project_def handle_scenarios_def
          handle_runs_def handle_policies_def split: option.split)
  qed
qed

theorem route_readonly_witness:
  "snd (route toy_json \<lparr>en_steady_ns = 1, en_random = 2, en_now = 3\<rparr> verb_get ''/api/v1/projects/a/runs'' []
     repository_new) = repository_new"
  using route_readonly [of verb_get] by simp

text \<open>
  No evaluation over the API ever passes. The server has no route that finishes a run, so in
  every state it reaches no run has a result and every evaluation, of any run against any policy,
  fails.
\<close>

theorem server_never_passes:
  assumes "accept_loop J as repository_new = (rs, Inr s)"
  shows "\<not> pe_passed (evaluate (\<lambda>i. get_run i s) (\<lambda>i. get_policy i s) run_id policy_id)"
proof -
  have n: "no_results s"
    using accept_loop_inv [OF assms repository_new_inv] by (simp add: no_results_def repository_new_def)
  show ?thesis
    using n by (auto simp: evaluate_def error_evaluation_def get_run_def no_results_def
        split: Result.split option.split)
qed

theorem server_never_passes_witness:
  "accept_loop toy_json [] repository_new = ([], Inr repository_new)
   \<and> \<not> pe_passed (evaluate (\<lambda>i. get_run i repository_new) (\<lambda>i. get_policy i repository_new) ''r'' ''p'')"
  using server_never_passes [of toy_json "[]" "[]" repository_new] by simp

text \<open>
  One request can end the process. When the JSON library throws while a handler reads a
  field (its documented behaviour for \<open>value\<close> on a body that is not an object, such as \<open>[]\<close>),
  nothing catches the exception: the accept loop ends with it, and the sessions after that
  one are never answered.
\<close>

theorem server_crash:
  assumes "js_parse J body = Some j" "js_value J j ''name'' [] = Inl x"
  shows "accept_loop J (Session e (Some \<lparr>rq_verb = verb_post, rq_target = ''/api/v1/projects'', rq_body = body\<rparr>) # later) s
       = ([], Inl x)"
  using assms by (simp add: handle_session_def extract_path_def find_char_def route_def
      handle_projects_def with_json_def with_value_def)

theorem server_crash_witness:
  "accept_loop (toy_json\<lparr>js_value := (\<lambda>_ _ _. Inl (Json_error ''type_error.306''))\<rparr>)
     [Session \<lparr>en_steady_ns = 1, en_random = 2, en_now = 3\<rparr>
        (Some \<lparr>rq_verb = verb_post, rq_target = ''/api/v1/projects'', rq_body = ''[]''\<rparr>)] repository_new
   = ([], Inl (Json_error ''type_error.306''))"
  by (rule server_crash [where j = "()"]) (simp_all add: toy_json_def)

text \<open>
  The control plane takes a port from the command line modulo \<open>2\<^sup>1\<^sup>6\<close> without a range check,
  and text that is not a number is an uncaught exception.
\<close>

theorem cp_port_wraps:
  "cp_parse_args [''volley'', ''--port=70000''] = Inr \<lparr>cf_address = ''0.0.0.0'', cf_port = 4464, cf_help = False\<rparr>
   \<and> cp_parse_args [''volley'', ''--port=http''] = Inl (Invalid_argument ''stoi'')"
proof -
  have "strto_int ''70000'' = Some (70000, 5)" "strto_int ''http'' = None"
    by (simp_all add: strto_int_def scan_def Let_def isspace_def isdigit_def digits_val_def digit_val_def)
  then show ?thesis by (simp add: cp_parse_args_def cp_parse_arg_def stoi_def sto_range_def)
qed

end
