(* ===== verification/Url.thy ===== *)
theory Url
  imports Volley_String
begin

text \<open>
  URL handling: \<open>include/cppload/core/url_encode.hpp\<close>, \<open>url_parse.hpp\<close> and
  \<open>include/cppload/net/utils.hpp\<close>. Percent-encoding is checked against a decoder, path
  sanitizing against the list of path segments, and URL parsing against URL printing.
\<close>

section \<open>Percent-encoding\<close>

definition hex_upper :: "nat \<Rightarrow> char" where
  "hex_upper d = (if d < 10 then char_of (48 + d) else char_of (55 + d))"

definition url_unreserved :: "char \<Rightarrow> bool" where
  "url_unreserved c \<longleftrightarrow> isalnum c \<or> c = CHR ''-'' \<or> c = CHR ''_'' \<or> c = CHR ''.'' \<or> c = CHR ''~''"

definition url_encode :: "string \<Rightarrow> string" where
  "url_encode s = concat (map (\<lambda>c. if url_unreserved c then [c]
     else [CHR ''%'', hex_upper (of_char c div 16), hex_upper (of_char c mod 16)]) s)"

text \<open>The reference decoder.\<close>

definition hex_value :: "char \<Rightarrow> nat" where
  "hex_value c = (if isdigit c then of_char c - 48 else of_char c - 55)"

fun url_decode :: "string \<Rightarrow> string" where
  "url_decode [] = []"
| "url_decode (c # s) =
     (if c = CHR ''%'' then
        case s of h # l # r \<Rightarrow> char_of (16 * hex_value h + hex_value l) # url_decode r | _ \<Rightarrow> c # url_decode s
      else c # url_decode s)"

lemma hex_value_upper: "d < 16 \<Longrightarrow> hex_value (hex_upper d) = d"
  by (auto simp: hex_value_def hex_upper_def isdigit_def)

lemma url_encode_Cons: "url_encode (c # s) = (if url_unreserved c then [c]
     else [CHR ''%'', hex_upper (of_char c div 16), hex_upper (of_char c mod 16)]) @ url_encode s"
  by (simp add: url_encode_def)

lemma percent_reserved: "\<not> url_unreserved (CHR ''%'')"
  by (simp add: url_unreserved_def isalnum_def isalpha_def isupper_def islower_def isdigit_def)

lemma of_char_div16: "(of_char c :: nat) div 16 < 16"
proof -
  have "(of_char c :: nat) < 256" by (metis mod_less_divisor of_char_mod_256 zero_less_numeral)
  then show ?thesis by (simp add: less_mult_imp_div_less)
qed

lemma decode_encode: "url_decode (url_encode s) = s"
proof (induction s)
  case (Cons c s)
  have "16 * (of_char c div 16) + of_char c mod 16 = (of_char c :: nat)" by simp
  then have "char_of (16 * (of_char c div 16) + of_char c mod 16 :: nat) = c" by simp
  with Cons show ?case using percent_reserved
    by (auto simp: url_encode_Cons hex_value_upper of_char_div16)
qed (simp add: url_encode_def)

section \<open>Paths\<close>

definition path_char :: "char \<Rightarrow> bool" where
  "path_char c \<longleftrightarrow> c = CHR ''/'' \<or> c = CHR ''-'' \<or> c = CHR ''_'' \<or> c = CHR ''.'' \<or> c = CHR ''~'' \<or> isalnum c"

definition dot_segment :: "string \<Rightarrow> bool" where
  "dot_segment seg \<longleftrightarrow> seg = ''.'' \<or> seg = ''..''"

text \<open>The segment loop of \<open>sanitize_path\<close>, on what is left of the string.\<close>

function sanitize_rest :: "string \<Rightarrow> string" where
  "sanitize_rest r =
     (case find_char (CHR ''/'') r of
        None \<Rightarrow> if dot_segment r then [] else r
      | Some i \<Rightarrow> (if dot_segment (take i r) then [] else take i r @ [CHR ''/'']) @ sanitize_rest (drop (Suc i) r))"
  by pat_completeness auto
termination
  by (relation "measure length") (auto simp: find_char_Some)

declare sanitize_rest.simps [simp del]

definition sanitize_path :: "string \<Rightarrow> string" where
  "sanitize_path path =
     (let result = filter path_char path
      in if find_char (CHR ''.'') result = None then result else sanitize_rest result)"

text \<open>The segments of a path, as a server splits it.\<close>

function segments :: "string \<Rightarrow> string list" where
  "segments r =
     (case find_char (CHR ''/'') r of None \<Rightarrow> [r] | Some i \<Rightarrow> take i r # segments (drop (Suc i) r))"
  by pat_completeness auto
termination
  by (relation "measure length") (auto simp: find_char_Some)

declare segments.simps [simp del]

lemma segments_Cons:
  assumes "CHR ''/'' \<notin> set a"
  shows "segments (a @ CHR ''/'' # b) = a # segments b"
proof -
  have "find_char (CHR ''/'') (a @ CHR ''/'' # b) = Some (length a)"
    using assms by (simp add: find_char_Some)
  then show ?thesis by (subst segments.simps) simp
qed

lemma segments_single: "CHR ''/'' \<notin> set a \<Longrightarrow> segments a = [a]"
  by (subst segments.simps) (simp add: find_char_None [THEN iffD2])

lemma sanitize_rest_segments:
  "segments (sanitize_rest r) = filter (\<lambda>s. \<not> dot_segment s) (butlast (segments r))
     @ [if dot_segment (last (segments r)) then [] else last (segments r)]"
proof (induction r rule: sanitize_rest.induct)
  case (1 r)
  show ?case
  proof (cases "find_char (CHR ''/'') r")
    case None
    then have "CHR ''/'' \<notin> set r" by (simp add: find_char_None)
    then show ?thesis by (subst sanitize_rest.simps) (simp add: None segments_single)
  next
    case (Some i)
    let ?a = "take i r" and ?b = "drop (Suc i) r"
    have r: "r = ?a @ CHR ''/'' # ?b" using Some by (rule find_char_split)
    have a: "CHR ''/'' \<notin> set ?a" using Some by (simp add: find_char_Some)
    have s: "segments r = ?a # segments ?b" using segments_Cons [OF a, of ?b] r by simp
    have ne: "segments ?b \<noteq> []" by (subst segments.simps) (auto split: option.split)
    have e: "sanitize_rest r = (if dot_segment ?a then [] else ?a @ [CHR ''/'']) @ sanitize_rest ?b"
      by (subst sanitize_rest.simps) (simp add: Some)
    show ?thesis using 1 [OF Some] ne a unfolding e s by (simp add: segments_Cons)
  qed
qed

lemma sanitize_rest_clean: "\<forall>seg\<in>set (segments (sanitize_rest r)). \<not> dot_segment seg"
  by (auto simp: sanitize_rest_segments dot_segment_def)

lemma segments_chars: "seg \<in> set (segments r) \<Longrightarrow> set seg \<subseteq> set r"
proof (induction r rule: segments.induct)
  case (1 r)
  show ?case
  proof (cases "find_char (CHR ''/'') r")
    case None
    with 1(2) show ?thesis by (simp add: segments.simps [of r])
  next
    case (Some i)
    with 1(2) have "seg = take i r \<or> seg \<in> set (segments (drop (Suc i) r))"
      by (simp add: segments.simps [of r])
    then show ?thesis using 1(1) [OF Some] set_take_subset [of i r] set_drop_subset [of "Suc i" r] by blast
  qed
qed

lemma sanitize_clean: "\<forall>seg\<in>set (segments (sanitize_path p)). \<not> dot_segment seg"
proof (cases "find_char (CHR ''.'') (filter path_char p) = None")
  case True
  then have "CHR ''.'' \<notin> set (filter path_char p)" by (simp add: find_char_None)
  with segments_chars [of _ "filter path_char p"]
  have "CHR ''.'' \<notin> set seg" if "seg \<in> set (segments (filter path_char p))" for seg
    using that by blast
  then have "\<not> dot_segment seg" if "seg \<in> set (segments (filter path_char p))" for seg
    using that by (force simp: dot_segment_def)
  with True show ?thesis by (simp add: sanitize_path_def)
next
  case False
  then show ?thesis by (auto simp: sanitize_path_def sanitize_rest_clean Let_def)
qed

lemma sanitize_rest_chars: "set (sanitize_rest r) \<subseteq> set r"
proof (induction r rule: sanitize_rest.induct)
  case (1 r)
  show ?case
  proof (cases "find_char (CHR ''/'') r")
    case None
    then show ?thesis by (subst sanitize_rest.simps) simp
  next
    case (Some i)
    then have "CHR ''/'' \<in> set r" by (metis find_char_Some nth_mem)
    then show ?thesis using 1 [OF Some] Some
      by (subst sanitize_rest.simps) (auto dest: in_set_takeD in_set_dropD)
  qed
qed

lemma sanitize_rest_id:
  "\<forall>seg\<in>set (segments r). \<not> dot_segment seg \<Longrightarrow> sanitize_rest r = r"
proof (induction r rule: sanitize_rest.induct)
  case (1 r)
  show ?case
  proof (cases "find_char (CHR ''/'') r")
    case None
    with 1(2) show ?thesis by (subst sanitize_rest.simps) (simp add: segments.simps [of r])
  next
    case (Some i)
    then have s: "segments r = take i r # segments (drop (Suc i) r)" by (simp add: segments.simps [of r])
    have r: "r = take i r @ CHR ''/'' # drop (Suc i) r" using Some by (rule find_char_split)
    from 1(2) s have "sanitize_rest (drop (Suc i) r) = drop (Suc i) r" by (intro 1(1) [OF Some]) auto
    with 1(2) s Some show ?thesis by (subst sanitize_rest.simps) (simp add: r [symmetric])
  qed
qed

section \<open>URLs\<close>

record UrlParts =
  up_host :: string
  up_port :: string
  up_path :: string
  up_tls :: bool

definition split_host_port :: "string \<Rightarrow> string \<Rightarrow> string \<times> string" where
  "split_host_port default_port host_port =
     (if length host_port > 1 \<and> hd host_port = CHR ''['' then
        case find_char (CHR '']'') host_port of
          Some close \<Rightarrow>
            (take (close - 1) (drop 1 host_port),
             if close + 1 < length host_port \<and> host_port ! (close + 1) = CHR '':''
             then drop (close + 2) host_port else default_port)
        | None \<Rightarrow> (host_port, default_port)
      else
        case find_char (CHR '':'') host_port of
          Some colon \<Rightarrow> (take colon host_port, drop (colon + 1) host_port)
        | None \<Rightarrow> (host_port, default_port))"

definition parse_url :: "string \<Rightarrow> UrlParts" where
  "parse_url url =
     (let proto_end = find_sub ''://'' url;
          start = (case proto_end of Some e \<Rightarrow> e + 3 | None \<Rightarrow> 0);
          tls = (case proto_end of Some e \<Rightarrow> take e url = ''https'' \<or> take e url = ''wss'' | None \<Rightarrow> False);
          default_port = (if tls then ''443'' else ''80'');
          path_start = find_from ''/'' url start;
          path = (case path_start of Some i \<Rightarrow> drop i url | None \<Rightarrow> ''/'');
          host_port = (case path_start of Some i \<Rightarrow> take (i - start) (drop start url) | None \<Rightarrow> drop start url);
          (host, port) = split_host_port default_port host_port
      in \<lparr>up_host = host, up_port = port, up_path = path, up_tls = tls\<rparr>)"

definition host_is_ip_literal :: "string \<Rightarrow> bool" where
  "host_is_ip_literal host =
     (if CHR '':'' \<in> set host then True
      else if host = [] then False
      else list_all (\<lambda>c. c = CHR ''.'' \<or> isdigit c) host)"

lemma find_scheme:
  "CHR '':'' \<notin> set scheme \<Longrightarrow> find_sub ''://'' (scheme @ ''://'' @ rest) = Some (length scheme)"
  by (induction scheme) auto

lemma find_path:
  assumes "CHR ''/'' \<notin> set hp" "path = [] \<or> hd path = CHR ''/''"
  shows "find_sub ''/'' (hp @ path) = (if path = [] then None else Some (length hp))"
  using assms by (induction hp) (auto simp: neq_Nil_conv)

lemma parse_url_parts:
  assumes "CHR '':'' \<notin> set scheme" "CHR ''/'' \<notin> set hp" "path = [] \<or> hd path = CHR ''/''"
    and "tls = (scheme = ''https'' \<or> scheme = ''wss'')"
    and "split_host_port (if tls then ''443'' else ''80'') hp = (host, port)"
  shows "parse_url (scheme @ ''://'' @ hp @ path)
     = \<lparr>up_host = host, up_port = port, up_path = (if path = [] then ''/'' else path), up_tls = tls\<rparr>"
proof -
  let ?u = "scheme @ ''://'' @ hp @ path" and ?s = "length scheme + 3"
  have f: "find_sub ''://'' ?u = Some (length scheme)" using assms(1) by (rule find_scheme)
  have d: "drop ?s ?u = hp @ path" by simp
  have l: "?s \<le> length ?u" by simp
  have p: "find_from ''/'' ?u ?s = (if path = [] then None else Some (?s + length hp))"
    using find_path [OF assms(2,3)] l unfolding find_from_def d by simp
  have t: "(take (length scheme) ?u = ''https'' \<or> take (length scheme) ?u = ''wss'') = tls"
    using assms(4) by simp
  have "drop (?s + length hp) ?u = drop (length hp) (drop ?s ?u)" by (simp only: drop_drop add.commute)
  then have q: "drop (?s + length hp) ?u = path" "take (length hp) (hp @ path) = hp"
    unfolding d by simp_all
  show ?thesis
  proof (cases "path = []")
    case True
    with p have p: "find_from ''/'' ?u ?s = None" by simp
    have d': "drop ?s ?u = hp" using True by simp
    have "parse_url ?u = \<lparr>up_host = host, up_port = port, up_path = ''/'', up_tls = tls\<rparr>"
      by (simp only: parse_url_def Let_def f option.case t p d' assms(5) prod.case)
    with True show ?thesis by (simp only: simp_thms if_True)
  next
    case False
    with p have p: "find_from ''/'' ?u ?s = Some (?s + length hp)" by simp
    show ?thesis using False
      by (simp only: parse_url_def Let_def f option.case t p d q diff_add_inverse assms(5) prod.case if_False)
  qed
qed

lemma split_plain:
  "CHR '':'' \<notin> set host \<Longrightarrow> host = [] \<or> hd host \<noteq> CHR ''['' \<Longrightarrow>
     split_host_port dp (host @ '':'' @ port) = (host, port)"
  "CHR '':'' \<notin> set host \<Longrightarrow> host = [] \<or> hd host \<noteq> CHR ''['' \<Longrightarrow> split_host_port dp host = (host, dp)"
proof -
  assume a: "CHR '':'' \<notin> set host" "host = [] \<or> hd host \<noteq> CHR ''[''"
  have "find_char (CHR '':'') (host @ CHR '':'' # port) = Some (length host)"
    using a(1) by (simp add: find_char_Some)
  moreover have "(length (host @ CHR '':'' # port) > 1 \<and> hd (host @ CHR '':'' # port) = CHR ''['') = False"
    using a(2) by (cases host) auto
  ultimately have "split_host_port dp (host @ CHR '':'' # port)
      = (take (length host) (host @ CHR '':'' # port), drop (length host + 1) (host @ CHR '':'' # port))"
    by (simp only: split_host_port_def if_False option.case)
  then show "split_host_port dp (host @ '':'' @ port) = (host, port)" by simp
  show "split_host_port dp host = (host, dp)"
    using a by (cases host) (auto simp: split_host_port_def find_char_None [THEN iffD2])
qed

lemma split_bracket:
  "CHR '']'' \<notin> set host \<Longrightarrow> split_host_port dp (''['' @ host @ '']:'' @ port) = (host, port)"
proof -
  assume a: "CHR '']'' \<notin> set host"
  have "find_char (CHR '']'') (CHR ''['' # host @ CHR '']'' # CHR '':'' # port) = Some (Suc (length host))"
    using a by (simp add: find_char_Some)
  then show ?thesis by (simp add: split_host_port_def nth_append)
qed

section \<open>Properties\<close>

text \<open>
  Percent-encoding loses nothing and its output is safe in a form body: decoding an encoded
  string gives it back, and the output has only unreserved characters, percent signs and upper-case
  hexadecimal digits.
\<close>

theorem url_encode_roundtrip:
  "url_decode (url_encode s) = s
   \<and> list_all (\<lambda>c. url_unreserved c \<or> c = CHR ''%'' \<or> (\<exists>d<16. c = hex_upper d)) (url_encode s)"
proof -
  have "list_all (\<lambda>c. url_unreserved c \<or> c = CHR ''%'' \<or> (\<exists>d<16. c = hex_upper d)) (url_encode s)"
  proof (induction s)
    case (Cons c s)
    have "\<exists>d<16. hex_upper (of_char c mod 16) = hex_upper d"
      by (rule exI [of _ "of_char c mod 16"]) simp
    with Cons show ?case using of_char_div16 [of c] by (auto simp: url_encode_Cons)
  qed (simp add: url_encode_def)
  then show ?thesis by (simp add: decode_encode)
qed

text \<open>
  A sanitized path cannot climb: none of its segments is \<open>.\<close> or \<open>..\<close>, it has only
  path characters, and sanitizing it again changes nothing.
\<close>

theorem sanitize_path_safe:
  "list_all (\<lambda>seg. seg \<noteq> ''.'' \<and> seg \<noteq> ''..'') (segments (sanitize_path p))
   \<and> list_all path_char (sanitize_path p) \<and> sanitize_path (sanitize_path p) = sanitize_path p"
proof -
  have c: "list_all path_char (sanitize_path p)"
    using sanitize_rest_chars [of "filter path_char p"] by (auto simp: sanitize_path_def Let_def list_all_iff)
  then have f: "filter path_char (sanitize_path p) = sanitize_path p" by (simp add: list_all_iff filter_id_conv)
  have "sanitize_rest (sanitize_path p) = sanitize_path p"
    by (rule sanitize_rest_id [OF sanitize_clean])
  with f have "sanitize_path (sanitize_path p) = sanitize_path p"
    by (simp add: sanitize_path_def [of "sanitize_path p"] Let_def)
  with c sanitize_clean [of p] show ?thesis by (simp add: list_all_iff dot_segment_def)
qed

text \<open>
  C37: Parsing inverts printing. A URL made of a scheme, a host, a port and a path parses to
  exactly these parts, with TLS on for \<open>https\<close> and \<open>wss\<close> only; a bracketed IPv6 host comes back
  without its brackets, and without a port the scheme's default is used.
\<close>

theorem parse_url_roundtrip:
  assumes "CHR '':'' \<notin> set scheme" "CHR ''/'' \<notin> set host" "CHR ''/'' \<notin> set port" "path = [] \<or> hd path = CHR ''/''"
    and "tls = (scheme = ''https'' \<or> scheme = ''wss'')"
  shows "(CHR '':'' \<notin> set host \<and> (host = [] \<or> hd host \<noteq> CHR ''['') \<longrightarrow>
            parse_url (scheme @ ''://'' @ host @ '':'' @ port @ path)
              = \<lparr>up_host = host, up_port = port, up_path = (if path = [] then ''/'' else path), up_tls = tls\<rparr>
          \<and> parse_url (scheme @ ''://'' @ host @ path)
              = \<lparr>up_host = host, up_port = (if tls then ''443'' else ''80''),
                 up_path = (if path = [] then ''/'' else path), up_tls = tls\<rparr>)
       \<and> (CHR '']'' \<notin> set host \<longrightarrow>
            parse_url (scheme @ ''://['' @ host @ '']:'' @ port @ path)
              = \<lparr>up_host = host, up_port = port, up_path = (if path = [] then ''/'' else path), up_tls = tls\<rparr>)"
  using assms parse_url_parts [of scheme "host @ '':'' @ port" path tls host port]
    parse_url_parts [of scheme host path tls host "if tls then ''443'' else ''80''"]
    parse_url_parts [of scheme "''['' @ host @ '']:'' @ port" path tls host port]
    split_plain [of host] split_bracket [of host]
  by simp

theorem parse_url_roundtrip_witness:
  "parse_url ''wss://example.org:8443/x'' = \<lparr>up_host = ''example.org'', up_port = ''8443'', up_path = ''/x'', up_tls = True\<rparr>
   \<and> parse_url ''http://[::1]:80'' = \<lparr>up_host = ''::1'', up_port = ''80'', up_path = ''/'', up_tls = False\<rparr>"
  using parse_url_roundtrip [of "''wss''" "''example.org''" "''8443''" "''/x''" True]
    parse_url_roundtrip [of "''http''" "''::1''" "''80''" "[]" False]
  by simp

end
