(* ===== verification/Redact.thy ===== *)
theory Redact
  imports Volley_String
begin

text \<open>
  Masking of secrets in log text, \<open>include/cppload/core/redact.hpp\<close>. The loop of
  \<open>redact_secrets\<close> works on the buffer and a position; every branch ends in the \<open>++pos\<close> of the
  for statement. What is left of the buffer shrinks on every pass, also when the mask is longer
  than the value it replaces.
\<close>

definition iequals :: "string \<Rightarrow> string \<Rightarrow> bool" where
  "iequals a b \<longleftrightarrow> length a = length b \<and> list_all2 (\<lambda>x y. tolower x = tolower y) a b"

definition kMask :: string where "kMask = ''******''"

definition kSecretKeys :: "string list" where
  "kSecretKeys = [''authorization'', ''x-api-key'', ''x-vault-token'', ''client_secret'', ''client-id'',
     ''client_id'', ''access_token'', ''id_token'', ''refresh_token'', ''token'', ''vault_token'',
     ''password'', ''secret'', ''private_key'']"

abbreviation "chr_tab \<equiv> CHR 0x09"
abbreviation "chr_lf \<equiv> CHR 0x0A"
abbreviation "chr_cr \<equiv> CHR 0x0D"
abbreviation "chr_dquote \<equiv> CHR 0x22"
abbreviation "chr_squote \<equiv> CHR 0x27"

definition is_separator :: "char \<Rightarrow> bool" where
  "is_separator c \<longleftrightarrow> c = CHR '':'' \<or> c = CHR ''='' \<or> c = CHR '' '' \<or> c = chr_tab \<or> c = chr_cr \<or> c = chr_lf
     \<or> c = chr_dquote \<or> c = chr_squote \<or> c = CHR ''&'' \<or> c = CHR '',''"

definition key_char :: "char \<Rightarrow> bool" where
  "key_char c \<longleftrightarrow> isalnum c \<or> c = CHR ''_'' \<or> c = CHR ''-''"

definition is_secret_key :: "string \<Rightarrow> bool" where
  "is_secret_key k = list_ex (iequals k) kSecretKeys"

definition skip_char :: "char \<Rightarrow> bool" where
  "skip_char c \<longleftrightarrow> is_separator c \<and> c \<noteq> chr_cr \<and> c \<noteq> chr_lf"

text \<open>The characters a value runs over, given the quote that opened it.\<close>

definition value_char :: "char option \<Rightarrow> char \<Rightarrow> bool" where
  "value_char quote c = (case quote of
     Some q \<Rightarrow> c \<noteq> q
   | None \<Rightarrow> \<not> (c = chr_cr \<or> c = chr_lf \<or> c = CHR ''&'' \<or> c = CHR ''}'' \<or> c = CHR '']'' \<or> c = CHR '',''))"

lemma remaining_less: "pos < n \<Longrightarrow> pos \<le> k \<Longrightarrow> n - Suc k < n - pos" for n :: nat
  by arith

lemma value_start_ge: "i \<le> scan q s (scan p s i)"
  by (meson order.trans scan_ge)

function redact_from :: "string \<Rightarrow> nat \<Rightarrow> string" where
  "redact_from out pos =
     (if pos \<ge> length out then out
      else let key_end = scan key_char out pos
      in if key_end = pos then redact_from out (pos + 1)
      else if \<not> is_secret_key (take (key_end - pos) (drop pos out)) then redact_from out (key_end + 1)
      else let p = scan skip_char out key_end
      in if p \<ge> length out then out
      else let quote = (if out ! p = chr_dquote \<or> out ! p = chr_squote then Some (out ! p) else None);
               value_start = (if quote = None then p else p + 1);
               value_end = scan (value_char quote) out value_start
      in if value_end > value_start
         then redact_from (take value_start out @ kMask @ drop value_end out) (value_start + length kMask + 1)
         else redact_from out (value_end + 1))"
  by pat_completeness auto
termination
proof (relation "measure (\<lambda>(out, pos). length out - pos)", goal_cases)
  case (2 out pos key_end)
  then show ?case by simp
next
  case (3 out pos key_end)
  then show ?case by (auto intro!: remaining_less)
next
  case (4 out pos key_end p quote value_start value_end)
  then have "pos \<le> value_start" using value_start_ge [of pos skip_char out key_char] by (auto intro: le_SucI)
  with 4 show ?case by (auto simp del: scan_ge)
next
  case (5 out pos key_end p quote value_start value_end)
  then have "pos \<le> value_start" using value_start_ge [of pos skip_char out key_char] by (auto intro: le_SucI)
  moreover from 5 have "value_start \<le> value_end" by simp
  ultimately have "pos \<le> value_end" by simp
  then show ?case using 5(1) by (auto intro!: remaining_less simp del: scan_ge)
qed simp

declare redact_from.simps [simp del]

definition redact_secrets :: "string \<Rightarrow> string" where
  "redact_secrets input = (if input = [] then [] else redact_from input 0)"

definition safe_log :: "string \<Rightarrow> string" where
  "safe_log msg = redact_secrets msg"


section \<open>What is masked\<close>

lemma secret_keys_lower: "s \<in> set kSecretKeys \<Longrightarrow> c \<in> set s \<Longrightarrow> tolower c = c \<and> key_char c"
proof -
  assume a: "s \<in> set kSecretKeys" "c \<in> set s"
  have "list_all (list_all (\<lambda>c. \<not> isupper c \<and> key_char c)) kSecretKeys" by code_simp
  with a show ?thesis by (auto simp: list_all_iff tolower_def)
qed

lemma secret_key_chars: "is_secret_key k \<Longrightarrow> list_all key_char k \<and> k \<noteq> []"
proof -
  assume "is_secret_key k"
  then obtain s where s: "s \<in> set kSecretKeys" "list_all2 (\<lambda>x y. tolower x = tolower y) k s"
    by (auto simp: is_secret_key_def iequals_def list_ex_iff)
  have "[] \<notin> set kSecretKeys" by (simp add: kSecretKeys_def)
  with s have "k \<noteq> []" by auto
  moreover have "key_char x" if "x \<in> set k" for x
  proof -
    from that obtain i where i: "i < length k" "x = k ! i" by (auto simp: in_set_conv_nth)
    from s(2) i have "s ! i \<in> set s" "tolower x = tolower (s ! i)" by (auto simp: list_all2_conv_all_nth)
    then have "key_char (tolower x)" using secret_keys_lower [OF s(1)] by simp
    then show ?thesis by (cases "isupper x") (simp_all add: tolower_def key_char_def isalnum_def isalpha_def)
  qed
  ultimately show ?thesis by (simp add: list_all_iff)
qed

lemma quote_branch_dead:
  "p = scan skip_char out i \<Longrightarrow> p < length out \<Longrightarrow> out ! p \<noteq> chr_dquote \<and> out ! p \<noteq> chr_squote"
  using scan_stop [of skip_char out i] by (auto simp: skip_char_def is_separator_def)

lemma skip_not_key: "skip_char c \<Longrightarrow> \<not> key_char c"
  by (auto simp: skip_char_def is_separator_def key_char_def isalnum_def isalpha_def isupper_def islower_def isdigit_def)

lemma redact_match:
  assumes k: "is_secret_key k" and sep: "sep \<noteq> [] \<or> \<not> key_char (hd v)" "list_all skip_char sep"
    and v: "v \<noteq> []" "\<not> skip_char (hd v)" "list_all (value_char None) v"
    and rest: "rest = [] \<or> \<not> value_char None (hd rest)"
  shows "redact_from (pre @ k @ sep @ v @ rest) (length pre)
    = redact_from (pre @ k @ sep @ kMask @ rest) (length (pre @ k @ sep @ kMask) + 1)"
proof -
  let ?out = "pre @ k @ sep @ v @ rest"
  have ke: "scan key_char ?out (length pre) = length pre + length k"
    using scan_append [of key_char k "sep @ v @ rest" pre] secret_key_chars [OF k] sep v(1)
    by (cases sep; cases v) (auto dest: skip_not_key)
  have p: "scan skip_char ?out (length pre + length k) = length pre + length k + length sep"
    using scan_append [of skip_char sep "v @ rest" "pre @ k"] sep v(1,2) by simp
  have ve: "scan (value_char None) ?out (length pre + length k + length sep)
      = length pre + length k + length sep + length v"
    using scan_append [of "value_char None" v rest "pre @ k @ sep"] v(3) rest by (simp add: add.assoc)
  have l: "length pre + length k + length sep < length ?out" using v(1) by simp
  have q: "\<not> (?out ! (length pre + length k + length sep) = chr_dquote
      \<or> ?out ! (length pre + length k + length sep) = chr_squote)"
    using quote_branch_dead [OF p [symmetric] l] by blast
  have t: "take (length pre + length k - length pre) (drop (length pre) ?out) = k"
    "take (length pre + length k + length sep) ?out = pre @ k @ sep"
    "drop (length pre + length k + length sep + length v) ?out = rest" by simp_all
  have n: "\<not> length pre \<ge> length ?out" "length pre + length k \<noteq> length pre"
    "length pre + length k + length sep + length v > length pre + length k + length sep"
    "\<not> length pre + length k + length sep \<ge> length ?out"
    using secret_key_chars [OF k] v(1) by simp_all
  have "redact_from ?out (length pre) = redact_from ((pre @ k @ sep) @ kMask @ rest)
      (length pre + length k + length sep + length kMask + 1)"
    by (subst redact_from.simps) (simp only: Let_def ke p ve t n k q if_True if_False simp_thms)
  then show ?thesis by (simp add: add.assoc)
qed

lemma redact_skip:
  "list_all (\<lambda>c. \<not> key_char c) pre \<Longrightarrow> redact_from (a @ pre @ rest) (length a) = redact_from (a @ pre @ rest) (length a + length pre)"
proof (induction pre arbitrary: a)
  case (Cons c pre)
  have "scan key_char (a @ c # pre @ rest) (length a) = length a" using Cons.prems by (simp add: scan_def)
  then have "redact_from (a @ c # pre @ rest) (length a) = redact_from (a @ c # pre @ rest) (length a + 1)"
    by (subst redact_from.simps) simp
  with Cons.IH [of "a @ [c]"] Cons.prems show ?case by simp
qed simp

text \<open>One pass of the loop, without the branch no buffer reaches.\<close>

lemma redact_step:
  fixes out pos defines "ke \<equiv> scan key_char out pos"
  defines "p \<equiv> scan skip_char out ke"
  defines "ve \<equiv> scan (value_char None) out p"
  shows "redact_from out pos =
     (if pos \<ge> length out then out
      else if ke = pos then redact_from out (pos + 1)
      else if \<not> is_secret_key (take (ke - pos) (drop pos out)) then redact_from out (ke + 1)
      else if p \<ge> length out then out
      else if ve > p then redact_from (take p out @ kMask @ drop ve out) (p + length kMask + 1)
      else redact_from out (ve + 1))"
proof (cases "p \<ge> length out")
  case True
  then show ?thesis by (subst redact_from.simps) (simp add: Let_def ke_def [symmetric] p_def [symmetric])
next
  case False
  then have q: "\<not> (out ! p = chr_dquote \<or> out ! p = chr_squote)"
    using quote_branch_dead [OF p_def [THEN meta_eq_to_obj_eq]] by simp
  show ?thesis
    by (subst redact_from.simps)
      (simp only: Let_def ke_def [symmetric] p_def [symmetric] q if_False simp_thms if_True ve_def [symmetric])
qed

lemma redact_other_word:
  assumes "t \<noteq> []" "list_all key_char t" "\<not> is_secret_key t" "rest = [] \<or> \<not> key_char (hd rest)"
  shows "redact_from (pre @ t @ rest) (length pre) = redact_from (pre @ t @ rest) (length pre + length t + 1)"
proof -
  have "scan key_char (pre @ t @ rest) (length pre) = length pre + length t" using assms(2,4) by (rule scan_append)
  moreover have "\<not> length pre \<ge> length (pre @ t @ rest)" "length pre + length t \<noteq> length pre"
    "take (length pre + length t - length pre) (drop (length pre) (pre @ t @ rest)) = t" using assms(1) by simp_all
  ultimately show ?thesis using assms(3) by (subst redact_step) (simp only: if_True if_False simp_thms)
qed

text \<open>Every branch leaves the position one behind a character that starts no word, or behind the end.\<close>

lemma redact_advance: "pos < length out \<Longrightarrow> \<not> key_char (out ! pos) \<Longrightarrow> redact_from out (pos + 1) = redact_from out pos"
proof -
  assume a: "pos < length out" "\<not> key_char (out ! pos)"
  have "scan key_char out pos = pos" using a by (simp add: scan_def Cons_nth_drop_Suc [symmetric])
  then show ?thesis using a(1) by (subst (2) redact_step) simp
qed

lemma redact_end: "pos \<ge> length out \<Longrightarrow> redact_from out pos = out"
  by (subst redact_step) simp

lemma redact_after: "rest = [] \<or> \<not> key_char (hd rest) \<Longrightarrow> redact_from (pre @ rest) (length pre + 1) = redact_from (pre @ rest) (length pre)"
  using redact_advance [of "length pre" "pre @ rest"] by (cases rest) (simp_all add: redact_end nth_append)

lemma value_end_not_key: "\<not> value_char None c \<Longrightarrow> \<not> key_char c"
  by (auto simp: value_char_def key_char_def isalnum_def isalpha_def isupper_def islower_def isdigit_def)

lemma redact_bare:
  assumes k: "is_secret_key k" and sep: "list_all skip_char sep"
    and rest: "rest = [] \<or> \<not> skip_char (hd rest) \<and> \<not> value_char None (hd rest)"
  shows "redact_from (pre @ k @ sep @ rest) (length pre) = redact_from (pre @ k @ sep @ rest) (length (pre @ k @ sep))"
proof -
  let ?out = "pre @ k @ sep @ rest" and ?p = "length pre + length k + length sep"
  have ke: "scan key_char ?out (length pre) = length pre + length k"
    using scan_append [of key_char k "sep @ rest" pre] secret_key_chars [OF k] sep rest
    by (cases sep) (auto dest: skip_not_key value_end_not_key)
  have p: "scan skip_char ?out (length pre + length k) = ?p"
    using scan_append [of skip_char sep rest "pre @ k"] sep rest by auto
  have ve: "scan (value_char None) ?out ?p = ?p"
    using scan_append [of "value_char None" "[]" rest "pre @ k @ sep"] rest by (auto simp: add.assoc)
  have n: "\<not> length pre \<ge> length ?out" "length pre + length k \<noteq> length pre"
    "take (length pre + length k - length pre) (drop (length pre) ?out) = k"
    using secret_key_chars [OF k] by simp_all
  have "redact_from ?out (length pre) = (if ?p \<ge> length ?out then ?out else redact_from ?out (?p + 1))"
    by (subst redact_step) (simp only: ke p ve n k if_True if_False simp_thms less_irrefl)
  also have "\<dots> = redact_from ?out ?p"
    using redact_after [of rest "pre @ k @ sep"] rest value_end_not_key by (auto simp: redact_end add.assoc)
  finally show ?thesis by (simp add: add.assoc)
qed

section \<open>Texts and their masked form\<close>

text \<open>
  What a text consists of: characters outside of words, words that are no secret key, secret keys with their separators and value, and
  secret keys without one.
\<close>

datatype Log_Part = Text string | Word string | Secret string string string | Bare string string

fun print_part :: "Log_Part \<Rightarrow> string" where
  "print_part (Text t) = t"
| "print_part (Word w) = w"
| "print_part (Secret k sep v) = k @ sep @ v"
| "print_part (Bare k sep) = k @ sep"

fun mask_part :: "Log_Part \<Rightarrow> string" where
  "mask_part (Secret k sep v) = k @ sep @ ''******''"
| "mask_part p = print_part p"

definition print_parts :: "Log_Part list \<Rightarrow> string" where
  "print_parts ps = concat (map print_part ps)"

definition mask_parts :: "Log_Part list \<Rightarrow> string" where
  "mask_parts ps = concat (map mask_part ps)"

text \<open>Parts are as long as they can be: what follows one is at the end or starts with a character that ends it.\<close>

fun starts :: "(char \<Rightarrow> bool) \<Rightarrow> Log_Part list \<Rightarrow> bool" where
  "starts P [] = True"
| "starts P (Text (c # t) # ps) = P c"
| "starts P (p # ps) = False"

fun parts_ok :: "Log_Part list \<Rightarrow> bool" where
  "parts_ok [] = True"
| "parts_ok (Text t # ps) = (t \<noteq> [] \<and> list_all (\<lambda>c. \<not> key_char c) t \<and> parts_ok ps)"
| "parts_ok (Word w # ps) = (w \<noteq> [] \<and> list_all key_char w \<and> \<not> is_secret_key w \<and> starts (\<lambda>_. True) ps \<and> parts_ok ps)"
| "parts_ok (Secret k sep v # ps) = (is_secret_key k \<and> list_all skip_char sep \<and> v \<noteq> [] \<and> \<not> skip_char (hd v)
     \<and> (sep = [] \<longrightarrow> \<not> key_char (hd v)) \<and> list_all (value_char None) v \<and> starts (\<lambda>c. \<not> value_char None c) ps \<and> parts_ok ps)"
| "parts_ok (Bare k sep # ps) = (is_secret_key k \<and> list_all skip_char sep
     \<and> starts (\<lambda>c. \<not> skip_char c \<and> \<not> value_char None c) ps \<and> parts_ok ps)"

lemma starts_hd: "starts P ps \<Longrightarrow> parts_ok ps \<Longrightarrow> print_parts ps = [] \<or> P (hd (print_parts ps)) \<and> \<not> key_char (hd (print_parts ps))"
  by (cases "(P, ps)" rule: starts.cases) (auto simp: print_parts_def)

lemma redact_parts: "parts_ok ps \<Longrightarrow> redact_from (pre @ print_parts ps) (length pre) = pre @ mask_parts ps"
proof (induction ps arbitrary: pre rule: parts_ok.induct)
  case 1
  then show ?case by (simp add: redact_end print_parts_def mask_parts_def)
next
  case (2 t ps)
  then show ?case using redact_skip [of t pre "print_parts ps"] 2(1) [of "pre @ t"] by (simp add: print_parts_def mask_parts_def)
next
  case (3 w ps)
  then have h: "print_parts ps = [] \<or> \<not> key_char (hd (print_parts ps))" using starts_hd by auto
  show ?case using redact_other_word [of w "print_parts ps" pre] redact_after [OF h, of "pre @ w"] h 3(1) [of "pre @ w"] 3(2)
    by (simp add: print_parts_def mask_parts_def)
next
  case (4 k sep v ps)
  then have h: "print_parts ps = [] \<or> \<not> value_char None (hd (print_parts ps))" "print_parts ps = [] \<or> \<not> key_char (hd (print_parts ps))"
    using starts_hd [of "\<lambda>c. \<not> value_char None c" ps] by auto
  have "redact_from (pre @ k @ sep @ v @ print_parts ps) (length pre) = redact_from (pre @ k @ sep @ kMask @ print_parts ps) (length (pre @ k @ sep @ kMask) + 1)"
    using 4(2) h(1) by (intro redact_match) auto
  then show ?case using redact_after [OF h(2), of "pre @ k @ sep @ kMask"] 4(1) [of "pre @ k @ sep @ kMask"] 4(2)
    by (simp add: print_parts_def mask_parts_def kMask_def)
next
  case (5 k sep ps)
  then have "print_parts ps = [] \<or> \<not> skip_char (hd (print_parts ps)) \<and> \<not> value_char None (hd (print_parts ps))"
    using starts_hd [of "\<lambda>c. \<not> skip_char c \<and> \<not> value_char None c" ps] by auto
  with 5 show ?case using redact_bare [of k sep "print_parts ps" pre] 5(1) [of "pre @ k @ sep"]
    by (simp add: print_parts_def mask_parts_def)
qed

text \<open>The parts of any text; \<open>stop\<close> is what the first part of the rest starts with.\<close>

lemma rest_starts:
  assumes "parts_ok ps" "print_parts ps = s" "s = [] \<or> P (hd s) \<and> \<not> key_char (hd s)"
  shows "starts P ps"
proof (cases ps)
  case (Cons p qs)
  have ne: "print_part p \<noteq> []" and key: "key_char (hd (print_part p)) \<or> (\<exists>t. p = Text t)"
    using assms(1) Cons by (cases p; auto dest: secret_key_chars simp: list_all_iff)+
  have h: "s \<noteq> []" "hd s = hd (print_part p)" using ne assms(2) Cons by (auto simp: print_parts_def)
  then obtain t where "p = Text t" "P (hd t)" using key assms(3) by auto
  with ne Cons show ?thesis by (cases t) auto
qed simp

lemma parts_exist: "\<exists>ps. parts_ok ps \<and> print_parts ps = s"
proof (induction "length s" arbitrary: s rule: less_induct)
  case less
  show ?case
  proof (cases s)
    case Nil
    then show ?thesis by (intro exI [of _ "[]"]) (simp add: print_parts_def)
  next
    case (Cons c t)
    show ?thesis
    proof (cases "key_char c")
      case False
      obtain ps where "parts_ok ps" "print_parts ps = t" using less [of t] Cons by auto
      with False Cons show ?thesis by (intro exI [of _ "Text [c] # ps"]) (simp add: print_parts_def)
    next
      case True
      define w where "w = takeWhile key_char s"
      define r where "r = dropWhile key_char s"
      have w: "s = w @ r" "w \<noteq> []" "list_all key_char w" "r = [] \<or> \<not> key_char (hd r)"
        using True Cons hd_dropWhile [of key_char s] by (auto simp: w_def r_def list_all_iff dest: set_takeWhileD)
      show ?thesis
      proof (cases "is_secret_key w")
        case False
        obtain ps where ps: "parts_ok ps" "print_parts ps = r" using less [of r] w(1,2) by auto
        then have "starts (\<lambda>_. True) ps" using w(4) by (intro rest_starts) auto
        with ps False w show ?thesis by (intro exI [of _ "Word w # ps"]) (simp add: print_parts_def)
      next
        case secret: True
        define sep where "sep = takeWhile skip_char r"
        define r2 where "r2 = dropWhile skip_char r"
        define v where "v = takeWhile (value_char None) r2"
        define r3 where "r3 = dropWhile (value_char None) r2"
        have sep: "r = sep @ r2" "list_all skip_char sep" "r2 = [] \<or> \<not> skip_char (hd r2)"
          using hd_dropWhile [of skip_char r] by (auto simp: sep_def r2_def list_all_iff dest: set_takeWhileD)
        have v: "r2 = v @ r3" "list_all (value_char None) v" "r3 = [] \<or> \<not> value_char None (hd r3)"
          using hd_dropWhile [of "value_char None" r2] by (auto simp: v_def r3_def list_all_iff dest: set_takeWhileD)
        obtain ps where ps: "parts_ok ps" "print_parts ps = r3" using less [of r3] w(1,2) sep(1) v(1) by auto
        show ?thesis
        proof (cases "v = []")
          case True
          then have "starts (\<lambda>c. \<not> skip_char c \<and> \<not> value_char None c) ps"
            using ps v(1,3) sep(3) value_end_not_key by (intro rest_starts) auto
          with ps True secret sep v w(1) show ?thesis by (intro exI [of _ "Bare w sep # ps"]) (simp add: print_parts_def)
        next
          case False
          then have "starts (\<lambda>c. \<not> value_char None c) ps" using ps v(3) value_end_not_key by (intro rest_starts) auto
          moreover have "sep = [] \<longrightarrow> \<not> key_char (hd v)" "\<not> skip_char (hd v)" using w(4) sep v(1) False by auto
          ultimately show ?thesis using ps False secret sep v w(1)
            by (intro exI [of _ "Secret w sep v # ps"]) (simp add: print_parts_def)
        qed
      qed
    qed
  qed
qed

text \<open>
  C38: Masking. Every text is a sequence of parts, and masking it gives the same parts with exactly the values of its secret keys
  replaced: behind each secret key, in either case, and its separators, the value up to the next delimiter becomes the mask, and all
  other characters stay as they are.
\<close>
theorem redact_masks_value:
  "(parts_ok ps \<longrightarrow> redact_secrets (print_parts ps) = mask_parts ps) \<and> (\<exists>qs. parts_ok qs \<and> print_parts qs = s)"
proof -
  have "redact_secrets (print_parts ps) = mask_parts ps" if "parts_ok ps"
  proof (cases "print_parts ps = []")
    case True
    then show ?thesis using redact_parts [OF that, of "[]"] by (simp add: redact_secrets_def redact_end)
  next
    case False
    then show ?thesis using redact_parts [OF that, of "[]"] by (simp add: redact_secrets_def)
  qed
  with parts_exist show ?thesis by blast
qed

theorem redact_masks_value_witness:
  "redact_secrets (''login id=7&Client_Secret=abc&TOKEN: '' @ [chr_dquote] @ ''x y'') = ''login id=7&Client_Secret=******&TOKEN: '' @ [chr_dquote] @ ''******''"
proof -
  let ?ps = "[Word ''login'', Text '' '', Word ''id'', Text ''='', Word ''7'', Text ''&'', Secret ''Client_Secret'' ''='' ''abc'', Text ''&'',
    Secret ''TOKEN'' ('': '' @ [chr_dquote]) ''x y'']"
  have "parts_ok ?ps" by code_simp
  with redact_masks_value [of ?ps "[]"] have "redact_secrets (print_parts ?ps) = mask_parts ?ps" by blast
  then show ?thesis by (simp add: print_parts_def mask_parts_def)
qed

text \<open>
  A comma ends the mask. The branch for a quoted value is never taken, because the quotes are
  skipped as separators; of a quoted JSON value only the part before the first comma is masked and
  the rest stays in the log.
\<close>
theorem redact_leaks_after_comma:
  assumes "is_secret_key k" "v \<noteq> []" "\<not> skip_char (hd v)" "list_all (value_char None) v"
    and "t \<noteq> []" "list_all key_char t" "\<not> is_secret_key t"
  shows "redact_secrets ([chr_dquote] @ k @ [chr_dquote, CHR '':'', chr_dquote] @ v @ '','' @ t @ [chr_dquote])
    = [chr_dquote] @ k @ [chr_dquote, CHR '':'', chr_dquote] @ kMask @ '','' @ t @ [chr_dquote]"
proof -
  let ?pre = "[chr_dquote]" and ?sep = "[chr_dquote, CHR '':'', chr_dquote]"
  let ?rest = "'','' @ t @ [chr_dquote]" and ?m = "[chr_dquote] @ k @ [chr_dquote, CHR '':'', chr_dquote] @ kMask @ '',''"
  have c: "list_all (\<lambda>c. \<not> key_char c) ?pre" "list_all skip_char ?sep" "\<not> value_char None (hd ?rest)" "\<not> key_char chr_dquote"
    by code_simp+
  have "redact_secrets (?pre @ k @ ?sep @ v @ ?rest) = redact_from (?pre @ k @ ?sep @ v @ ?rest) (length ?pre)"
    using redact_skip [OF c(1), of "[]" "k @ ?sep @ v @ ?rest"] by (simp add: redact_secrets_def)
  also have "\<dots> = redact_from (?pre @ k @ ?sep @ kMask @ ?rest) (length (?pre @ k @ ?sep @ kMask) + 1)"
    by (rule redact_match [OF assms(1) _ c(2) assms(2,3,4) disjI2 [OF c(3)]]) simp
  also have "\<dots> = redact_from (?m @ t @ [chr_dquote]) (length ?m)" by simp
  also have "\<dots> = redact_from (?m @ t @ [chr_dquote]) (length ?m + length t + 1)"
    using redact_other_word [OF assms(5-7), of "[chr_dquote]" ?m] c(4) by simp
  also have "\<dots> = ?m @ t @ [chr_dquote]" by (subst redact_step) simp
  finally show ?thesis by simp
qed

theorem redact_leaks_after_comma_witness:
  "redact_secrets ([chr_dquote] @ ''password'' @ [chr_dquote, CHR '':'', chr_dquote] @ ''abc'' @ '','' @ ''def'' @ [chr_dquote])
    = [chr_dquote] @ ''password'' @ [chr_dquote, CHR '':'', chr_dquote] @ kMask @ '','' @ ''def'' @ [chr_dquote]"
  by (rule redact_leaks_after_comma; code_simp)

end
