(* ===== verification/Scenario_Config.thy ===== *)
theory Scenario_Config
  imports Cpp_Parse
begin

text \<open>
  The scenario configuration: the types of \<open>include/cppload/scenario/engine.hpp\<close> with the default
  values of their members, and from \<open>core/scenario/yaml_parser.cpp\<close> the parsers of durations, sizes
  and limits and the schema validation. \<open>None\<close> as the result of a numeric parser is a conversion
  the C++ standard leaves undefined; every other input has a value.
\<close>

section \<open>Types\<close>

record HttpStep =
  hs_method :: string
  hs_path :: string
  hs_body :: string
  hs_headers :: "(string \<times> string) list"
  hs_host :: string
  hs_port :: string
  hs_use_tls :: bool
  hs_assertions :: "string list"

definition HttpStep_default :: HttpStep where
  "HttpStep_default = \<lparr>hs_method = ''GET'', hs_path = [], hs_body = [], hs_headers = [], hs_host = [], hs_port = ''80'',
     hs_use_tls = False, hs_assertions = []\<rparr>"

record Stage =
  stage_name :: string
  stage_duration :: int
  stage_target_rps :: u32
  stage_concurrent_users :: u32

definition Stage_default :: Stage where
  "Stage_default = \<lparr>stage_name = [], stage_duration = 0, stage_target_rps = 0, stage_concurrent_users = 10\<rparr>"

record ScenarioDef =
  sd_name :: string
  sd_weight :: u32
  sd_steps :: "HttpStep list"

definition ScenarioDef_default :: ScenarioDef where
  "ScenarioDef_default = \<lparr>sd_name = [], sd_weight = 100, sd_steps = []\<rparr>"

record ScenarioAuthConfig =
  sa_type :: string
  sa_token_endpoint :: string
  sa_client_id :: string
  sa_client_secret :: string

record ObservabilityConfig =
  prometheus_enabled :: bool
  prometheus_port :: u16
  otlp_endpoint :: string
  sample_rate :: xdouble
  log_level :: string
  log_format :: string

text \<open>The literal 0.1 is the double nearest to it.\<close>

definition ObservabilityConfig_default :: ObservabilityConfig where
  "ObservabilityConfig_default = \<lparr>prometheus_enabled = False, prometheus_port = 9090, otlp_endpoint = [],
     sample_rate = Fin (rnd (1 / 10)), log_level = ''info'', log_format = ''json''\<rparr>"

record SLAConfig =
  max_error_rate :: xdouble
  max_p99_latency :: int

definition SLAConfig_default :: SLAConfig where
  "SLAConfig_default = \<lparr>max_error_rate = Fin 10, max_p99_latency = 500\<rparr>"

record TargetConfig =
  base_url :: string
  protocol :: string
  tls_verify :: bool
  max_body_bytes :: u64

record ScenarioConfig =
  sc_version :: string
  test_id :: string
  sc_target :: TargetConfig
  authentication :: ScenarioAuthConfig
  observability :: ObservabilityConfig
  load_profile :: "Stage list"
  scenarios :: "ScenarioDef list"
  sla :: SLAConfig

definition ScenarioConfig_default :: ScenarioConfig where
  "ScenarioConfig_default = \<lparr>sc_version = [], test_id = [],
     sc_target = \<lparr>base_url = [], protocol = ''http1.1'', tls_verify = True, max_body_bytes = 0\<rparr>,
     authentication = \<lparr>sa_type = [], sa_token_endpoint = [], sa_client_id = [], sa_client_secret = []\<rparr>,
     observability = ObservabilityConfig_default, load_profile = [], scenarios = [], sla = SLAConfig_default\<rparr>"

section \<open>Durations, sizes and limits\<close>

definition ms_max :: int where "ms_max = 2 ^ 63 - 1"

fun xmul :: "xdouble \<Rightarrow> rat \<Rightarrow> xdouble" where
  "xmul (Fin v) m = (if fmul v m \<ge> 2 ^ 1024 then PInf else if fmul v m \<le> - (2 ^ 1024) then NInf else Fin (fmul v m))"
| "xmul PInf m = (if m > 0 then PInf else if m < 0 then NInf else NaN)"
| "xmul NInf m = (if m > 0 then NInf else if m < 0 then PInf else NaN)"
| "xmul NaN m = NaN"

fun xnegative :: "xdouble \<Rightarrow> bool" where
  "xnegative (Fin v) \<longleftrightarrow> v < 0"
| "xnegative PInf \<longleftrightarrow> False"
| "xnegative NInf \<longleftrightarrow> True"
| "xnegative NaN \<longleftrightarrow> False"

definition scale_to_ms :: "xdouble \<Rightarrow> rat \<Rightarrow> int option" where
  "scale_to_ms v multiplier = (case xmul v multiplier of
     NaN \<Rightarrow> None
   | NInf \<Rightarrow> Some 0
   | PInf \<Rightarrow> Some ms_max
   | Fin ms \<Rightarrow> if ms < 0 then Some 0 else if ms \<ge> 9 * 10 ^ 15 then Some ms_max else Some (trunc_int ms))"

definition parse_number :: "string \<Rightarrow> xdouble" where
  "parse_number str = catch_default (Fin (- 1)) (stod str)"

definition parse_duration :: "string \<Rightarrow> int option" where
  "parse_duration str =
     (if str = [] then Some 0
      else if length str \<ge> 3 \<and> drop (length str - 3) str = ''min''
        then scale_to_ms (parse_number (take (length str - 3) str)) 60000
      else if length str \<ge> 2 \<and> drop (length str - 2) str = ''ms''
        then scale_to_ms (parse_number (take (length str - 2) str)) 1
      else let unit = List.last str; v = parse_number (take (length str - 1) str)
           in if xnegative v then Some 0
              else if unit = CHR ''s'' then scale_to_ms v 1000
              else if unit = CHR ''m'' then scale_to_ms v 60000
              else if unit = CHR ''h'' then scale_to_ms v 3600000
              else Some 0)"

definition find_digit :: "string \<Rightarrow> nat option" where
  "find_digit str = (let i = scan (\<lambda>c. \<not> isdigit c) str 0 in if i < length str then Some i else None)"

text \<open>When the percent sign stands before the first digit, \<open>end - start\<close> wraps and the substring runs to the end.\<close>

definition parse_error_rate :: "string \<Rightarrow> xdouble" where
  "parse_error_rate str = (case (find_digit str, find_char (CHR ''%'') str) of
     (Some start, Some stop) \<Rightarrow>
       catch_default (Fin 10) (stod (if stop \<ge> start then take (stop - start) (drop start str) else drop start str))
   | _ \<Rightarrow> Fin 10)"

definition byte_multiplier :: "string \<Rightarrow> rat" where
  "byte_multiplier unit =
     (if unit = ''k'' \<or> unit = ''kb'' then 1024
      else if unit = ''m'' \<or> unit = ''mb'' then 1024 * 1024
      else if unit = ''g'' \<or> unit = ''gb'' then 1024 * 1024 * 1024
      else 1)"

text \<open>
  \<open>static_cast<double>(SIZE_MAX)\<close> is \<open>2 ^ 64\<close>: the conversion to \<open>double\<close> rounds up. Digits alone
  never read as an infinity or a NaN, so the last alternative below is for those only.
\<close>

definition parse_bytesize :: "string \<Rightarrow> u64 option" where
  "parse_bytesize str =
     (let num_end = scan isdigit str 0 in
      if str = [] \<or> num_end = 0 then Some 0
      else case stod (take num_end str) of
        Inl _ \<Rightarrow> Some 0
      | Inr v \<Rightarrow>
          if xnegative v then Some 0
          else case xmul v (byte_multiplier (map tolower (drop num_end str))) of
            PInf \<Rightarrow> Some (- 1)
          | Fin b \<Rightarrow> if b > 2 ^ 64 then Some (- 1) else if b < 2 ^ 64 then Some (word_of_int (trunc_int b)) else None
          | _ \<Rightarrow> None)"

definition parse_latency :: "string \<Rightarrow> int option" where
  "parse_latency str = (case find_digit str of
     None \<Rightarrow> Some 500
   | Some start \<Rightarrow>
       case stod (take (scan isdigit str start - start) (drop start str)) of
         Inl _ \<Rightarrow> Some 500
       | Inr v \<Rightarrow>
           if find_sub ''ms'' str \<noteq> None then scale_to_ms v 1
           else if CHR ''s'' \<in> set str then scale_to_ms v 1000
           else scale_to_ms v 1)"

section \<open>Schema validation\<close>

definition check_assertion_format :: "string \<Rightarrow> string option" where
  "check_assertion_format expr =
     (if expr = [] then Some ''empty assertion''
      else let i = scan (\<lambda>c. isalnum c \<or> c = CHR ''_'') expr 0
      in if i = 0 then Some ''missing left-hand side identifier''
      else let i = scan isspace expr i;
               j = scan (\<lambda>c. c = CHR ''='' \<or> c = CHR ''!'' \<or> c = CHR ''<'' \<or> c = CHR ''>'' \<or> isspace c) expr i
      in if j = i then Some ''missing operator (==, !=, >=, <=, >, <)''
      else let op_token = filter (\<lambda>c. \<not> isspace c) (take (j - i) (drop i expr))
      in if op_token \<in> set [''=='', ''!='', ''>='', ''<='', ''>'', ''<''] then None
         else Some (''invalid operator '' @ [CHR 0x27] @ op_token @ [CHR 0x27] @ '', expected one of ==, !=, >=, <=, >, <''))"

fun first_error :: "(nat \<Rightarrow> 'a \<Rightarrow> string option) \<Rightarrow> nat \<Rightarrow> 'a list \<Rightarrow> string option" where
  "first_error f i [] = None"
| "first_error f i (x # xs) = (case f i x of Some e \<Rightarrow> Some e | None \<Rightarrow> first_error f (i + 1) xs)"

definition index_path :: "string \<Rightarrow> nat \<Rightarrow> string" where
  "index_path name i = name @ ''['' @ nat_dec i @ '']''"

definition field_path :: "string \<Rightarrow> string" where
  "field_path path = ''field '' @ [CHR 0x27] @ path @ [CHR 0x27]"

definition quoted :: "string \<Rightarrow> string" where
  "quoted s = [CHR 0x22] @ s @ [CHR 0x22]"

definition validate_step :: "nat \<Rightarrow> nat \<Rightarrow> HttpStep \<Rightarrow> string option" where
  "validate_step si sti step =
     (let loc = index_path ''scenarios'' si @ ''.'' @ index_path ''steps'' sti in
      if hs_method step = [] then Some (field_path (loc @ ''.http.method'') @ '' is required. Example: method: GET'')
      else if hs_path step = [] then
        Some (field_path (loc @ ''.http.path'') @ '' is required. Example: path: '' @ quoted ''/api/v1/health'')
      else first_error (\<lambda>ai a. map_option (\<lambda>aerr. ''field '' @ [CHR 0x27] @ loc @ ''.'' @ index_path ''assertions'' ai
          @ '' '' @ aerr @ ''. Example: status_code == 201'') (check_assertion_format a)) 0 (hs_assertions step))"

definition validate_scenario :: "nat \<Rightarrow> ScenarioDef \<Rightarrow> string option" where
  "validate_scenario si s =
     (if sd_weight s > 1000 then
        Some (field_path (index_path ''scenarios'' si @ ''.weight'') @ '' out of range: ''
          @ nat_dec (unat (sd_weight s)) @ '' expected 0..1000. Example: weight: 70'')
      else if sd_steps s = [] then
        Some (''scenario '' @ [CHR 0x27] @ sd_name s @ [CHR 0x27] @ '' (index '' @ nat_dec si
          @ '') has no steps; add at least one http step'')
      else first_error (validate_step si) 0 (sd_steps s))"

definition validate_stage :: "nat \<Rightarrow> Stage \<Rightarrow> string option" where
  "validate_stage li st =
     (if stage_target_rps st > 1000000 then
        Some (field_path (index_path ''load_profile'' li @ ''.target_rps'') @ '' out of range: ''
          @ nat_dec (unat (stage_target_rps st)) @ '' expected 0..1000000'')
      else if stage_concurrent_users st > 100000 then
        Some (field_path (index_path ''load_profile'' li @ ''.concurrent_users'') @ '' out of range: ''
          @ nat_dec (unat (stage_concurrent_users st)) @ '' expected 0..100000'')
      else None)"

definition validate_scenario_config :: "ScenarioConfig \<Rightarrow> string option" where
  "validate_scenario_config cfg =
     (if test_id cfg = [] then
        Some (field_path ''test_id'' @ '' is required (string). Example: test_id: '' @ quoted ''my-load-test-2026'')
      else if base_url (sc_target cfg) = [] then
        Some (field_path ''target.base_url'' @ '' is required (string). Example: base_url: '' @ quoted ''http://localhost:8080'')
      else if scenarios cfg = [] then Some (field_path ''scenarios'' @ '' must contain at least one scenario'')
      else case first_error validate_scenario 0 (scenarios cfg) of
        Some e \<Rightarrow> Some e
      | None \<Rightarrow> first_error validate_stage 0 (load_profile cfg))"

section \<open>Printed durations\<close>

lemma last_of_drop: "drop k s = t \<Longrightarrow> t \<noteq> [] \<Longrightarrow> List.last s = List.last t"
  by (metis drop_eq_Nil last_drop not_le)

lemma parse_number_nat:
  assumes "n < 2 ^ 1000"
  shows "parse_number (nat_dec n) = Fin (rnd (of_nat n))"
proof -
  have q: "(of_nat n :: rat) \<le> 2 powi 1000" using assms by (simp add: powi_nonneg_int flip: of_nat_power)
  have "rnd (of_nat n) \<le> 2 powi 1000" using rnd_mono [OF q] rnd_powi [of 1000] by simp
  moreover have "(2::rat) powi 1000 < 2 ^ 1024" by (simp add: powi_nonneg_int)
  ultimately have u: "\<bar>rnd (of_nat n)\<bar> < 2 ^ 1024" using rnd_nonneg [of "of_nat n"] by simp
  have l: "rnd (of_nat n) = of_nat n" if "\<bar>rnd (of_nat n)\<bar> < 2 powi (-1022)"
  proof (cases "n = 0")
    case False
    then have "rnd (of_nat n) \<ge> 1" using rnd_mono [of 1 "of_nat n"] by simp
    moreover have "(2::rat) powi (-1022) \<le> 1" by (simp add: power_int_minus)
    ultimately show ?thesis using that by simp
  qed simp
  have "stod (nat_dec n @ []) = round_checked (of_nat n)"
    using stod_digits [OF nat_dec_digits, of "[]" n] by (simp add: number_end_def)
  with u l show ?thesis by (auto simp: parse_number_def round_checked_def)
qed

lemma scale_nat:
  assumes "m \<in> {1, 1000, 60000, 3600000}"
  shows "scale_to_ms (Fin (rnd (of_nat n))) (of_nat m) = Some (if n * m < 9 * 10 ^ 15 then int (n * m) else ms_max)"
proof (cases "n * m < 9 * 10 ^ 15")
  case True
  have "n \<le> n * m" using assms by auto
  then have "n < 9 * 10 ^ 15" using True by (rule le_less_trans)
  then have "n < 2 ^ 53" "n * m < 2 ^ 53" using True by simp_all
  then have f: "fmul (rnd (of_nat n)) (of_nat m) = of_nat (n * m)"
    using rnd_of_nat [of n] rnd_of_nat [of "n * m"] by (simp add: fmul_def flip: of_nat_mult)
  have "(of_nat (n * m) :: rat) < of_nat (9 * 10 ^ 15)" using True by (simp only: of_nat_less_iff)
  then have "(of_nat (n * m) :: rat) < 9 * 10 ^ 15" by simp
  moreover have "(9 * 10 ^ 15 :: rat) \<le> 2 ^ 1024" "- (2 ^ 1024) < (0 :: rat)" by simp_all
  moreover have "(0 :: rat) \<le> of_nat (n * m)" by (rule of_nat_0_le_iff)
  ultimately have b: "\<not> (of_nat (n * m) :: rat) \<ge> 9 * 10 ^ 15" "\<not> (of_nat (n * m) :: rat) \<ge> 2 ^ 1024"
    "\<not> (of_nat (n * m) :: rat) \<le> - (2 ^ 1024)" "\<not> (of_nat (n * m) :: rat) < 0"
    by (simp_all only: not_le not_less order.strict_trans1 order.strict_trans2)
  have t: "trunc_int (of_nat (n * m)) = int (n * m)" by (simp only: trunc_int_nonneg of_nat_0_le_iff floor_of_nat)
  show ?thesis using True by (simp only: scale_to_ms_def xmul.simps f b t if_False if_True xdouble.case)
next
  case False
  have "rnd (of_nat n) * of_nat m \<ge> 9 * 10 ^ 15"
  proof (cases "n < 2 ^ 53")
    case True
    have "(of_nat (9 * 10 ^ 15) :: rat) \<le> of_nat (n * m)" using False by (simp only: of_nat_le_iff)
    with rnd_of_nat [OF True] show ?thesis by simp
  next
    case big: False
    then have "(of_nat (2 ^ 53 - 1) :: rat) \<le> of_nat n" by (simp only: of_nat_le_iff)
    then have "rnd (of_nat (2 ^ 53 - 1)) \<le> rnd (of_nat n)" by (rule rnd_mono)
    then have "9 * 10 ^ 15 \<le> rnd (of_nat n)" using rnd_of_nat [of "2 ^ 53 - 1"] by simp
    then have "9 * 10 ^ 15 * 1 \<le> rnd (of_nat n) * of_nat m" by (intro mult_mono) (use assms in auto)
    then show ?thesis by simp
  qed
  then have "rnd (9 * 10 ^ 15) \<le> fmul (rnd (of_nat n)) (of_nat m)" unfolding fmul_def by (rule rnd_mono)
  moreover have "rnd (9 * 10 ^ 15) = 9 * 10 ^ 15" using rnd_numeral [of "num.Bit0 num.One"] rnd_of_int [of "9 * 10 ^ 15"] by simp
  ultimately have "9 * 10 ^ 15 \<le> fmul (rnd (of_nat n)) (of_nat m)" by simp
  moreover have "- (2 ^ 1024) < (9 * 10 ^ 15 :: rat)" by simp
  ultimately show ?thesis using False by (auto simp: scale_to_ms_def)
qed

lemma seconds_no_ms: "drop (length (nat_dec n @ [c]) - 2) (nat_dec n @ [c]) \<noteq> [CHR ''m'', d]"
proof -
  have d: "isdigit (List.last (nat_dec n))" using nat_dec_digits [of n] by (simp add: list_all_iff)
  have e: "nat_dec n @ [c] = butlast (nat_dec n) @ [List.last (nat_dec n), c]" using nat_dec_digits(2) [of n] by simp
  show ?thesis using d unfolding e by (auto simp: isdigit_def)
qed

definition duration_units :: "(string \<times> nat) list" where
  "duration_units = [(''min'', 60000), (''ms'', 1), (''s'', 1000), (''m'', 60000), (''h'', 3600000)]"

lemma parse_duration_units:
  assumes "n < 2 ^ 1000"
  defines "r m \<equiv> Some (if n * m < 9 * 10 ^ 15 then int (n * m) else ms_max)"
  shows "parse_duration (nat_dec n @ ''min'') = r 60000" "parse_duration (nat_dec n @ ''ms'') = r 1"
    "parse_duration (nat_dec n @ ''s'') = r 1000" "parse_duration (nat_dec n @ ''m'') = r 60000"
    "parse_duration (nat_dec n @ ''h'') = r 3600000"
proof -
  note num = parse_number_nat [OF assms(1)]
  have ns: "\<not> xnegative (Fin (rnd (of_nat n)))" using rnd_nonneg [of "of_nat n"] by simp
  have sc: "scale_to_ms (Fin (rnd (of_nat n))) 60000 = r 60000" "scale_to_ms (Fin (rnd (of_nat n))) 1 = r 1"
    "scale_to_ms (Fin (rnd (of_nat n))) 1000 = r 1000" "scale_to_ms (Fin (rnd (of_nat n))) 3600000 = r 3600000"
    using scale_nat [of 60000 n] scale_nat [of 1 n] scale_nat [of 1000 n] scale_nat [of 3600000 n]
    by (simp_all add: r_def)
  have m3: "drop k (nat_dec n @ u) \<noteq> ''min''" if "List.last u \<noteq> CHR ''n''" "u \<noteq> []" for k u
    using last_of_drop [of k "nat_dec n @ u" "''min''"] that by auto
  have m2: "drop k (nat_dec n @ u) \<noteq> ''ms''" if "List.last u \<noteq> CHR ''s''" "u \<noteq> []" for k u
    using last_of_drop [of k "nat_dec n @ u" "''ms''"] that by auto
  show "parse_duration (nat_dec n @ ''min'') = r 60000" using num sc by (simp add: parse_duration_def)
  show "parse_duration (nat_dec n @ ''ms'') = r 1" using num sc m3 [of "''ms''"] by (simp add: parse_duration_def)
  show "parse_duration (nat_dec n @ ''s'') = r 1000"
    using num sc ns m3 [of "''s''"] seconds_no_ms [of n "CHR ''s''" "CHR ''s''"] by (simp add: parse_duration_def Let_def)
  show "parse_duration (nat_dec n @ ''m'') = r 60000"
    using num sc ns m3 [of "''m''"] m2 [of "''m''"] by (simp add: parse_duration_def Let_def)
  show "parse_duration (nat_dec n @ ''h'') = r 3600000"
    using num sc ns m3 [of "''h''"] m2 [of "''h''"] by (simp add: parse_duration_def Let_def)
qed

lemma parse_duration_printed:
  assumes "n < 2 ^ 1000" "(unit, m) \<in> set duration_units"
  shows "parse_duration (nat_dec n @ unit) = Some (if n * m < 9 * 10 ^ 15 then int (n * m) else ms_max)"
  using assms(2) parse_duration_units [OF assms(1)] by (auto simp only: duration_units_def set_simps insert_iff empty_iff prod.inject)

text \<open>
  Durations round trip. A printed whole number below \<open>2 ^ 1000\<close> with one of the units reads
  back as exactly that many milliseconds, through \<open>stod\<close> and a product of doubles, as long as that
  is below \<open>9 * 10 ^ 15\<close>; from there on it reads as the largest representable duration.
\<close>
theorem parse_duration_exact:
  assumes "n < 2 ^ 1000" "(unit, m) \<in> set duration_units"
  shows "parse_duration (nat_dec n @ unit) = Some (if n * m < 9 * 10 ^ 15 then int (n * m) else ms_max)"
  using assms by (rule parse_duration_printed)

theorem parse_duration_exact_witness: "parse_duration (nat_dec 90 @ ''min'') = Some 5400000"
  using parse_duration_exact [of 90 "''min''" 60000] by (simp add: duration_units_def)

section \<open>Printed sizes\<close>

definition size_units :: "(string \<times> nat) list" where
  "size_units = [([], 0), (''k'', 10), (''KB'', 10), (''m'', 20), (''MB'', 20), (''g'', 30), (''GB'', 30)]"

lemma size_units_facts:
  assumes "(u, k) \<in> set size_units"
  shows "byte_multiplier (map tolower u) = 2 ^ k" "u = [] \<or> \<not> isdigit (hd u)" "k \<le> 30"
proof -
  have "list_all (\<lambda>(u, k). byte_multiplier (map tolower u) = 2 ^ k \<and> (u = [] \<or> \<not> isdigit (hd u)) \<and> k \<le> 30) size_units"
    by code_simp
  with assms show "byte_multiplier (map tolower u) = 2 ^ k" "u = [] \<or> \<not> isdigit (hd u)" "k \<le> 30"
    by (auto simp: list_all_iff)
qed

lemma fmul_shift: "n < 2 ^ 53 \<Longrightarrow> fmul (of_nat n) (2 ^ k) = of_nat (n * 2 ^ k)"
proof -
  assume "n < 2 ^ 53"
  then have "\<bar>int n\<bar> < 2 ^ 53" by (simp flip: of_nat_less_iff)
  then have "rnd (of_int (int n) * 2 powi int k) = of_int (int n) * 2 powi int k" by (rule rnd_representable) simp
  then show ?thesis by (simp add: fmul_def)
qed

text \<open>
  Sizes. A printed number below \<open>2 ^ 53\<close> with a binary unit is the exact product while it fits in
  64 bits, and the largest size beyond; but the product \<open>2 ^ 64\<close> itself passes the test against
  \<open>static_cast<double>(SIZE_MAX)\<close>, and converting it back is undefined behaviour.
\<close>
theorem parse_bytesize_exact:
  assumes "n < 2 ^ 53" "(u, k) \<in> set size_units"
  shows "parse_bytesize (nat_dec n @ u) =
     (if n * 2 ^ k < 2 ^ 64 then Some (of_nat (n * 2 ^ k)) else if n * 2 ^ k = 2 ^ 64 then None else Some (- 1))"
proof -
  note u = size_units_facts [OF assms(2)]
  let ?b = "of_nat (n * 2 ^ k) :: rat"
  have "scan isdigit (nat_dec n @ u) 0 = length (nat_dec n)"
    using digits_split(1) [OF nat_dec_digits(1) u(2)] by (simp add: scan_def)
  moreover have "stod (nat_dec n) = Inr (Fin (of_nat n))"
    using stod_digits [OF nat_dec_digits, of "[]" n] round_checked_nat [OF assms(1)] by (simp add: number_end_def)
  moreover have "n * 2 ^ k < 2 ^ 53 * 2 ^ 30"
    using assms(1) power_increasing [OF u(3), of "2 :: nat"] by (intro mult_less_le_imp_less) auto
  then have "?b < of_nat (2 ^ 53 * 2 ^ 30)" by (simp only: of_nat_less_iff)
  then have "?b < 2 ^ 1024" by (rule less_trans) simp
  moreover have "- (2 ^ 1024) < ?b" by (rule less_le_trans [of _ 0]) simp_all
  moreover have "(?b > 2 ^ 64) = (n * 2 ^ k > 2 ^ 64)" "(?b < 2 ^ 64) = (n * 2 ^ k < 2 ^ 64)"
    using of_nat_less_iff [where 'a = rat, of "2 ^ 64" "n * 2 ^ k"] of_nat_less_iff [where 'a = rat, of "n * 2 ^ k" "2 ^ 64"]
    by simp_all
  moreover have "trunc_int ?b = int (n * 2 ^ k)" by (simp only: trunc_int_nonneg of_nat_0_le_iff floor_of_nat)
  ultimately show ?thesis using nat_dec_digits(2) [of n] u(1) fmul_shift [OF assms(1), of k]
    by (auto simp add: parse_bytesize_def Let_def simp del: of_nat_mult of_nat_power)
qed

theorem parse_bytesize_exact_witness: "parse_bytesize (nat_dec 17179869184 @ ''g'') = None"
  using parse_bytesize_exact [of 17179869184 "''g''" 30] by (simp add: size_units_def)

section \<open>What validation accepts\<close>

lemma first_error_None: "first_error f k xs = None \<longleftrightarrow> (\<forall>i < length xs. f (k + i) (xs ! i) = None)"
proof (induction xs arbitrary: k)
  case (Cons x xs)
  have "(\<forall>i < Suc n. P i) \<longleftrightarrow> P 0 \<and> (\<forall>i < n. P (Suc i))" for P and n :: nat by (auto simp: less_Suc_eq_0_disj)
  with Cons show ?case by (auto split: option.splits)
qed simp

lemma first_error_None_all: "(\<And>i x. f i x = None \<longleftrightarrow> P x) \<Longrightarrow> first_error f k xs = None \<longleftrightarrow> list_all P xs"
  by (simp add: first_error_None list_all_length)

definition step_accepted :: "HttpStep \<Rightarrow> bool" where
  "step_accepted step \<longleftrightarrow> hs_method step \<noteq> [] \<and> hs_path step \<noteq> []
     \<and> list_all (\<lambda>a. check_assertion_format a = None) (hs_assertions step)"

text \<open>
  C28: Schema validation. A configuration is accepted exactly when it has a test id and a base URL, at
  least one scenario, weights of at most 1000, steps with a method, a path and well-formed
  assertions in every scenario, and rates and user counts within their limits in every stage.
\<close>
theorem validate_accepts:
  "validate_scenario_config cfg = None \<longleftrightarrow>
     test_id cfg \<noteq> [] \<and> base_url (sc_target cfg) \<noteq> [] \<and> scenarios cfg \<noteq> []
   \<and> list_all (\<lambda>s. unat (sd_weight s) \<le> 1000 \<and> sd_steps s \<noteq> [] \<and> list_all step_accepted (sd_steps s)) (scenarios cfg)
   \<and> list_all (\<lambda>st. unat (stage_target_rps st) \<le> 1000000 \<and> unat (stage_concurrent_users st) \<le> 100000) (load_profile cfg)"
proof -
  have st: "validate_step si i x = None \<longleftrightarrow> step_accepted x" for si i x
    by (auto simp: validate_step_def step_accepted_def Let_def first_error_None list_all_length)
  have sc: "validate_scenario i x = None \<longleftrightarrow> unat (sd_weight x) \<le> 1000 \<and> sd_steps x \<noteq> [] \<and> list_all step_accepted (sd_steps x)" for i x
    using first_error_None_all [of "validate_step i", OF st, of 0 "sd_steps x"]
    by (auto simp: validate_scenario_def word_less_nat_alt)
  have sg: "validate_stage i x = None \<longleftrightarrow> unat (stage_target_rps x) \<le> 1000000 \<and> unat (stage_concurrent_users x) \<le> 100000" for i x
    by (auto simp: validate_stage_def word_less_nat_alt)
  show ?thesis
    using first_error_None_all [of validate_scenario, OF sc, of 0 "scenarios cfg"]
      first_error_None_all [of validate_stage, OF sg, of 0 "load_profile cfg"]
    by (auto simp: validate_scenario_config_def split: option.splits)
qed

end
