(* ===== verification/Yaml_Parser.thy ===== *)
theory Yaml_Parser
  imports Scenario_Config
begin

text \<open>
  Reading a scenario file, \<open>core/scenario/yaml_parser.cpp\<close>. A parsed document is the tree of nodes
  of the YAML data model; everything yaml-cpp computes on nodes (loading, \<open>operator[]\<close>, \<open>as<T>\<close>,
  printing) is a field of the argument \<open>Y\<close>. The configuration is filled field by field, so
  that what was stored before an error or an exception stays stored.
\<close>

section \<open>Documents\<close>

datatype YNode =
    YUndefined
  | YNull
  | YScalar string
  | YSequence "YNode list"
  | YMap "(YNode \<times> YNode) list"

record Yaml_Lib =
  y_load :: "string \<Rightarrow> string + YNode"               \<comment> \<open>\<open>Inl\<close>: the text of the \<open>YAML::Exception\<close>\<close>
  y_at :: "YNode \<Rightarrow> string \<Rightarrow> cpp_exn + YNode"       \<comment> \<open>\<open>operator[]\<close>\<close>
  y_const_at :: "YNode \<Rightarrow> string \<Rightarrow> cpp_exn + YNode" \<comment> \<open>\<open>operator[] const\<close>\<close>
  y_string :: "YNode \<Rightarrow> cpp_exn + string"
  y_bool :: "YNode \<Rightarrow> cpp_exn + bool"
  y_uint32 :: "YNode \<Rightarrow> cpp_exn + u32"
  y_uint16 :: "YNode \<Rightarrow> cpp_exn + u16"
  y_double :: "YNode \<Rightarrow> cpp_exn + xdouble"
  y_print :: "YNode \<Rightarrow> string"

fun IsScalar :: "YNode \<Rightarrow> bool" where
  "IsScalar (YScalar s) = True" | "IsScalar _ = False"

fun IsMap :: "YNode \<Rightarrow> bool" where
  "IsMap (YMap es) = True" | "IsMap _ = False"

fun IsSequence :: "YNode \<Rightarrow> bool" where
  "IsSequence (YSequence ns) = True" | "IsSequence _ = False"

fun y_items :: "YNode \<Rightarrow> YNode list" where
  "y_items (YSequence ns) = ns" | "y_items _ = []"

fun y_entries :: "YNode \<Rightarrow> (YNode \<times> YNode) list" where
  "y_entries (YMap es) = es" | "y_entries _ = []"

section \<open>Environment variables\<close>

definition valid_var_name :: "string \<Rightarrow> bool" where
  "valid_var_name name \<longleftrightarrow> name \<noteq> [] \<and> list_all (\<lambda>c. isalnum c \<or> c = CHR ''_'') name"

text \<open>
  The value of the text between the braces, and the first missing variable so far. \<open>env\<close> is
  \<open>getenv\<close>.
\<close>

definition env_expr :: "(string \<Rightarrow> string option) \<Rightarrow> string \<Rightarrow> string \<Rightarrow> string \<times> string" where
  "env_expr env expr missing =
     (let colon = find_sub '':-'' expr;
          var_name = (case colon of Some i \<Rightarrow> take i expr | None \<Rightarrow> expr);
          default_val = (case colon of Some i \<Rightarrow> drop (i + 2) expr | None \<Rightarrow> []);
          valid = valid_var_name var_name;
          env_val = (if valid then (case env var_name of Some v \<Rightarrow> v | None \<Rightarrow> []) else [])
      in (if env_val = [] then default_val else env_val,
          if valid \<and> env_val = [] \<and> colon = None \<and> missing = [] then var_name else missing))"

function substitute_scalar :: "(string \<Rightarrow> string option) \<Rightarrow> string \<Rightarrow> string \<Rightarrow> string \<times> string" where
  "substitute_scalar env val missing =
     (case find_sub ''${'' val of
        None \<Rightarrow> (val, missing)
      | Some dollar \<Rightarrow>
          (case find_char (CHR ''}'') (drop (dollar + 2) val) of
             None \<Rightarrow> (val, missing)
           | Some n \<Rightarrow>
               let (v, missing) = env_expr env (take n (drop (dollar + 2) val)) missing;
                   (rest, missing) = substitute_scalar env (drop (dollar + 2 + n + 1) val) missing
               in (take dollar val @ v @ rest, missing)))"
  by pat_completeness auto
termination
proof (relation "measure (\<lambda>(env, val, missing). length val)", goal_cases)
  case (2 env val missing dollar n)
  then have "dollar + 2 \<le> length val" by (auto dest: find_sub_Some)
  with 2 show ?case by auto
qed simp

declare substitute_scalar.simps [simp del]

fun substitute_env :: "(string \<Rightarrow> string option) \<Rightarrow> YNode \<Rightarrow> string \<Rightarrow> YNode \<times> string"
  and substitute_items :: "(string \<Rightarrow> string option) \<Rightarrow> YNode list \<Rightarrow> string \<Rightarrow> YNode list \<times> string"
  and substitute_entries :: "(string \<Rightarrow> string option) \<Rightarrow> (YNode \<times> YNode) list \<Rightarrow> string \<Rightarrow> (YNode \<times> YNode) list \<times> string" where
  "substitute_env env (YScalar val) missing =
     (let (result, missing) = substitute_scalar env val missing in (YScalar result, missing))"
| "substitute_env env (YMap es) missing =
     (let (es, missing) = substitute_entries env es missing in (YMap es, missing))"
| "substitute_env env (YSequence ns) missing =
     (let (ns, missing) = substitute_items env ns missing in (YSequence ns, missing))"
| "substitute_env env YNull missing = (YNull, missing)"
| "substitute_env env YUndefined missing = (YUndefined, missing)"
| "substitute_items env [] missing = ([], missing)"
| "substitute_items env (n # ns) missing =
     (let (n, missing) = substitute_env env n missing; (ns, missing) = substitute_items env ns missing in (n # ns, missing))"
| "substitute_entries env [] missing = ([], missing)"
| "substitute_entries env ((k, n) # es) missing =
     (let (n, missing) = substitute_env env n missing; (es, missing) = substitute_entries env es missing
      in ((k, n) # es, missing))"

section \<open>Filling the configuration\<close>

text \<open>
  How a piece of the parser ends: it goes on, returns false with a message, throws, or meets
  undefined behaviour in a numeric conversion.
\<close>

datatype Parse_End = Go_on | Failed string | Throws cpp_exn | Undefined

type_synonym 'a fill = "'a \<Rightarrow> Parse_End \<times> 'a"

definition then_fill :: "'a fill \<Rightarrow> 'a fill \<Rightarrow> 'a fill" where
  "then_fill f g c = (case f c of (Go_on, c) \<Rightarrow> g c | (e, c) \<Rightarrow> (e, c))"

definition fills :: "'a fill list \<Rightarrow> 'a fill" where
  "fills fs = foldr then_fill fs (\<lambda>c. (Go_on, c))"

definition fail_with :: "bool \<Rightarrow> string \<Rightarrow> 'a fill" where
  "fail_with b msg c = (if b then Failed msg else Go_on, c)"

text \<open>Runs the code with a node an expression may throw for.\<close>

definition with_node :: "cpp_exn + YNode \<Rightarrow> (YNode \<Rightarrow> 'a fill) \<Rightarrow> 'a fill" where
  "with_node r f c = (case r of Inl e \<Rightarrow> (Throws e, c) | Inr n \<Rightarrow> f n c)"

definition if_defined :: "cpp_exn + YNode \<Rightarrow> (YNode \<Rightarrow> 'a fill) \<Rightarrow> 'a fill" where
  "if_defined r f = with_node r (\<lambda>n c. if n = YUndefined then (Go_on, c) else f n c)"

definition store :: "cpp_exn + 'v \<Rightarrow> ('v \<Rightarrow> 'a \<Rightarrow> 'a) \<Rightarrow> 'a fill" where
  "store r upd c = (case r of Inl e \<Rightarrow> (Throws e, c) | Inr v \<Rightarrow> (Go_on, upd v c))"

definition store_opt :: "cpp_exn + 'v option \<Rightarrow> ('v \<Rightarrow> 'a \<Rightarrow> 'a) \<Rightarrow> 'a fill" where
  "store_opt r upd c = (case r of Inl e \<Rightarrow> (Throws e, c) | Inr None \<Rightarrow> (Undefined, c) | Inr (Some v) \<Rightarrow> (Go_on, upd v c))"

text \<open>\<open>if (node[key]) field = node[key].as<T>();\<close>\<close>

definition get_field :: "(YNode \<Rightarrow> string \<Rightarrow> cpp_exn + YNode) \<Rightarrow> YNode \<Rightarrow> string \<Rightarrow> (YNode \<Rightarrow> cpp_exn + 'v) \<Rightarrow> ('v \<Rightarrow> 'a \<Rightarrow> 'a) \<Rightarrow> 'a fill" where
  "get_field sel node key conv upd = if_defined (sel node key) (\<lambda>n. store (conv n) upd)"

text \<open>A local object is filled, then appended by \<open>done\<close> unless the filling ended early.\<close>

definition fill_local :: "'b \<Rightarrow> 'b fill \<Rightarrow> ('b \<Rightarrow> 'a \<Rightarrow> 'a) \<Rightarrow> 'a fill" where
  "fill_local b f add c = (case f b of (Go_on, b) \<Rightarrow> (Go_on, add b c) | (e, _) \<Rightarrow> (e, c))"

definition skip :: "'a fill" where "skip c = (Go_on, c)"

definition catch_yaml :: "string \<Rightarrow> 'a fill \<Rightarrow> 'a fill" where
  "catch_yaml msg f c = (case f c of (Throws (Yaml_error e), c) \<Rightarrow> (Failed (msg @ e), c) | r \<Rightarrow> r)"

definition upd_target :: "(TargetConfig \<Rightarrow> TargetConfig) \<Rightarrow> ScenarioConfig \<Rightarrow> ScenarioConfig" where
  "upd_target f c = c\<lparr>sc_target := f (sc_target c)\<rparr>"

definition fill_target :: "Yaml_Lib \<Rightarrow> YNode \<Rightarrow> string \<Rightarrow> ScenarioConfig fill" where
  "fill_target Y rootn missing_var = with_node (y_const_at Y rootn ''target'') (\<lambda>target. fills
     [fail_with (\<not> IsMap target) ''target must be a mapping'',
      get_field (y_const_at Y) rootn ''version'' (y_string Y) (\<lambda>v c. c\<lparr>sc_version := v\<rparr>),
      get_field (y_const_at Y) rootn ''test_id'' (y_string Y) (\<lambda>v c. c\<lparr>test_id := v\<rparr>),
      get_field (y_const_at Y) target ''base_url'' (y_string Y) (\<lambda>v. upd_target (\<lambda>t. t\<lparr>base_url := v\<rparr>)),
      get_field (y_const_at Y) target ''protocol'' (y_string Y) (\<lambda>v. upd_target (\<lambda>t. t\<lparr>protocol := v\<rparr>)),
      if_defined (y_const_at Y target ''tls'') (\<lambda>tls.
        get_field (y_const_at Y) tls ''verify'' (y_bool Y) (\<lambda>v. upd_target (\<lambda>t. t\<lparr>tls_verify := v\<rparr>))),
      if_defined (y_const_at Y target ''max_body_bytes'') (\<lambda>n.
        store_opt (exn_bind (y_string Y n) (\<lambda>s. Inr (parse_bytesize s))) (\<lambda>v. upd_target (\<lambda>t. t\<lparr>max_body_bytes := v\<rparr>))),
      \<lambda>c. fail_with (missing_var \<noteq> [] \<and> base_url (sc_target c) = [])
        (''target.base_url is empty; environment variable '' @ quoted (''${'' @ missing_var @ ''}'') @ '' is not set and has no default'') c])"

definition fill_stage :: "Yaml_Lib \<Rightarrow> YNode \<Rightarrow> ScenarioConfig fill" where
  "fill_stage Y st = fill_local Stage_default (fills
     [get_field (y_at Y) st ''stage'' (y_string Y) (\<lambda>v s. s\<lparr>stage_name := v\<rparr>),
      if_defined (y_at Y st ''duration'') (\<lambda>n.
        store_opt (exn_bind (y_string Y n) (\<lambda>s. Inr (parse_duration s))) (\<lambda>v s. s\<lparr>stage_duration := v\<rparr>)),
      get_field (y_at Y) st ''target_rps'' (y_uint32 Y) (\<lambda>v s. s\<lparr>stage_target_rps := v\<rparr>),
      get_field (y_at Y) st ''concurrent_users'' (y_uint32 Y) (\<lambda>v s. s\<lparr>stage_concurrent_users := v\<rparr>)])
     (\<lambda>stage c. c\<lparr>load_profile := load_profile c @ [stage]\<rparr>)"

text \<open>In \<open>headers[key] = value\<close> the value is converted before the key.\<close>

definition fill_header :: "Yaml_Lib \<Rightarrow> YNode \<times> YNode \<Rightarrow> HttpStep fill" where
  "fill_header Y h = store (exn_bind (y_string Y (snd h)) (\<lambda>v. exn_bind (y_string Y (fst h)) (\<lambda>k. Inr (k, v))))
     (\<lambda>(k, v) s. s\<lparr>hs_headers := AList.update k v (hs_headers s)\<rparr>)"

definition fill_step :: "Yaml_Lib \<Rightarrow> YNode \<Rightarrow> ScenarioDef fill" where
  "fill_step Y step_node = if_defined (y_at Y step_node ''http'') (\<lambda>http. fill_local HttpStep_default (fills
     [get_field (y_at Y) http ''method'' (y_string Y) (\<lambda>v s. s\<lparr>hs_method := v\<rparr>),
      get_field (y_at Y) http ''path'' (y_string Y) (\<lambda>v s. s\<lparr>hs_path := v\<rparr>),
      if_defined (y_at Y http ''body'') (\<lambda>n.
        store (if IsScalar n then y_string Y n else Inr (y_print Y n)) (\<lambda>v s. s\<lparr>hs_body := v\<rparr>)),
      if_defined (y_at Y http ''headers'') (\<lambda>n. if IsMap n then fills (map (fill_header Y) (y_entries n)) else skip),
      if_defined (y_at Y http ''assertions'') (\<lambda>n. if IsSequence n then
          fills (map (\<lambda>a. if IsScalar a then store (y_string Y a) (\<lambda>v s. s\<lparr>hs_assertions := hs_assertions s @ [v]\<rparr>) else skip) (y_items n))
        else skip)])
     (\<lambda>step s. s\<lparr>sd_steps := sd_steps s @ [step]\<rparr>))"

definition fill_scenario :: "Yaml_Lib \<Rightarrow> YNode \<Rightarrow> ScenarioConfig fill" where
  "fill_scenario Y sc = fill_local ScenarioDef_default (fills
     [get_field (y_at Y) sc ''name'' (y_string Y) (\<lambda>v s. s\<lparr>sd_name := v\<rparr>),
      get_field (y_at Y) sc ''weight'' (y_uint32 Y) (\<lambda>v s. s\<lparr>sd_weight := v\<rparr>),
      if_defined (y_at Y sc ''steps'') (\<lambda>n. if IsSequence n then fills (map (fill_step Y) (y_items n)) else skip)])
     (\<lambda>s c. c\<lparr>scenarios := scenarios c @ [s]\<rparr>)"

definition upd_auth :: "(ScenarioAuthConfig \<Rightarrow> ScenarioAuthConfig) \<Rightarrow> ScenarioConfig \<Rightarrow> ScenarioConfig" where
  "upd_auth f c = c\<lparr>authentication := f (authentication c)\<rparr>"

definition fill_authentication :: "Yaml_Lib \<Rightarrow> YNode \<Rightarrow> ScenarioConfig fill" where
  "fill_authentication Y auth = fills
     [get_field (y_at Y) auth ''type'' (y_string Y) (\<lambda>v. upd_auth (\<lambda>a. a\<lparr>sa_type := v\<rparr>)),
      get_field (y_at Y) auth ''token_endpoint'' (y_string Y) (\<lambda>v. upd_auth (\<lambda>a. a\<lparr>sa_token_endpoint := v\<rparr>)),
      if_defined (y_at Y auth ''client_credentials'') (\<lambda>cc. fills
        [get_field (y_at Y) cc ''client_id'' (y_string Y) (\<lambda>v. upd_auth (\<lambda>a. a\<lparr>sa_client_id := v\<rparr>)),
         get_field (y_at Y) cc ''client_secret'' (y_string Y) (\<lambda>v. upd_auth (\<lambda>a. a\<lparr>sa_client_secret := v\<rparr>))])]"

definition upd_obs :: "(ObservabilityConfig \<Rightarrow> ObservabilityConfig) \<Rightarrow> ScenarioConfig \<Rightarrow> ScenarioConfig" where
  "upd_obs f c = c\<lparr>observability := f (observability c)\<rparr>"

definition fill_observability :: "Yaml_Lib \<Rightarrow> YNode \<Rightarrow> ScenarioConfig fill" where
  "fill_observability Y obs = fills
     [if_defined (y_at Y obs ''metrics'') (\<lambda>m. if_defined (y_at Y m ''prometheus'') (\<lambda>pm. fills
        [get_field (y_at Y) pm ''enabled'' (y_bool Y) (\<lambda>v. upd_obs (\<lambda>ob. ob\<lparr>prometheus_enabled := v\<rparr>)),
         get_field (y_at Y) pm ''port'' (y_uint16 Y) (\<lambda>v. upd_obs (\<lambda>ob. ob\<lparr>prometheus_port := v\<rparr>))])),
      if_defined (y_at Y obs ''tracing'') (\<lambda>tr. fills
        [get_field (y_at Y) tr ''otlp_endpoint'' (y_string Y) (\<lambda>v. upd_obs (\<lambda>ob. ob\<lparr>otlp_endpoint := v\<rparr>)),
         get_field (y_at Y) tr ''sample_rate'' (y_double Y) (\<lambda>v. upd_obs (\<lambda>ob. ob\<lparr>sample_rate := v\<rparr>))]),
      if_defined (y_at Y obs ''logging'') (\<lambda>lg. fills
        [get_field (y_at Y) lg ''level'' (y_string Y) (\<lambda>v. upd_obs (\<lambda>ob. ob\<lparr>log_level := v\<rparr>)),
         get_field (y_at Y) lg ''format'' (y_string Y) (\<lambda>v. upd_obs (\<lambda>ob. ob\<lparr>log_format := v\<rparr>))])]"

definition fill_sla :: "Yaml_Lib \<Rightarrow> YNode \<Rightarrow> ScenarioConfig fill" where
  "fill_sla Y n = fills
     [if_defined (y_at Y n ''error_rate'') (\<lambda>e.
        store (exn_bind (y_string Y e) (\<lambda>s. Inr (parse_error_rate s))) (\<lambda>v c. c\<lparr>sla := (sla c)\<lparr>max_error_rate := v\<rparr>\<rparr>)),
      if_defined (y_at Y n ''p99_latency'') (\<lambda>e.
        store_opt (exn_bind (y_string Y e) (\<lambda>s. Inr (parse_latency s))) (\<lambda>v c. c\<lparr>sla := (sla c)\<lparr>max_p99_latency := v\<rparr>\<rparr>))]"

definition fill_sections :: "Yaml_Lib \<Rightarrow> YNode \<Rightarrow> ScenarioConfig fill" where
  "fill_sections Y rootn = fills
     [if_defined (y_at Y rootn ''load_profile'') (\<lambda>n. if IsSequence n then fills (map (fill_stage Y) (y_items n)) else skip),
      if_defined (y_at Y rootn ''scenarios'') (\<lambda>n. if IsSequence n then fills (map (fill_scenario Y) (y_items n)) else skip),
      if_defined (y_at Y rootn ''authentication'') (fill_authentication Y),
      if_defined (y_at Y rootn ''observability'') (fill_observability Y),
      if_defined (y_at Y rootn ''sla'') (fill_sla Y)]"

text \<open>\<open>file\<close> is the content of the file, \<open>None\<close> when it cannot be opened. The result true is \<open>Go_on\<close>.\<close>

definition parse_config_file ::
  "Yaml_Lib \<Rightarrow> (string \<Rightarrow> string option) \<Rightarrow> string option \<Rightarrow> string \<Rightarrow> ScenarioConfig fill" where
  "parse_config_file Y env file path config = (case file of
     None \<Rightarrow> (Failed (''Cannot open config file: '' @ path), config)
   | Some text \<Rightarrow>
       (case y_load Y text of
          Inl what \<Rightarrow> (Failed (''YAML parse error: '' @ what), config)
        | Inr doc \<Rightarrow>
            let (rootn, missing_var) = substitute_env env doc []
            in if \<not> IsMap rootn then (Failed ''YAML root must be a mapping'', config)
               else with_node (y_const_at Y rootn ''target'') (\<lambda>target.
                 if target = YUndefined then (\<lambda>c. (Failed ''target section is required'', c))
                 else then_fill (catch_yaml ''YAML target parse error: '' (fill_target Y rootn missing_var))
                        (fill_sections Y rootn)) config))"

section \<open>Templates\<close>

text \<open>A text with variables: literal texts, each before a variable with or without a default, and a final text.\<close>

type_synonym piece = "string \<times> string \<times> string option"

fun render_piece :: "piece \<Rightarrow> string" where
  "render_piece (lit, name, d) = lit @ ''${'' @ name @ (case d of Some v \<Rightarrow> '':-'' @ v | None \<Rightarrow> []) @ ''}''"

fun piece_ok :: "piece \<Rightarrow> bool" where
  "piece_ok (lit, name, d) \<longleftrightarrow> find_sub ''${'' lit = None \<and> valid_var_name name
     \<and> (case d of Some v \<Rightarrow> CHR ''}'' \<notin> set v | None \<Rightarrow> True)"

definition env_value :: "(string \<Rightarrow> string option) \<Rightarrow> string \<Rightarrow> string" where
  "env_value env name = (case env name of Some v \<Rightarrow> v | None \<Rightarrow> [])"

fun piece_value :: "(string \<Rightarrow> string option) \<Rightarrow> piece \<Rightarrow> string" where
  "piece_value env (lit, name, d) =
     lit @ (if env_value env name \<noteq> [] then env_value env name else case d of Some v \<Rightarrow> v | None \<Rightarrow> [])"

fun piece_missing :: "(string \<Rightarrow> string option) \<Rightarrow> piece \<Rightarrow> string \<Rightarrow> string" where
  "piece_missing env (lit, name, d) m = (if m = [] \<and> d = None \<and> env_value env name = [] then name else m)"

lemma find_open: "find_sub ''${'' lit = None \<Longrightarrow> find_sub ''${'' (lit @ ''${'' @ r) = Some (length lit)"
proof (induction lit)
  case (Cons c lit)
  have "\<not> prefix ''${'' (c # lit @ ''${'' @ r)" using Cons.prems by (cases lit) (auto split: if_splits)
  with Cons show ?case by (auto split: if_splits)
qed simp

lemma find_brace: "CHR ''}'' \<notin> set e \<Longrightarrow> find_char (CHR ''}'') (e @ ''}'' @ r) = Some (length e)"
  by (simp add: find_char_Some)

lemma var_name_chars: "valid_var_name name \<Longrightarrow> c \<in> set name \<Longrightarrow> c \<noteq> CHR '':'' \<and> c \<noteq> CHR ''}''"
  by (auto simp: valid_var_name_def list_all_iff isalnum_def isalpha_def isupper_def islower_def isdigit_def)

lemma find_default:
  assumes "\<forall>c \<in> set name. c \<noteq> CHR '':''"
  shows "find_sub '':-'' (name @ '':-'' @ v) = Some (length name)" "find_sub '':-'' name = None"
  using assms by (induction name) (auto simp: prefix_def)

lemma env_expr_piece:
  assumes "valid_var_name name"
  shows "env_expr env (name @ (case d of Some v \<Rightarrow> '':-'' @ v | None \<Rightarrow> [])) m =
     (if env_value env name \<noteq> [] then env_value env name else case d of Some v \<Rightarrow> v | None \<Rightarrow> [],
      piece_missing env (lit, name, d) m)"
proof -
  have f: "\<forall>c \<in> set name. c \<noteq> CHR '':''" using var_name_chars [OF assms] by blast
  show ?thesis using find_default [OF f] assms
    by (cases d) (auto simp: env_expr_def Let_def env_value_def)
qed

lemma substitute_piece:
  assumes "piece_ok (lit, name, d)"
  shows "substitute_scalar env (render_piece (lit, name, d) @ r) m =
     (let (v, m') = substitute_scalar env r (piece_missing env (lit, name, d) m)
      in (piece_value env (lit, name, d) @ v, m'))"
proof -
  let ?e = "name @ (case d of Some v \<Rightarrow> '':-'' @ v | None \<Rightarrow> [])"
  have n: "valid_var_name name" and t: "find_sub ''${'' lit = None" using assms by simp_all
  have b: "CHR ''}'' \<notin> set ?e" using assms var_name_chars [OF n] by (auto split: option.splits)
  have s: "render_piece (lit, name, d) @ r = lit @ ''${'' @ ?e @ ''}'' @ r" by simp
  have d: "drop (length lit + 2) (lit @ ''${'' @ ?e @ ''}'' @ r) = ?e @ ''}'' @ r"
    "drop (length lit + 2 + length ?e + 1) (lit @ ''${'' @ ?e @ ''}'' @ r) = r"
    using drop_drop [of "length ?e + 1" "length lit + 2" "lit @ ''${'' @ ?e @ ''}'' @ r"] by simp_all
  have k: "take (length ?e) (?e @ ''}'' @ r) = ?e" "take (length lit) (lit @ ''${'' @ ?e @ ''}'' @ r) = lit" by simp_all
  have "substitute_scalar env (lit @ ''${'' @ ?e @ ''}'' @ r) m =
     (let (v, m') = env_expr env ?e m; (rest, m'') = substitute_scalar env r m' in (lit @ v @ rest, m''))"
    by (subst substitute_scalar.simps)
      (simp only: find_open [OF t] option.case d find_brace [OF b] k)
  then show ?thesis unfolding s env_expr_piece [OF n, of env d m lit] by (simp add: Let_def split: prod.splits)
qed

section \<open>Properties\<close>

text \<open>
  C25: Environment variables in a scalar. A text with any number of \<open>${NAME}\<close> and
  \<open>${NAME:-default}\<close> is replaced piece by piece: a variable with a non-empty value by the value,
  one with a default by the default, any other by nothing, and then the first of these is reported.
  Values are not substituted again.
\<close>
theorem substitute_template:
  assumes "list_all piece_ok ps" "find_sub ''${'' tail = None"
  shows "substitute_scalar env (concat (map render_piece ps) @ tail) m =
     (concat (map (piece_value env) ps) @ tail, fold (piece_missing env) ps m)"
  using assms(1)
proof (induction ps arbitrary: m)
  case Nil
  then show ?case using assms(2) by (subst substitute_scalar.simps) simp
next
  case (Cons p ps)
  obtain lit name d where p: "p = (lit, name, d)" by (cases p)
  with Cons.prems have "piece_ok (lit, name, d)" by simp
  from substitute_piece [OF this, of env "concat (map render_piece ps) @ tail" m] Cons p show ?case by simp
qed

theorem substitute_template_witness:
  "substitute_scalar (\<lambda>n. if n = ''HOST'' then Some ''db'' else None)
     (concat (map render_piece [(''http://'', ''HOST'', None), ('':'', ''PORT'', Some ''80'')]) @ ''/'') []
   = (''http://db:80/'', [])"
proof -
  have "list_all piece_ok [(''http://'', ''HOST'', None), ('':'', ''PORT'', Some ''80'')]" by code_simp
  from substitute_template [OF this, of "''/''"] show ?thesis by (simp add: env_value_def)
qed

text \<open>
  Only the target section is guarded. A value of the load profile that yaml-cpp cannot convert,
  such as a rate that is not a number, leaves \<open>parse_config_file\<close> as an exception, while its callers
  test the returned flag.
\<close>
theorem config_error_escapes:
  assumes "y_load Y lit = Inr doc" "substitute_env env doc [] = (YMap es, missing_var)"
    and "y_const_at Y (YMap es) ''target'' = Inr target" "target \<noteq> YUndefined"
    and "fill_target Y (YMap es) missing_var config = (Go_on, c')"
    and "y_at Y (YMap es) ''load_profile'' = Inr (YSequence (st # ns))"
    and "y_at Y st ''stage'' = Inr YUndefined" "y_at Y st ''duration'' = Inr YUndefined"
    and "y_at Y st ''target_rps'' = Inr n" "n \<noteq> YUndefined" "y_uint32 Y n = Inl e"
  shows "parse_config_file Y env (Some lit) path config = (Throws e, c')"
  using assms
  by (simp add: parse_config_file_def with_node_def then_fill_def catch_yaml_def fill_sections_def fills_def if_defined_def
      fill_stage_def fill_local_def get_field_def store_def)

text \<open>An instance: a library over documents of scalars, with unsigned numbers of decimal digits.\<close>

fun y_pick :: "(YNode \<times> YNode) list \<Rightarrow> string \<Rightarrow> YNode" where
  "y_pick [] key = YUndefined"
| "y_pick ((k, n) # es) key = (if k = YScalar key then n else y_pick es key)"

definition y_lookup :: "YNode \<Rightarrow> string \<Rightarrow> cpp_exn + YNode" where
  "y_lookup n key = (case n of YMap es \<Rightarrow> Inr (y_pick es key) | YScalar s \<Rightarrow> Inl (Yaml_error ''operator[] call on a scalar'') | _ \<Rightarrow> Inr YUndefined)"

definition y_scalar :: "(string \<Rightarrow> 'v option) \<Rightarrow> YNode \<Rightarrow> cpp_exn + 'v" where
  "y_scalar f n = (case n of
     YScalar s \<Rightarrow> (case f s of Some v \<Rightarrow> Inr v | None \<Rightarrow> Inl (Yaml_error ''bad conversion''))
   | _ \<Rightarrow> Inl (Yaml_error ''bad conversion''))"

definition y_number :: "string \<Rightarrow> nat option" where
  "y_number s = (if s \<noteq> [] \<and> list_all isdigit s then Some (digits_val s) else None)"

definition simple_yaml :: "YNode \<Rightarrow> Yaml_Lib" where
  "simple_yaml doc = \<lparr>y_load = (\<lambda>_. Inr doc), y_at = y_lookup, y_const_at = y_lookup, y_string = y_scalar Some,
     y_bool = y_scalar (\<lambda>s. if s = ''true'' then Some True else if s = ''false'' then Some False else None),
     y_uint32 = y_scalar (map_option of_nat \<circ> y_number), y_uint16 = y_scalar (map_option of_nat \<circ> y_number),
     y_double = y_scalar (map_option (Fin \<circ> of_nat) \<circ> y_number), y_print = (\<lambda>_. [])\<rparr>"

theorem config_error_escapes_witness:
  "\<exists>Y c'. parse_config_file Y (\<lambda>_. None) (Some ''text'') ''f'' ScenarioConfig_default = (Throws (Yaml_error ''bad conversion''), c')"
proof -
  let ?t = "YMap []" and ?st = "YMap [(YScalar ''target_rps'', YScalar ''fast'')]"
  let ?es = "[(YScalar ''target'', ?t), (YScalar ''load_profile'', YSequence [?st])]"
  let ?Y = "simple_yaml (YMap ?es)"
  have at: "y_lookup (YMap ?es) ''target'' = Inr ?t" "y_lookup (YMap ?es) ''load_profile'' = Inr (YSequence [?st])"
    "y_lookup ?st ''stage'' = Inr YUndefined" "y_lookup ?st ''duration'' = Inr YUndefined"
    "y_lookup ?st ''target_rps'' = Inr (YScalar ''fast'')"
    by (simp_all add: y_lookup_def)
  have no: "substitute_scalar (\<lambda>_. None) ''fast'' [] = (''fast'', [])" by (subst substitute_scalar.simps) simp
  have "fill_target ?Y (YMap ?es) [] ScenarioConfig_default = (Go_on, ScenarioConfig_default)"
    by (simp add: fill_target_def simple_yaml_def with_node_def y_lookup_def fills_def then_fill_def fail_with_def
        get_field_def if_defined_def)
  moreover have "\<not> list_all isdigit ''fast''" by code_simp
  ultimately have "parse_config_file ?Y (\<lambda>_. None) (Some ''text'') ''f'' ScenarioConfig_default
      = (Throws (Yaml_error ''bad conversion''), ScenarioConfig_default)"
    by (intro config_error_escapes [where es = ?es and missing_var = "[]" and ns = "[]" and n = "YScalar ''fast''" and st = ?st and target = ?t and doc = "YMap ?es"])
      (simp_all add: no at simple_yaml_def y_scalar_def y_number_def)
  then show ?thesis by blast
qed

end
