(* ===== verification/Net_Protocol.thy ===== *)
theory Net_Protocol
  imports Volley_Error Volley_String
begin

text \<open>
  Requests and responses as every protocol client takes and gives them,
  \<open>include/cppload/net/protocol.hpp\<close>, and the registry of clients by protocol name,
  \<open>core/net/protocol_factory.cpp\<close>. A factory is a value of any type, called by the user of the registry.
\<close>

record NetRequest =
  nr_method :: string
  nr_path :: string
  nr_body :: string
  nr_headers :: "(string \<times> string) list"
  nr_host :: string
  nr_port :: u16
  nr_use_tls :: bool
  nr_protocol :: string

definition NetRequest_default :: NetRequest where
  "NetRequest_default = \<lparr>nr_method = ''GET'', nr_path = ''/'', nr_body = [], nr_headers = [], nr_host = [], nr_port = 80,
     nr_use_tls = False, nr_protocol = ''http1.1''\<rparr>"

record NetResponse =
  ns_status_code :: u16
  ns_body :: string
  ns_headers :: "(string \<times> string) list"
  ns_latency :: int
  ns_ec :: "Err option"
  ns_body_truncated :: bool

definition NetResponse_default :: NetResponse where
  "NetResponse_default = \<lparr>ns_status_code = 0, ns_body = [], ns_headers = [], ns_latency = 0, ns_ec = None, ns_body_truncated = False\<rparr>"

text \<open>\<open>duration_cast<microseconds>\<close> of nanoseconds: rounded towards zero.\<close>

definition micros :: "int \<Rightarrow> int" where
  "micros d = (if d \<ge> 0 then d div 1000 else - (- d div 1000))"

section \<open>The registry\<close>

type_synonym 'f registry = "(string \<times> 'f) list"

definition builtin_registry :: "'f \<Rightarrow> 'f \<Rightarrow> 'f \<Rightarrow> 'f registry" where
  "builtin_registry http tcp ws = [(''http1.1'', http), (''tcp_raw'', tcp), (''ws'', ws)]"

definition not_registered :: "string \<Rightarrow> cpp_exn" where
  "not_registered name = Runtime_error (''protocol '' @ [CHR 0x22] @ name @ [CHR 0x22] @ '' is not registered: '' @ err_message not_implemented)"

definition create_protocol :: "string \<Rightarrow> 'f registry \<Rightarrow> cpp_exn + 'f" where
  "create_protocol protocol_name reg =
     (let key = (if protocol_name = [] then ''http1.1'' else protocol_name)
      in case map_of reg key of Some f \<Rightarrow> Inr f | None \<Rightarrow> Inl (not_registered protocol_name))"

definition register_protocol :: "string \<Rightarrow> 'f \<Rightarrow> 'f registry \<Rightarrow> 'f registry" where
  "register_protocol name factory reg = AList.update name factory reg"

definition available_protocols :: "'f registry \<Rightarrow> string list" where
  "available_protocols reg = map fst reg"

lemma create_registered:
  "name \<noteq> [] \<Longrightarrow> create_protocol n (register_protocol name f reg) =
     (if (if n = [] then ''http1.1'' else n) = name then Inr f else create_protocol n reg)"
  by (auto simp: create_protocol_def register_protocol_def Let_def)

lemma create_available:
  "(\<exists>f. create_protocol n reg = Inr f) \<longleftrightarrow> (if n = [] then ''http1.1'' else n) \<in> set (available_protocols reg)"
proof -
  let ?k = "if n = [] then ''http1.1'' else n"
  have "map_of reg ?k = None \<longleftrightarrow> ?k \<notin> set (available_protocols reg)"
    by (simp add: map_of_eq_None_iff available_protocols_def)
  then show ?thesis by (cases "map_of reg ?k") (simp_all add: create_protocol_def Let_def)
qed

end
