(* ===== verification/Scenario_Engine.thy ===== *)
theory Scenario_Engine
  imports Yaml_Parser Token_Bucket Ring_Collector Url Net_Protocol
begin

text \<open>
  The scenario engine, \<open>core/scenario/engine.cpp\<close>: assertions on responses, the weighted choice of a
  scenario, the engine's settings, URL resolution, the handling of a response and the SLA check. The
  run itself, with its stages, workers and connection pool, is in the theory \<open>Engine_Run\<close>. Clock readings and
  the random draw are arguments.
\<close>

section \<open>Assertions\<close>

definition unit_us :: "string \<Rightarrow> int option" where
  "unit_us unit =
     (if unit = ''us'' then Some 1 else if unit = ''ms'' then Some 1000 else if unit = ''s'' then Some (1000 * 1000)
      else if unit = ''m'' then Some (60 * 1000 * 1000) else if unit = ''h'' then Some (3600 * 1000 * 1000) else None)"

definition parse_duration_us :: "string \<Rightarrow> int" where
  "parse_duration_us str =
     (let pos = scan isdigit str 0 in
      if str = [] \<or> pos = 0 then - 1
      else case stoll (take pos str) of
        Inl _ \<Rightarrow> - 1
      | Inr v \<Rightarrow>
          (case unit_us (drop pos str) of
             None \<Rightarrow> - 1
           | Some mul \<Rightarrow> if v < 0 \<or> v > (2 ^ 63 - 1) div mul then - 1 else v * mul))"

definition compare_op :: "int \<Rightarrow> string \<Rightarrow> int \<Rightarrow> bool" where
  "compare_op actual oper expected =
     (if oper = ''=='' then actual = expected
      else if oper = ''!='' then actual \<noteq> expected
      else if oper = ''>'' then actual > expected
      else if oper = ''>='' then actual \<ge> expected
      else if oper = ''<'' then actual < expected
      else if oper = ''<='' then actual \<le> expected
      else False)"

text \<open>\<open>stream >> word\<close>: the next word and what follows it.\<close>

definition read_word :: "string \<Rightarrow> string \<times> string" where
  "read_word s = (let s = dropWhile isspace s in (takeWhile (\<lambda>c. \<not> isspace c) s, dropWhile (\<lambda>c. \<not> isspace c) s))"

definition evaluate_assertion :: "string \<Rightarrow> NetResponse \<Rightarrow> bool" where
  "evaluate_assertion expr response =
     (let (lhs, s) = read_word expr; (oper, s) = read_word s; (rhs, s) = read_word s in
      if oper = [] \<or> rhs = [] then False
      else if lhs = ''status_code'' then
        (case stol rhs of Inl _ \<Rightarrow> False | Inr expected \<Rightarrow> compare_op (int (unat (ns_status_code response))) oper expected)
      else if lhs = ''latency'' then
        (let expected_us = parse_duration_us rhs in
         if expected_us < 0 then False else compare_op (ns_latency response) oper expected_us)
      else False)"

definition evaluate_assertions :: "HttpStep \<Rightarrow> NetResponse \<Rightarrow> bool" where
  "evaluate_assertions step response = list_all (\<lambda>expr. evaluate_assertion expr response) (hs_assertions step)"

section \<open>Choice of a scenario\<close>

definition scenario_weight :: "ScenarioDef \<Rightarrow> nat" where
  "scenario_weight s = (if sd_weight s > 0 then unat (sd_weight s) else 1)"

definition total_weight :: "ScenarioDef list \<Rightarrow> nat" where
  "total_weight ss = (\<Sum>s \<leftarrow> ss. scenario_weight s)"

text \<open>The pointer returned is the position in the vector.\<close>

fun pick_from :: "ScenarioDef list \<Rightarrow> nat \<Rightarrow> nat option" where
  "pick_from [] pick = None"
| "pick_from (s # ss) pick =
     (if pick < scenario_weight s then Some 0 else map_option Suc (pick_from ss (pick - scenario_weight s)))"

text \<open>\<open>pick\<close> is the draw of the uniform distribution on the numbers below the total weight.\<close>

definition pick_weighted_scenario :: "ScenarioDef list \<Rightarrow> nat \<Rightarrow> nat option" where
  "pick_weighted_scenario ss pick =
     (if ss = [] then None else case pick_from ss pick of Some i \<Rightarrow> Some i | None \<Rightarrow> Some (length ss - 1))"

section \<open>The engine\<close>

record ScenarioEngine =
  en_stopped :: bool
  en_config_path :: string
  en_config :: ScenarioConfig
  en_last_error :: string
  en_bucket :: TokenBucket
  en_target_rps :: u32
  en_max_duration_ms :: int
  en_worker_failures :: nat

definition ScenarioEngine_new :: "string \<Rightarrow> time_ns \<Rightarrow> cpp_exn + ScenarioEngine" where
  "ScenarioEngine_new path now = exn_bind (TokenBucket_new 100 100 now) (\<lambda>b.
     Inr \<lparr>en_stopped = False, en_config_path = path, en_config = ScenarioConfig_default, en_last_error = [],
       en_bucket = b, en_target_rps = 100, en_max_duration_ms = 0, en_worker_failures = 0\<rparr>)"

definition engine_stop :: "ScenarioEngine \<Rightarrow> ScenarioEngine" where
  "engine_stop e = e\<lparr>en_stopped := True\<rparr>"

text \<open>\<open>now\<close> and \<open>now'\<close> are the clock in the two calls of the bucket.\<close>

definition set_target_rps :: "u32 \<Rightarrow> time_ns \<Rightarrow> time_ns \<Rightarrow> ScenarioEngine \<Rightarrow> cpp_exn + ScenarioEngine" where
  "set_target_rps rps now now' e =
     (let rate = (if rps > 0 then rnd (of_nat (unat rps)) else 100);
          e = e\<lparr>en_target_rps := (if rps > 0 then rps else 100)\<rparr>
      in exn_bind (set_rate rate now (en_bucket e)) (\<lambda>b.
         exn_bind (set_burst (max 100 rate) now' b) (\<lambda>b. Inr (e\<lparr>en_bucket := b\<rparr>))))"

definition set_max_duration :: "int \<Rightarrow> ScenarioEngine \<Rightarrow> ScenarioEngine" where
  "set_max_duration duration e = e\<lparr>en_max_duration_ms := (if duration > 0 then duration else 0)\<rparr>"

definition engine_validate :: "ScenarioEngine \<Rightarrow> bool \<times> ScenarioEngine" where
  "engine_validate e =
     (if test_id (en_config e) = [] then (False, e\<lparr>en_last_error := ''test_id is required''\<rparr>)
      else if base_url (sc_target (en_config e)) = [] then (False, e\<lparr>en_last_error := ''target.base_url is required''\<rparr>)
      else (True, e))"

definition engine_validate_schema :: "ScenarioEngine \<Rightarrow> bool \<times> ScenarioEngine" where
  "engine_validate_schema e = (case validate_scenario_config (en_config e) of
     Some msg \<Rightarrow> (False, e\<lparr>en_last_error := msg\<rparr>)
   | None \<Rightarrow> (True, e))"

text \<open>An exception or undefined behaviour leaves \<open>load_config\<close> as it leaves the parser.\<close>

definition engine_load_config ::
  "Yaml_Lib \<Rightarrow> (string \<Rightarrow> string option) \<Rightarrow> string option \<Rightarrow> ScenarioEngine \<Rightarrow> (Parse_End + bool) \<times> ScenarioEngine" where
  "engine_load_config Y env file e =
     (case parse_config_file Y env file (en_config_path e) (en_config e) of (r, c) \<Rightarrow>
        let e = e\<lparr>en_config := c\<rparr>
        in case r of
             Go_on \<Rightarrow> (Inr True, e)
           | Failed msg \<Rightarrow> (Inr False, e\<lparr>en_last_error := msg\<rparr>)
           | other \<Rightarrow> (Inl other, e))"

text \<open>A \<open>double\<close> compared with a limit that may be infinite or not a number.\<close>

definition exceeds :: "rat \<Rightarrow> xdouble \<Rightarrow> bool" where
  "exceeds x limit = (case limit of Fin l \<Rightarrow> x > l | PInf \<Rightarrow> False | NInf \<Rightarrow> True | NaN \<Rightarrow> False)"

definition check_sla :: "ScenarioEngine \<Rightarrow> MetricsCollector \<Rightarrow> bool" where
  "check_sla e m =
     (if exceeds (error_rate m) (max_error_rate (sla (en_config e))) then False
      else if rm_p99_latency_us (snapshot m) > word_of_int (max_p99_latency (sla (en_config e))) * 1000 then False
      else True)"

definition run_failed :: "ScenarioEngine \<Rightarrow> bool" where
  "run_failed e \<longleftrightarrow> en_worker_failures e > 0"

text \<open>The host, the port, the TLS flag, and the engine with the error a bad port leaves.\<close>

definition resolve_url :: "string \<Rightarrow> bool \<Rightarrow> ScenarioEngine \<Rightarrow> (string \<times> u16 \<times> bool) \<times> ScenarioEngine" where
  "resolve_url url step_tls e =
     (let parts = parse_url url; use_tls = up_tls parts \<or> step_tls;
          default_port = (if use_tls then 443 else 80)
      in if up_port parts = [] then ((up_host parts, default_port, use_tls), e)
         else case stoul (up_port parts) of
           Inl _ \<Rightarrow> ((up_host parts, default_port, use_tls), e\<lparr>en_last_error := ''invalid port: '' @ up_port parts\<rparr>)
         | Inr p \<Rightarrow>
             if p = 0 \<or> p > 65535
             then ((up_host parts, default_port, use_tls), e\<lparr>en_last_error := ''port out of range: '' @ up_port parts\<rparr>)
             else ((up_host parts, ucast p, use_tls), e))"

section \<open>One request of a worker\<close>

definition step_request :: "HttpStep \<Rightarrow> ScenarioEngine \<Rightarrow> NetRequest \<times> ScenarioEngine" where
  "step_request step e =
     (let ((host, port, tls), e) = resolve_url (base_url (sc_target (en_config e))) (hs_use_tls step) e
      in (NetRequest_default\<lparr>nr_method := hs_method step, nr_path := hs_path step, nr_body := hs_body step,
            nr_headers := hs_headers step, nr_host := host, nr_port := port, nr_use_tls := tls\<rparr>, e))"

text \<open>The completion handler: what it records for a response, and recording it.\<close>

definition response_code :: "HttpStep \<Rightarrow> Err option \<Rightarrow> NetResponse \<Rightarrow> u16" where
  "response_code step ec resp =
     (let code = (if ec \<noteq> None then 0 else ns_status_code resp)
      in if code \<noteq> 0 \<and> \<not> evaluate_assertions step resp then 0 else code)"

definition on_response ::
  "HttpStep \<times> Err option \<times> NetResponse \<Rightarrow> MetricsCollector \<Rightarrow> MetricsCollector option" where
  "on_response r m = (case r of (step, ec, resp) \<Rightarrow>
     record_request (response_code step ec resp) (ns_latency resp)
       (of_nat (length (hs_body step))) (of_nat (length (ns_body resp))) m)"

section \<open>The weighted choice\<close>

lemma pick_from_iff:
  "pick_from ss pick = Some i \<longleftrightarrow> i < length ss \<and> total_weight (take i ss) \<le> pick \<and> pick < total_weight (take (Suc i) ss)"
proof (induction ss arbitrary: pick i)
  case (Cons s ss)
  show ?case
  proof (cases "pick < scenario_weight s")
    case True
    then show ?thesis by (cases i) (auto simp: total_weight_def)
  next
    case False
    with Cons show ?thesis by (cases i) (auto simp: total_weight_def)
  qed
qed simp

lemma pick_from_total: "pick < total_weight ss \<Longrightarrow> \<exists>i. pick_from ss pick = Some i"
proof (induction ss arbitrary: pick)
  case (Cons s ss)
  then show ?case using Cons.IH [of "pick - scenario_weight s"] by (auto simp: total_weight_def)
qed (simp add: total_weight_def)

lemma pick_weighted_eq: "pick < total_weight ss \<Longrightarrow> pick_weighted_scenario ss pick = pick_from ss pick"
  using pick_from_total [of pick ss] by (auto simp: pick_weighted_scenario_def total_weight_def)

text \<open>
  C21: The choice of a scenario is fair. Of the equally likely draws exactly the scenario's weight many choose it,
  a weight of zero counting as one, so that no scenario starves; every draw chooses one.
\<close>
theorem pick_weighted_fair:
  assumes "i < length ss"
  shows "card {pick. pick < total_weight ss \<and> pick_weighted_scenario ss pick = Some i} = scenario_weight (ss ! i)"
proof -
  have w: "total_weight (take (Suc i) ss) = total_weight (take i ss) + scenario_weight (ss ! i)"
    using assms by (simp add: total_weight_def take_Suc_conv_app_nth)
  have "total_weight ss = total_weight (take (Suc i) ss) + total_weight (drop (Suc i) ss)"
    by (metis append_take_drop_id map_append sum_list.append total_weight_def)
  then have "{pick. pick < total_weight ss \<and> pick_weighted_scenario ss pick = Some i}
      = {total_weight (take i ss) ..< total_weight (take (Suc i) ss)}"
    using assms by (auto simp: pick_weighted_eq pick_from_iff)
  then show ?thesis using w by simp
qed

theorem pick_weighted_fair_witness:
  "card {pick. pick < 71 \<and> pick_weighted_scenario [ScenarioDef_default\<lparr>sd_weight := 70\<rparr>, ScenarioDef_default\<lparr>sd_weight := 0\<rparr>] pick = Some 1} = 1"
  using pick_weighted_fair [of 1 "[ScenarioDef_default\<lparr>sd_weight := 70\<rparr>, ScenarioDef_default\<lparr>sd_weight := 0\<rparr>]"]
  by (simp add: total_weight_def scenario_weight_def)

section \<open>Recording\<close>

definition response_obs :: "HttpStep \<times> Err option \<times> NetResponse \<Rightarrow> Obs" where
  "response_obs r = (case r of (step, ec, resp) \<Rightarrow>
     \<lparr>ob_status = response_code step ec resp, ob_latency = ns_latency resp,
      ob_sent = of_nat (length (hs_body step)), ob_received = of_nat (length (ns_body resp))\<rparr>)"

lemma on_response_eq: "on_response r m = mc_record (response_obs r) m"
  by (cases r) (simp add: on_response_def response_obs_def mc_record_def)

interpretation engine_rec: request_recorder mc_inv on_response mc_view response_obs
  by unfold_locales (simp add: on_response_eq mc.rec_ok)

lemma response_success:
  "is_success (response_code step ec resp) \<longleftrightarrow> ec = None \<and> is_success (ns_status_code resp) \<and> evaluate_assertions step resp"
  by (auto simp: response_code_def is_success_def Let_def)

text \<open>
  C10: Every completed request is counted once. After any sequence of completions the collector's total is their
  number and its successes are those without a transport error, with a status from 200 to 399, and with all assertions
  of the step satisfied; all others are failures.
\<close>
theorem engine_counts_responses:
  assumes "length rs \<le> 2 ^ 63"
  shows "\<exists>m. record_all on_response rs (MetricsCollector_new now) = Some m
    \<and> mc_total_requests m = of_nat (length rs)
    \<and> mc_successful_requests m = of_nat (length (filter (\<lambda>(step, ec, resp).
        ec = None \<and> is_success (ns_status_code resp) \<and> evaluate_assertions step resp) rs))
    \<and> mc_failed_requests m = of_nat (length (filter (\<lambda>(step, ec, resp).
        \<not> (ec = None \<and> is_success (ns_status_code resp) \<and> evaluate_assertions step resp)) rs))"
proof -
  have "mc_inv (length rs) (MetricsCollector_new now)" using assms by (rule mc_new_inv)
  then obtain m where m: "record_all on_response rs (MetricsCollector_new now) = Some m" "mc_view m = counters_of (map response_obs rs)"
    using engine_rec.record_all_fresh [of rs 0 "MetricsCollector_new now"] mc_new_view by auto
  have f: "length (filter (is_success \<circ> ob_status) (map response_obs rs))
      = length (filter (\<lambda>(step, ec, resp). ec = None \<and> is_success (ns_status_code resp) \<and> evaluate_assertions step resp) rs)"
    "length (filter (\<lambda>ob. \<not> is_success (ob_status ob)) (map response_obs rs))
      = length (filter (\<lambda>(step, ec, resp). \<not> (ec = None \<and> is_success (ns_status_code resp) \<and> evaluate_assertions step resp)) rs)"
    by (induction rs) (auto simp: response_obs_def response_success)
  from m(2) have "ct_total (mc_view m) = of_nat (length rs)"
    "ct_successful (mc_view m) = of_nat (length (filter (is_success \<circ> ob_status) (map response_obs rs)))"
    "ct_failed (mc_view m) = of_nat (length (filter (\<lambda>ob. \<not> is_success (ob_status ob)) (map response_obs rs)))"
    by (simp_all only: counters_of_def Counters.simps length_map)
  then show ?thesis using m(1) unfolding f by (simp add: mc_view_def)
qed

theorem engine_counts_responses_witness:
  "\<exists>m. record_all on_response [(HttpStep_default, None, NetResponse_default\<lparr>ns_status_code := 200\<rparr>),
       (HttpStep_default, Some timeout, NetResponse_default)] (MetricsCollector_new 0) = Some m
     \<and> mc_total_requests m = 2 \<and> mc_successful_requests m = 1"
  using engine_counts_responses [of "[(HttpStep_default, None, NetResponse_default\<lparr>ns_status_code := 200\<rparr>),
       (HttpStep_default, Some timeout, NetResponse_default)]" 0]
  by (auto simp: is_success_def evaluate_assertions_def HttpStep_default_def)

section \<open>Assertions on the status\<close>

definition kOperators :: "string list" where
  "kOperators = [''=='', ''!='', ''>='', ''<='', ''>'', ''<'']"

lemma read_word_append:
  assumes "w \<noteq> []" "list_all (\<lambda>c. \<not> isspace c) w" "rest = [] \<or> isspace (hd rest)"
  shows "read_word (w @ rest) = (w, rest)"
proof -
  obtain c cs where c: "w = c # cs" "\<not> isspace c" using assms by (cases w) auto
  have "takeWhile (\<lambda>c. \<not> isspace c) (w @ rest) = w" "dropWhile (\<lambda>c. \<not> isspace c) (w @ rest) = rest"
    using assms by (cases rest; auto simp: list_all_iff takeWhile_append dropWhile_append)+
  moreover have "dropWhile isspace (w @ rest) = w @ rest" using c by simp
  ultimately show ?thesis by (simp only: read_word_def Let_def)
qed

lemma read_word_space: "read_word (CHR '' '' # s) = read_word s"
  by (simp add: read_word_def isspace_def)

lemma read_word_nil: "read_word [] = ([], [])"
  by (simp add: read_word_def)

lemma operator_chars:
  assumes "oper \<in> set kOperators"
  shows "oper \<noteq> []" "list_all (\<lambda>c. \<not> isspace c) oper" "\<not> isalnum (hd oper) \<and> hd oper \<noteq> CHR ''_''"
    "list_all (\<lambda>c. c = CHR ''='' \<or> c = CHR ''!'' \<or> c = CHR ''<'' \<or> c = CHR ''>'' \<or> isspace c) oper"
proof -
  have "list_all (\<lambda>o'. o' \<noteq> [] \<and> list_all (\<lambda>c. \<not> isspace c) o' \<and> (\<not> isalnum (hd o') \<and> hd o' \<noteq> CHR ''_'')
      \<and> list_all (\<lambda>c. c = CHR ''='' \<or> c = CHR ''!'' \<or> c = CHR ''<'' \<or> c = CHR ''>'' \<or> isspace c) o') kOperators"
    by code_simp
  with assms show "oper \<noteq> []" "list_all (\<lambda>c. \<not> isspace c) oper" "\<not> isalnum (hd oper) \<and> hd oper \<noteq> CHR ''_''"
    "list_all (\<lambda>c. c = CHR ''='' \<or> c = CHR ''!'' \<or> c = CHR ''<'' \<or> c = CHR ''>'' \<or> isspace c) oper"
    by (auto simp: list_all_iff)
qed

lemma digits_no_space: "list_all isdigit ds \<Longrightarrow> list_all (\<lambda>c. \<not> isspace c) ds"
  using digit_not_special by (auto simp: list_all_iff)

lemma status_code_word: "list_all (\<lambda>c. \<not> isspace c \<and> (isalnum c \<or> c = CHR ''_'')) ''status_code''"
  by code_simp

lemma read_spaced:
  assumes "w \<noteq> []" "list_all (\<lambda>c. \<not> isspace c) w"
  shows "read_word (w @ '' '' @ rest) = (w, '' '' @ rest)"
  by (rule read_word_append [OF assms]) (simp add: isspace_def)

lemma spaced_assertion:
  assumes "oper \<in> set kOperators" "n < 2 ^ 63"
  shows "evaluate_assertion (''status_code'' @ '' '' @ oper @ '' '' @ nat_dec n) resp
    = compare_op (int (unat (ns_status_code resp))) oper (int n)"
proof -
  note oc = operator_chars [OF assms(1)]
  have s: "list_all (\<lambda>c. \<not> isspace c) ''status_code''" by code_simp
  have r1: "read_word (''status_code'' @ '' '' @ oper @ '' '' @ nat_dec n) = (''status_code'', '' '' @ oper @ '' '' @ nat_dec n)"
    by (rule read_spaced [OF _ s]) simp
  have r2: "read_word ('' '' @ oper @ '' '' @ nat_dec n) = (oper, '' '' @ nat_dec n)"
    using read_spaced [OF oc(1,2)] by (simp only: append.simps read_word_space)
  have "read_word (nat_dec n @ []) = (nat_dec n, [])"
    by (rule read_word_append [OF nat_dec_digits(2) digits_no_space [OF nat_dec_digits(1)]]) simp
  then have r3: "read_word ('' '' @ nat_dec n) = (nat_dec n, [])" by (simp only: append.simps read_word_space append_Nil2)
  have "strto_int (nat_dec n @ []) = Some (int n, length (nat_dec n))" by (rule strto_int_nat_dec) simp
  moreover have "int n < 2 ^ 63" using assms(2) by (simp flip: of_nat_less_iff)
  ultimately have st: "stol (nat_dec n) = Inr (int n)" by (simp add: stol_def sto_range_def)
  have n: "oper \<noteq> []" "nat_dec n \<noteq> []" using oc(1) nat_dec_digits(2) by blast+
  show ?thesis
    by (simp only: evaluate_assertion_def Let_def prod.case r1 r2 r3 st n simp_thms if_False if_True sum.case)
qed

lemma unspaced_accepted:
  assumes "oper \<in> set kOperators" "w \<noteq> []" "list_all (\<lambda>c. isalnum c \<or> c = CHR ''_'') w"
  shows "check_assertion_format (w @ oper @ nat_dec n) = None"
proof -
  note oc = operator_chars [OF assms(1)]
  let ?e = "w @ oper @ nat_dec n"
  let ?opc = "\<lambda>c. c = CHR ''='' \<or> c = CHR ''!'' \<or> c = CHR ''<'' \<or> c = CHR ''>'' \<or> isspace c"
  obtain d ds where d: "nat_dec n = d # ds" "isdigit d" using nat_dec_digits [of n] by (cases "nat_dec n") auto
  have "\<not> isdigit (CHR ''='')" "\<not> isdigit (CHR ''!'')" "\<not> isdigit (CHR ''<'')" "\<not> isdigit (CHR ''>'')"
    by (simp_all add: isdigit_def)
  with d(2) digit_not_special [OF d(2)] have "\<not> ?opc d" by blast
  then have j: "scan ?opc ?e (length w) = length w + length oper"
    using d(1) by (intro scan_append [OF oc(4)]) (simp only: list.sel simp_thms)
  have i: "scan (\<lambda>c. isalnum c \<or> c = CHR ''_'') ?e 0 = length w"
    using scan_append [OF assms(3), of "oper @ nat_dec n" "[]"] oc(1,3) by (simp add: hd_append)
  have "\<not> isspace (hd oper)" using oc(1,2) by (cases oper) auto
  then have k: "scan isspace ?e (length w) = length w"
    using scan_append [of isspace "[]" "oper @ nat_dec n" w] oc(1) by (simp add: hd_append)
  have t: "filter (\<lambda>c. \<not> isspace c) (take (length w + length oper - length w) (drop (length w) ?e)) = oper"
    using oc(2) by (simp add: list_all_iff filter_id_conv)
  have m: "oper \<in> set [''=='', ''!='', ''>='', ''<='', ''>'', ''<'']" using assms(1) by (simp only: kOperators_def)
  have n: "?e \<noteq> []" "length w \<noteq> 0" "length w + length oper \<noteq> length w" using oc(1) assms(2) by simp_all
  show ?thesis by (simp only: check_assertion_format_def Let_def i k j t n m if_False if_True)
qed

text \<open>
  Assertions on the status. Written with spaces around the operator, an assertion compares the status; without them it
  passes the schema validation but fails on every response, and every request is counted as failed.
\<close>
theorem assertion_needs_spaces:
  assumes "oper \<in> set kOperators" "n < 2 ^ 63"
  shows "evaluate_assertion (''status_code'' @ '' '' @ oper @ '' '' @ nat_dec n) resp
      = compare_op (int (unat (ns_status_code resp))) oper (int n)
    \<and> check_assertion_format (''status_code'' @ oper @ nat_dec n) = None
    \<and> \<not> evaluate_assertion (''status_code'' @ oper @ nat_dec n) resp"
proof -
  have "list_all (\<lambda>c. \<not> isspace c) (''status_code'' @ oper @ nat_dec n)"
    using status_code_word operator_chars(2) [OF assms(1)] digits_no_space [OF nat_dec_digits(1)] by (auto simp: list_all_iff)
  from read_word_append [OF _ this, of "[]"]
  have "\<not> evaluate_assertion (''status_code'' @ oper @ nat_dec n) resp"
    by (simp add: evaluate_assertion_def read_word_nil)
  moreover have "check_assertion_format (''status_code'' @ oper @ nat_dec n) = None"
    using status_code_word by (intro unspaced_accepted [OF assms(1)]) (simp_all add: list_all_iff)
  ultimately show ?thesis using spaced_assertion [OF assms] by blast
qed

theorem assertion_needs_spaces_witness:
  "check_assertion_format (''status_code'' @ ''=='' @ nat_dec 200) = None
   \<and> \<not> evaluate_assertion (''status_code'' @ ''=='' @ nat_dec 200) (NetResponse_default\<lparr>ns_status_code := 200\<rparr>)"
proof -
  have "''=='' \<in> set kOperators" "(200::nat) < 2 ^ 63" by (simp_all add: kOperators_def)
  from assertion_needs_spaces [OF this, of "NetResponse_default\<lparr>ns_status_code := 200\<rparr>"] show ?thesis by blast
qed

section \<open>Limits\<close>

lemma check_sla_iff:
  assumes "0 \<le> l" "l < 9 * 10 ^ 15 \<or> l = ms_max" "max_p99_latency (sla (en_config e)) = l"
    and "max_error_rate (sla (en_config e)) = Fin r" "unat (rm_p99_latency_us (snapshot m)) < 2 ^ 63"
  shows "check_sla e m \<longleftrightarrow> error_rate m \<le> r \<and> int (unat (rm_p99_latency_us (snapshot m))) \<le> l * 1000"
proof -
  let ?p = "rm_p99_latency_us (snapshot m)" and ?w = "word_of_int l * 1000 :: u64"
  have "?p > ?w \<longleftrightarrow> int (unat ?p) > l * 1000"
  proof (cases "l = ms_max")
    case True
    have "?w = word_of_int (- 1000)" unfolding True ms_max_def by simp
    then have w: "unat ?w = 2 ^ 64 - 1000" by (simp add: unsigned_of_int take_bit_int_def)
    have "\<not> ?p > ?w" using assms(5) w by (simp add: word_less_nat_alt)
    moreover have "int (unat ?p) < int (2 ^ 63)" using assms(5) by (simp only: of_nat_less_iff)
    then have "\<not> int (unat ?p) > l * 1000" unfolding True ms_max_def by simp
    ultimately show ?thesis by blast
  next
    case False
    then have b: "0 \<le> l * 1000" "l * 1000 < 2 ^ 64" using assms(1,2) by auto
    have "?w = word_of_int (l * 1000)" by simp
    then have "uint ?w = (l * 1000) mod 2 ^ 64" by (simp only: uint_word_of_int) simp
    then have "uint ?w = l * 1000" using b by (simp only: mod_pos_pos_trivial)
    then show ?thesis by (simp only: word_less_def uint_nat)
  qed
  then show ?thesis using assms(3,4) by (auto simp: check_sla_def exceeds_def)
qed

text \<open>
  The SLA check is exact. For a latency limit as the configuration reader produces it, the check passes
  exactly when the error rate is within its limit and the 99th percentile is at most the limit in microseconds:
  the product in 64-bit arithmetic does not wrap to a smaller limit.
\<close>
theorem check_sla_exact:
  assumes "0 \<le> l" "l < 9 * 10 ^ 15 \<or> l = ms_max" "max_p99_latency (sla (en_config e)) = l"
    and "max_error_rate (sla (en_config e)) = Fin r" "unat (rm_p99_latency_us (snapshot m)) < 2 ^ 63"
  shows "check_sla e m \<longleftrightarrow> error_rate m \<le> r \<and> int (unat (rm_p99_latency_us (snapshot m))) \<le> l * 1000"
  using assms by (rule check_sla_iff)

theorem check_sla_exact_witness:
  "check_sla \<lparr>en_stopped = False, en_config_path = [], en_config = ScenarioConfig_default, en_last_error = [],
       en_bucket = \<lparr>tb_rate = 1, tb_burst = 1, tb_tokens = 1, tb_last_refill = 0\<rparr>, en_target_rps = 1, en_max_duration_ms = 0,
       en_worker_failures = 0\<rparr> (MetricsCollector_new 0)"
proof -
  have s: "rm_p99_latency_us (snapshot (MetricsCollector_new 0)) = 0"
    using snapshot_samples [of "MetricsCollector_new 0" "[]"] ring_new_samples ring_new_wf
    by (simp add: snapshot_def MetricsCollector_new_def Let_def keep_last_def)
  have "error_rate (MetricsCollector_new 0) = 0" by (simp add: error_rate_def MetricsCollector_new_def)
  with s show ?thesis
    by (subst check_sla_exact [where l = 500 and r = 10]) (simp_all add: ScenarioConfig_default_def SLAConfig_default_def)
qed

end
