(* ===== verification/Connection_Pool.thy ===== *)
theory Connection_Pool
  imports Volley_String
begin

text \<open>
  The pool of HTTP clients, \<open>core/net/connection_pool.cpp\<close>. Every operation holds the mutex for its
  whole body, so threads interleave whole operations. A client is a value of an arbitrary type and
  \<open>mk\<close> its constructor applied to the TLS settings and the keep-alive flag of the configuration; a
  null \<open>unique_ptr\<close> is \<open>None\<close>. \<open>pool_step\<close> adds the callers: the clients they hold and those they
  destroyed without giving them back.
\<close>

section \<open>The pool\<close>

record 't PoolConfig =
  min_connections :: nat
  max_connections :: nat
  idle_timeout :: int
  pool_keep_alive :: bool
  pool_tls_config :: 't

record 'c PoolEntry =
  pe_client :: "'c option"
  idle_since :: int

record 'c ConnectionPool =
  pools :: "(string \<times> 'c PoolEntry list) list"
  total_created :: nat

record PoolStats =
  active_connections :: nat
  idle_connections :: nat
  stats_total_created :: nat

definition ConnectionPool_new :: "'c ConnectionPool" where
  "ConnectionPool_new = \<lparr>pools = [], total_created = 0\<rparr>"

definition pool_key :: "string \<Rightarrow> u16 \<Rightarrow> string" where
  "pool_key host port = host @ '':'' @ nat_dec (unat port)"

definition pool_at :: "'c ConnectionPool \<Rightarrow> string \<Rightarrow> 'c PoolEntry list" where
  "pool_at s key = (case map_of (pools s) key of Some q \<Rightarrow> q | None \<Rightarrow> [])"

definition pool_put :: "string \<Rightarrow> 'c PoolEntry list \<Rightarrow> 'c ConnectionPool \<Rightarrow> 'c ConnectionPool" where
  "pool_put key q s = s\<lparr>pools := AList.update key q (pools s)\<rparr>"

definition acquire ::
  "('t \<Rightarrow> bool \<Rightarrow> 'c) \<Rightarrow> 't PoolConfig \<Rightarrow> string \<Rightarrow> u16 \<Rightarrow> 'c ConnectionPool \<Rightarrow> 'c option \<times> 'c ConnectionPool" where
  "acquire mk cfg host port s =
     (let key = pool_key host port; pool = pool_at s key in
      case pool of
        e # q \<Rightarrow> (pe_client e, pool_put key q s)
      | [] \<Rightarrow>
          let s = pool_put key [] s in
          if total_created s < max_connections cfg
          then (Some (mk (pool_tls_config cfg) (pool_keep_alive cfg)), s\<lparr>total_created := total_created s + 1\<rparr>)
          else (None, s))"

definition release ::
  "'t PoolConfig \<Rightarrow> int \<Rightarrow> 'c option \<Rightarrow> string \<Rightarrow> u16 \<Rightarrow> 'c ConnectionPool \<Rightarrow> 'c ConnectionPool" where
  "release cfg now client host port s =
     (let key = pool_key host port; pool = pool_at s key in
      if length pool \<ge> max_connections cfg
      then let s = pool_put key pool s in
           if total_created s > 0 then s\<lparr>total_created := total_created s - 1\<rparr> else s
      else pool_put key (pool @ [\<lparr>pe_client = client, idle_since = now\<rparr>]) s)"

text \<open>\<open>duration_cast\<close> to seconds truncates towards zero.\<close>

definition whole_seconds :: "int \<Rightarrow> int" where
  "whole_seconds d = (if d \<ge> 0 then d div 10 ^ 9 else - (- d div 10 ^ 9))"

definition entry_expired :: "'t PoolConfig \<Rightarrow> int \<Rightarrow> 'c PoolEntry \<Rightarrow> bool" where
  "entry_expired cfg now e \<longleftrightarrow> whole_seconds (now - idle_since e) \<ge> idle_timeout cfg"

fun cleanup_queue :: "'t PoolConfig \<Rightarrow> int \<Rightarrow> 'c PoolEntry list \<Rightarrow> nat \<Rightarrow> 'c PoolEntry list \<times> nat" where
  "cleanup_queue cfg now [] created = ([], created)"
| "cleanup_queue cfg now (e # q) created =
     (if entry_expired cfg now e
      then cleanup_queue cfg now q (if created > 0 then created - 1 else created)
      else (e # q, created))"

fun cleanup_pools ::
  "'t PoolConfig \<Rightarrow> int \<Rightarrow> (string \<times> 'c PoolEntry list) list \<Rightarrow> nat \<Rightarrow> (string \<times> 'c PoolEntry list) list \<times> nat" where
  "cleanup_pools cfg now [] created = ([], created)"
| "cleanup_pools cfg now ((key, q) # ps) created =
     (let (q, created) = cleanup_queue cfg now q created;
          (ps, created) = cleanup_pools cfg now ps created
      in (if q = [] then ps else (key, q) # ps, created))"

definition cleanup :: "'t PoolConfig \<Rightarrow> int \<Rightarrow> 'c ConnectionPool \<Rightarrow> 'c ConnectionPool" where
  "cleanup cfg now s =
     (let (ps, created) = cleanup_pools cfg now (pools s) (total_created s) in \<lparr>pools = ps, total_created = created\<rparr>)"

definition pool_idle :: "'c ConnectionPool \<Rightarrow> nat" where
  "pool_idle s = (\<Sum>(key, pool) \<leftarrow> pools s. length pool)"

definition pool_stats :: "'c ConnectionPool \<Rightarrow> PoolStats" where
  "pool_stats s =
     (let idle = pool_idle s in
      \<lparr>active_connections = (if total_created s > idle then total_created s - idle else 0),
       idle_connections = idle, stats_total_created = total_created s\<rparr>)"

section \<open>The pool and its callers\<close>

record 'c PoolSys =
  sys_pool :: "'c ConnectionPool"
  held :: "'c list"
  leaked :: "'c list"
  sys_now :: int

inductive pool_step :: "('t \<Rightarrow> bool \<Rightarrow> 'c) \<Rightarrow> 't PoolConfig \<Rightarrow> 'c PoolSys \<Rightarrow> 'c PoolSys \<Rightarrow> bool"
  for mk cfg where
  ps_acquire: "acquire mk cfg host port (sys_pool s) = (Some c, p) \<Longrightarrow>
     pool_step mk cfg s (s\<lparr>sys_pool := p, held := c # held s\<rparr>)"
| ps_refused: "acquire mk cfg host port (sys_pool s) = (None, p) \<Longrightarrow> pool_step mk cfg s (s\<lparr>sys_pool := p\<rparr>)"
| ps_release: "c \<in> set (held s) \<Longrightarrow> now \<ge> sys_now s \<Longrightarrow>
     pool_step mk cfg s (s\<lparr>sys_pool := release cfg now (Some c) host port (sys_pool s), held := remove1 c (held s),
       sys_now := now\<rparr>)"
| ps_drop: "c \<in> set (held s) \<Longrightarrow> pool_step mk cfg s (s\<lparr>held := remove1 c (held s), leaked := c # leaked s\<rparr>)"
| ps_cleanup: "now \<ge> sys_now s \<Longrightarrow>
     pool_step mk cfg s (s\<lparr>sys_pool := cleanup cfg now (sys_pool s), sys_now := now\<rparr>)"

definition sys_start :: "int \<Rightarrow> 'c PoolSys" where
  "sys_start now = \<lparr>sys_pool = ConnectionPool_new, held = [], leaked = [], sys_now = now\<rparr>"

section \<open>Counting clients\<close>

definition queue_ok :: "int \<Rightarrow> 'c PoolEntry list \<Rightarrow> bool" where
  "queue_ok now q \<longleftrightarrow> sorted (map idle_since q) \<and> (\<forall>e \<in> set q. pe_client e \<noteq> None \<and> idle_since e \<le> now)"

definition pool_inv :: "'t PoolConfig \<Rightarrow> 'c PoolSys \<Rightarrow> bool" where
  "pool_inv cfg s \<longleftrightarrow> distinct (keys_of (pools (sys_pool s)))
     \<and> total_created (sys_pool s) = pool_idle (sys_pool s) + length (held s) + length (leaked s)
     \<and> total_created (sys_pool s) \<le> max_connections cfg
     \<and> (\<forall>(key, q) \<in> set (pools (sys_pool s)). queue_ok (sys_now s) q)"

lemma queue_ok_mono: "queue_ok now q \<Longrightarrow> now \<le> now' \<Longrightarrow> queue_ok now' q"
  by (force simp: queue_ok_def)

lemma queue_ok_simps [simp]:
  "queue_ok now []"
  "queue_ok now (e # q) \<longleftrightarrow> pe_client e \<noteq> None \<and> idle_since e \<le> now \<and> (\<forall>x \<in> set q. idle_since e \<le> idle_since x)
     \<and> queue_ok now q"
  by (auto simp: queue_ok_def)

lemma queue_ok_snoc: "queue_ok now (q @ [\<lparr>pe_client = Some c, idle_since = now\<rparr>]) \<longleftrightarrow> queue_ok now q"
  by (auto simp: queue_ok_def sorted_append)

lemma sum_update:
  "distinct (keys_of m) \<Longrightarrow>
     (\<Sum>(k, q) \<leftarrow> AList.update key q' m. length q) + length (case map_of m key of Some q \<Rightarrow> q | None \<Rightarrow> [])
     = (\<Sum>(k, q) \<leftarrow> m. length q) + length q'"
proof (induction m)
  case (Cons kq m)
  obtain k q where kq: "kq = (k, q)" by (cases kq)
  show ?case
  proof (cases "k = key")
    case False
    with Cons kq show ?thesis by simp
  qed (use Cons kq in \<open>simp\<close>)
qed simp

lemma pool_put_idle:
  "distinct (keys_of (pools s)) \<Longrightarrow> pool_idle (pool_put key q s) + length (pool_at s key) = pool_idle s + length q"
  using sum_update by (simp add: pool_idle_def pool_put_def pool_at_def)

lemma pool_put_frame [simp]:
  "total_created (pool_put key q s) = total_created s"
  "distinct (keys_of (pools (pool_put key q s))) = distinct (keys_of (pools s))"
  "pool_idle (s\<lparr>total_created := n\<rparr>) = pool_idle s"
  by (simp_all add: pool_put_def pool_idle_def distinct_update update_keys)

lemma pool_at_ok:
  "\<forall>(key, q) \<in> set (pools s). queue_ok now q \<Longrightarrow> queue_ok now (pool_at s key)"
  by (auto simp: pool_at_def split: option.splits dest: map_of_SomeD)

lemma pool_put_ok:
  "\<forall>(key, q) \<in> set (pools s). queue_ok now q \<Longrightarrow> queue_ok now q' \<Longrightarrow> (key', q) \<in> set (pools (pool_put key q' s)) \<Longrightarrow> queue_ok now q"
  using set_update_subset by (fastforce simp: pool_put_def)

lemma whole_seconds_mono: "a \<le> b \<Longrightarrow> whole_seconds a \<le> whole_seconds b"
proof -
  assume "a \<le> b"
  then have "a div 10 ^ 9 \<le> b div 10 ^ 9" "- b div 10 ^ 9 \<le> - a div 10 ^ 9" by (auto intro!: zdiv_mono1)
  moreover have "- a div 10 ^ 9 \<ge> 0" if "a < 0" using that by (simp add: pos_imp_zdiv_nonneg_iff)
  moreover have "b div 10 ^ 9 \<ge> 0" if "b \<ge> 0" using that by (simp add: pos_imp_zdiv_nonneg_iff)
  ultimately show ?thesis using \<open>a \<le> b\<close> by (auto simp: whole_seconds_def)
qed

text \<open>
  The reference for \<open>cleanup\<close> looks at every entry; the code stops at the first young one of each
  queue. On queues in order of release the two agree.
\<close>

definition keep_young :: "'t PoolConfig \<Rightarrow> int \<Rightarrow> 'c PoolEntry list \<Rightarrow> 'c PoolEntry list" where
  "keep_young cfg now q = filter (\<lambda>e. \<not> entry_expired cfg now e) q"

definition young_pools :: "'t PoolConfig \<Rightarrow> int \<Rightarrow> (string \<times> 'c PoolEntry list) list \<Rightarrow> (string \<times> 'c PoolEntry list) list" where
  "young_pools cfg now ps = filter (\<lambda>(key, q). q \<noteq> []) (map (\<lambda>(key, q). (key, keep_young cfg now q)) ps)"

definition cleanup_all :: "'t PoolConfig \<Rightarrow> int \<Rightarrow> 'c ConnectionPool \<Rightarrow> 'c ConnectionPool" where
  "cleanup_all cfg now s =
     (let ps = young_pools cfg now (pools s)
      in \<lparr>pools = ps,
          total_created = total_created s - (pool_idle s - (\<Sum>(key, q) \<leftarrow> ps. length q))\<rparr>)"

lemma keep_young_id:
  "queue_ok t (e # q) \<Longrightarrow> \<not> entry_expired cfg now e \<Longrightarrow> keep_young cfg now (e # q) = e # q"
proof -
  assume a: "queue_ok t (e # q)" "\<not> entry_expired cfg now e"
  have "\<not> entry_expired cfg now x" if "x \<in> set q" for x
    using a that whole_seconds_mono [of "now - idle_since x" "now - idle_since e"]
    by (auto simp: entry_expired_def)
  with a(2) show ?thesis by (simp add: keep_young_def filter_id_conv)
qed

lemma keep_young_length: "length (keep_young cfg now q) \<le> length q"
  by (simp add: keep_young_def)

lemma cleanup_queue_eq:
  "queue_ok t q \<Longrightarrow> cleanup_queue cfg now q n = (keep_young cfg now q, n - (length q - length (keep_young cfg now q)))"
proof (induction q arbitrary: n)
  case (Cons e q)
  show ?case
  proof (cases "entry_expired cfg now e")
    case True
    then have "keep_young cfg now (e # q) = keep_young cfg now q" by (simp add: keep_young_def)
    with True Cons keep_young_length [of cfg now q] show ?thesis by (simp add: Suc_diff_le)
  next
    case False
    with Cons.prems keep_young_id show ?thesis by fastforce
  qed
qed (simp add: keep_young_def)

lemma young_pools_sum:
  "(\<Sum>(key, q) \<leftarrow> young_pools cfg now ps. length q) = (\<Sum>(key, q) \<leftarrow> ps. length (keep_young cfg now q))"
  by (induction ps) (auto simp: young_pools_def)

lemma young_sum_le: "(\<Sum>(key, q) \<leftarrow> ps. length (keep_young cfg now q)) \<le> (\<Sum>(key, q) \<leftarrow> ps. length q)"
proof (induction ps)
  case (Cons kq ps)
  then show ?case using keep_young_length [of cfg now "snd kq"] by (cases kq) simp
qed simp

lemma cleanup_pools_eq:
  "\<forall>(key, q) \<in> set ps. queue_ok t q \<Longrightarrow> cleanup_pools cfg now ps n =
     (young_pools cfg now ps,
      n - ((\<Sum>(key, q) \<leftarrow> ps. length q) - (\<Sum>(key, q) \<leftarrow> ps. length (keep_young cfg now q))))"
proof (induction ps arbitrary: n)
  case (Cons kq ps)
  obtain k q where kq: "kq = (k, q)" by (cases kq)
  with Cons.prems have q: "queue_ok t q" by simp
  have arith: "n - (b - a) - (d - c) = n - (b + d - (a + c))" if "a \<le> b" "c \<le> d" for n a b c d :: nat
    using that by simp
  show ?case
    using Cons kq cleanup_queue_eq [OF q, of cfg now n]
      arith [OF keep_young_length [of cfg now q] young_sum_le [of cfg now ps], of n]
    by (simp add: young_pools_def)
qed (simp add: young_pools_def)

lemma cleanup_eq:
  "\<forall>(key, q) \<in> set (pools s). queue_ok t q \<Longrightarrow> cleanup cfg now s = cleanup_all cfg now s"
  using cleanup_pools_eq [of "pools s" t cfg now] by (simp add: cleanup_def cleanup_all_def Let_def pool_idle_def young_pools_sum)

lemma cleanup_counts:
  fixes cfg :: "'t PoolConfig"
  assumes "\<forall>(key, q) \<in> set (pools s). queue_ok t q" "distinct (keys_of (pools s))" "now \<ge> t"
    and "total_created s = pool_idle s + n"
  defines "s' \<equiv> cleanup cfg now s"
  shows "distinct (keys_of (pools s'))" "total_created s' = pool_idle s' + n" "total_created s' \<le> total_created s"
    "\<forall>(key, q) \<in> set (pools s'). queue_ok now q"
proof -
  let ?ps = "map (\<lambda>(key, q). (key, keep_young cfg now q)) (pools s)"
  have s': "pools s' = young_pools cfg now (pools s)"
    "total_created s' = total_created s - (pool_idle s - pool_idle s')"
    by (simp_all add: s'_def cleanup_eq [OF assms(1)] cleanup_all_def Let_def pool_idle_def)
  have "keys_of ?ps = keys_of (pools s)" by auto
  then show "distinct (keys_of (pools s'))"
    unfolding s'(1) young_pools_def using assms(2) distinct_keys_filter by metis
  have "pool_idle s' \<le> pool_idle s" unfolding pool_idle_def s'(1) young_pools_sum by (rule young_sum_le)
  then show "total_created s' = pool_idle s' + n" "total_created s' \<le> total_created s" using assms(4) s'(2) by auto
  have "queue_ok now (keep_young cfg now q)" if "(k, q) \<in> set (pools s)" for k q
    using assms(1,3) that by (fastforce simp: queue_ok_def keep_young_def sorted_filter)
  then show "\<forall>(key, q) \<in> set (pools s'). queue_ok now q" unfolding s'(1) young_pools_def by auto
qed

lemma length_remove1_Suc: "c \<in> set xs \<Longrightarrow> length xs = Suc (length (remove1 c xs))"
  by (induction xs) auto

lemma acquire_inv:
  assumes "pool_inv cfg s" "acquire mk cfg host port (sys_pool s) = (r, p)"
  shows "pool_inv cfg (case r of Some c \<Rightarrow> s\<lparr>sys_pool := p, held := c # held s\<rparr> | None \<Rightarrow> s\<lparr>sys_pool := p\<rparr>)"
proof -
  let ?key = "pool_key host port" and ?s = "sys_pool s"
  from assms(1) have d: "distinct (keys_of (pools ?s))" and ok: "\<forall>(key, q) \<in> set (pools ?s). queue_ok (sys_now s) q"
    by (simp_all add: pool_inv_def)
  show ?thesis
  proof (cases "pool_at ?s ?key")
    case Nil
    then have "pool_idle (pool_put ?key [] ?s) = pool_idle ?s" using pool_put_idle [OF d, of ?key "[]"] by simp
    then show ?thesis using assms Nil d pool_put_ok [OF ok, of "[]"]
      by (auto simp: acquire_def Let_def pool_inv_def split: if_splits)
  next
    case (Cons e q)
    have q: "queue_ok (sys_now s) (e # q)" using pool_at_ok [OF ok, of ?key] Cons by simp
    have "pool_idle (pool_put ?key q ?s) + 1 = pool_idle ?s" using pool_put_idle [OF d, of ?key q] Cons by simp
    moreover obtain c where "pe_client e = Some c" using q by auto
    moreover have "queue_ok (sys_now s) q" using q by simp
    moreover from assms(2) Cons have "r = pe_client e" "p = pool_put ?key q ?s" by (simp_all add: acquire_def Let_def)
    ultimately show ?thesis using assms(1) d pool_put_ok [OF ok, of q] by (auto simp: pool_inv_def)
  qed
qed

lemma release_inv:
  assumes "pool_inv cfg s" "c \<in> set (held s)" "now \<ge> sys_now s"
  shows "pool_inv cfg (s\<lparr>sys_pool := release cfg now (Some c) host port (sys_pool s), held := remove1 c (held s),
     sys_now := now\<rparr>)"
proof -
  let ?key = "pool_key host port" and ?s = "sys_pool s"
  let ?q = "pool_at ?s ?key @ [\<lparr>pe_client = Some c, idle_since = now\<rparr>]"
  from assms(1) have d: "distinct (keys_of (pools ?s))" by (simp add: pool_inv_def)
  have ok: "\<forall>(key, q) \<in> set (pools ?s). queue_ok now q"
    using assms(1,3) queue_ok_mono by (fastforce simp: pool_inv_def)
  have i: "pool_idle (pool_put ?key ?q ?s) = pool_idle ?s + 1" using pool_put_idle [OF d, of ?key ?q] by simp
  have "pool_idle (pool_put ?key [] ?s) + length (pool_at ?s ?key) = pool_idle ?s" using pool_put_idle [OF d, of ?key "[]"] by simp
  then have "length (pool_at ?s ?key) < max_connections cfg"
    using assms(1,2) by (cases "held s") (auto simp: pool_inv_def)
  moreover have "queue_ok now ?q" using pool_at_ok [OF ok] by (simp add: queue_ok_snoc)
  moreover have "length (held s) = Suc (length (remove1 c (held s)))"
    using assms(2) by (rule length_remove1_Suc)
  ultimately show ?thesis using assms(1) d i pool_put_ok [OF ok, of ?q]
    by (auto simp: release_def Let_def pool_inv_def)
qed

lemma cleanup_inv:
  assumes "pool_inv cfg s" "now \<ge> sys_now s"
  shows "pool_inv cfg (s\<lparr>sys_pool := cleanup cfg now (sys_pool s), sys_now := now\<rparr>)"
proof -
  have "\<forall>(key, q) \<in> set (pools (sys_pool s)). queue_ok (sys_now s) q" "distinct (keys_of (pools (sys_pool s)))"
    "total_created (sys_pool s) = pool_idle (sys_pool s) + (length (held s) + length (leaked s))"
    using assms(1) by (simp_all add: pool_inv_def)
  note c = cleanup_counts [OF this(1,2) assms(2) this(3), of cfg]
  then show ?thesis using assms(1) by (auto simp: pool_inv_def)
qed

lemma pool_step_inv: "pool_step mk cfg s s' \<Longrightarrow> pool_inv cfg s \<Longrightarrow> pool_inv cfg s'"
proof (induction rule: pool_step.induct)
  case (ps_acquire host port s c p)
  from acquire_inv [OF ps_acquire(2,1)] show ?case by simp
next
  case (ps_refused host port s p)
  from acquire_inv [OF ps_refused(2,1)] show ?case by simp
next
  case (ps_drop c s)
  then have "length (held s) = Suc (length (remove1 c (held s)))" by (intro length_remove1_Suc)
  with ps_drop show ?case by (auto simp: pool_inv_def)
qed (simp_all add: release_inv cleanup_inv)

lemma pool_start_inv: "pool_inv cfg (sys_start t)"
  by (simp add: pool_inv_def sys_start_def ConnectionPool_new_def pool_idle_def)

lemma pool_reachable_inv: "(pool_step mk cfg)\<^sup>*\<^sup>* (sys_start t) s \<Longrightarrow> pool_inv cfg s"
  by (induction rule: rtranclp_induct) (auto intro: pool_start_inv pool_step_inv)

lemma pool_step_leaked: "pool_step mk cfg s s' \<Longrightarrow> length (leaked s) \<le> length (leaked s')"
  by (induction rule: pool_step.induct) auto

lemma exhausted_acquire:
  assumes "(pool_step mk cfg)\<^sup>*\<^sup>* (sys_start t) s" "length (leaked s) = max_connections cfg"
    and "(pool_step mk cfg)\<^sup>*\<^sup>* s s'"
  shows "fst (acquire mk cfg host port (sys_pool s')) = None"
proof -
  have "length (leaked s) \<le> length (leaked s')"
    using assms(3) by (induction rule: rtranclp_induct) (auto dest: pool_step_leaked)
  moreover have inv: "pool_inv cfg s'" using pool_reachable_inv [OF rtranclp_trans [OF assms(1,3)]] .
  ultimately have n: "pool_idle (sys_pool s') = 0" "total_created (sys_pool s') = max_connections cfg"
    using assms(2) by (auto simp: pool_inv_def)
  have "pool_idle (pool_put k [] (sys_pool s')) + length (pool_at (sys_pool s') k) = pool_idle (sys_pool s')" for k
    using pool_put_idle inv by (force simp: pool_inv_def)
  then have "pool_at (sys_pool s') k = []" for k using n(1) by (metis add_is_0 length_0_conv)
  then show ?thesis using n(2) by (simp add: acquire_def Let_def)
qed

text \<open>A run in which the only client of a pool of one is acquired and destroyed.\<close>

definition cfg_one :: "unit PoolConfig" where
  "cfg_one = \<lparr>min_connections = 0, max_connections = 1, idle_timeout = 30, pool_keep_alive = True, pool_tls_config = ()\<rparr>"

definition sys_one :: "nat list \<Rightarrow> nat list \<Rightarrow> nat PoolSys" where
  "sys_one hs ls = \<lparr>sys_pool = \<lparr>pools = [(pool_key ''h'' 80, [])], total_created = 1\<rparr>, held = hs, leaked = ls, sys_now = 0\<rparr>"

lemma one_acquired: "(pool_step (\<lambda>_ _. 7) cfg_one)\<^sup>*\<^sup>* (sys_start 0) (sys_one [7] [])"
proof -
  have "acquire (\<lambda>_ _. 7::nat) cfg_one ''h'' 80 (sys_pool (sys_start 0)) = (Some 7, sys_pool (sys_one [7] []))"
    by (simp add: acquire_def Let_def pool_at_def pool_put_def sys_start_def ConnectionPool_new_def cfg_one_def sys_one_def)
  from ps_acquire [OF this] show ?thesis by (auto simp: sys_start_def sys_one_def)
qed

lemma one_dropped: "(pool_step (\<lambda>_ _. 7) cfg_one)\<^sup>*\<^sup>* (sys_start 0) (sys_one [] [7])"
proof -
  have "pool_step (\<lambda>_ _. 7) cfg_one (sys_one [7] []) (sys_one [] [7])"
    using ps_drop [of 7 "sys_one [7] []" "\<lambda>_ _. 7" cfg_one] by (simp add: sys_one_def)
  with one_acquired show ?thesis by (rule rtranclp.rtrancl_into_rtrancl)
qed

section \<open>Properties\<close>

text \<open>
  C15: Accounting of the connection pool. Whatever callers do under a monotone clock, the clients the
  pool has created are exactly those idle in it, those held by callers and those callers destroyed;
  never more than \<open>max_connections\<close> exist, and \<open>stats\<close> reports these numbers.
\<close>
theorem pool_accounting:
  assumes "(pool_step mk cfg)\<^sup>*\<^sup>* (sys_start t) s"
  shows "pool_idle (sys_pool s) + length (held s) + length (leaked s) \<le> max_connections cfg
    \<and> pool_stats (sys_pool s) = \<lparr>active_connections = length (held s) + length (leaked s),
        idle_connections = pool_idle (sys_pool s),
        stats_total_created = pool_idle (sys_pool s) + length (held s) + length (leaked s)\<rparr>"
  using pool_reachable_inv [OF assms] by (auto simp: pool_inv_def pool_stats_def Let_def)

theorem pool_accounting_witness:
  "pool_stats (sys_pool (sys_one [7] [])) = \<lparr>active_connections = 1, idle_connections = 0, stats_total_created = 1\<rparr>"
  using pool_accounting [OF one_acquired] by (simp add: sys_one_def pool_idle_def)

text \<open>A run in which two clients are acquired, one is released at once and the other 20 seconds later.\<close>

definition cfg_two :: "unit PoolConfig" where
  "cfg_two = \<lparr>min_connections = 0, max_connections = 2, idle_timeout = 30, pool_keep_alive = True, pool_tls_config = ()\<rparr>"

definition idle_7 :: "int \<Rightarrow> nat PoolEntry" where
  "idle_7 t = \<lparr>pe_client = Some 7, idle_since = t\<rparr>"

definition sys_two :: "nat \<Rightarrow> (string \<times> nat PoolEntry list) list \<Rightarrow> nat list \<Rightarrow> int \<Rightarrow> nat PoolSys" where
  "sys_two n ps hs t = \<lparr>sys_pool = \<lparr>pools = ps, total_created = n\<rparr>, held = hs, leaked = [], sys_now = t\<rparr>"

lemma two_idle:
  "(pool_step (\<lambda>_ _. 7) cfg_two)\<^sup>*\<^sup>* (sys_start 0)
     (sys_two 2 [(pool_key ''h'' 80, [idle_7 0, idle_7 (20 * 10 ^ 9)])] [] (20 * 10 ^ 9))"
proof -
  let ?step = "pool_step (\<lambda>_ _. 7) cfg_two" and ?key = "pool_key ''h'' 80"
  note ds = acquire_def release_def Let_def pool_at_def pool_put_def sys_start_def ConnectionPool_new_def cfg_two_def sys_two_def idle_7_def
  have "acquire (\<lambda>_ _. 7) cfg_two ''h'' 80 (sys_pool (sys_start 0)) = (Some 7, \<lparr>pools = [(?key, [])], total_created = 1\<rparr>)" by (simp add: ds)
  from ps_acquire [OF this] have 1: "?step (sys_start 0) (sys_two 1 [(?key, [])] [7] 0)" by (simp add: ds)
  have "acquire (\<lambda>_ _. 7) cfg_two ''h'' 80 (sys_pool (sys_two 1 [(?key, [])] [7] 0)) = (Some 7, \<lparr>pools = [(?key, [])], total_created = 2\<rparr>)"
    by (simp add: ds)
  from ps_acquire [OF this] have 2: "?step (sys_two 1 [(?key, [])] [7] 0) (sys_two 2 [(?key, [])] [7, 7] 0)" by (simp add: ds)
  have 3: "?step (sys_two 2 [(?key, [])] [7, 7] 0) (sys_two 2 [(?key, [idle_7 0])] [7] 0)"
    using ps_release [of 7 "sys_two 2 [(?key, [])] [7, 7] 0" 0 "\<lambda>_ _. 7" cfg_two "''h''" 80] by (simp add: ds)
  have 4: "?step (sys_two 2 [(?key, [idle_7 0])] [7] 0) (sys_two 2 [(?key, [idle_7 0, idle_7 (20 * 10 ^ 9)])] [] (20 * 10 ^ 9))"
    using ps_release [of 7 "sys_two 2 [(?key, [idle_7 0])] [7] 0" "20 * 10 ^ 9" "\<lambda>_ _. 7" cfg_two "''h''" 80] by (simp add: ds)
  from 1 2 3 4 show ?thesis by (meson converse_rtranclp_into_rtranclp r_into_rtranclp)
qed

text \<open>
  C33: expiry in the connection pool. In every reachable state \<open>cleanup\<close>, which stops at the first
  young entry of each queue, removes exactly the entries idle for the timeout or longer.
\<close>
theorem cleanup_exact:
  assumes "(pool_step mk cfg)\<^sup>*\<^sup>* (sys_start t) s"
  shows "cleanup cfg now (sys_pool s) = cleanup_all cfg now (sys_pool s)"
  using pool_reachable_inv [OF assms] by (intro cleanup_eq [where t = "sys_now s"]) (simp add: pool_inv_def)

theorem cleanup_exact_witness:
  "cleanup cfg_two (35 * 10 ^ 9) (sys_pool (sys_two 2 [(pool_key ''h'' 80, [idle_7 0, idle_7 (20 * 10 ^ 9)])] [] (20 * 10 ^ 9)))
     = \<lparr>pools = [(pool_key ''h'' 80, [idle_7 (20 * 10 ^ 9)])], total_created = 1\<rparr>"
  using cleanup_exact [OF two_idle, of "35 * 10 ^ 9"]
  by (simp add: sys_two_def cleanup_all_def Let_def young_pools_def keep_young_def pool_idle_def entry_expired_def whole_seconds_def idle_7_def cfg_two_def)

text \<open>
  A client that is destroyed instead of released keeps its slot. Once \<open>max_connections\<close> clients
  went that way, \<open>acquire\<close> returns null for every host, now and ever after.
\<close>
theorem pool_exhausted:
  assumes "(pool_step mk cfg)\<^sup>*\<^sup>* (sys_start t) s" "length (leaked s) = max_connections cfg"
    and "(pool_step mk cfg)\<^sup>*\<^sup>* s s'"
  shows "fst (acquire mk cfg host port (sys_pool s')) = None"
  using assms by (rule exhausted_acquire)

theorem pool_exhausted_witness:
  "fst (acquire (\<lambda>_ _. 7) cfg_one ''other'' 443 (sys_pool (sys_one [] [7]))) = None"
  by (rule pool_exhausted [OF one_dropped _ rtranclp.rtrancl_refl]) (simp add: sys_one_def cfg_one_def)

end
