(* ===== verification/Engine_Run.thy ===== *)
theory Engine_Run
  imports Scenario_Engine Connection_Pool
begin

text \<open>
  \<open>ScenarioEngine::run\<close> of \<open>core/scenario/engine.cpp\<close>: the stages with their deadlines and concurrency, the start
  of a worker, its time slots, and what ends a stage and the run. The workers of a stage run
  concurrently; what the loop over the stages sees of them (failures, and at which point an external
  \<open>stop()\<close> arrives) is an observation per stage. \<open>None\<close> as the result of time arithmetic is a signed
  overflow, which C++ leaves undefined.
\<close>

section \<open>Stages\<close>

definition kDefaultConcurrency :: nat where "kDefaultConcurrency = 10"

definition default_stage :: "ScenarioEngine \<Rightarrow> Stage" where
  "default_stage e = \<lparr>stage_name = ''default'',
     stage_duration = (if en_max_duration_ms e > 0 then en_max_duration_ms e else 60000),
     stage_target_rps = (if en_target_rps e = 0 then 100 else en_target_rps e),
     stage_concurrent_users = of_nat kDefaultConcurrency\<rparr>"

definition run_profile :: "ScenarioEngine \<Rightarrow> Stage list" where
  "run_profile e = (if load_profile (en_config e) = [] then [default_stage e] else load_profile (en_config e))"

definition clamp_users :: "nat \<Rightarrow> nat" where
  "clamp_users c = min (max c 1) 100000"

definition run_concurrency :: "Stage list \<Rightarrow> nat" where
  "run_concurrency ss =
     (let c = (case ss of [] \<Rightarrow> kDefaultConcurrency
                | s # _ \<Rightarrow> if stage_concurrent_users s = 0 then kDefaultConcurrency else unat (stage_concurrent_users s))
      in clamp_users c)"

definition stage_users :: "nat \<Rightarrow> Stage \<Rightarrow> nat" where
  "stage_users concurrency s = (if stage_concurrent_users s > 0 then unat (stage_concurrent_users s) else concurrency)"

definition stage_concurrency :: "nat \<Rightarrow> Stage \<Rightarrow> nat" where
  "stage_concurrency concurrency s = clamp_users (stage_users concurrency s)"

definition pool_max :: "nat \<Rightarrow> Stage list \<Rightarrow> nat" where
  "pool_max concurrency ss = fold (\<lambda>s m. max m (stage_users concurrency s)) ss concurrency"

text \<open>The rate limiter at the start of a stage.\<close>

definition enter_stage :: "Stage \<Rightarrow> time_ns \<Rightarrow> time_ns \<Rightarrow> ScenarioEngine \<Rightarrow> cpp_exn + ScenarioEngine" where
  "enter_stage s now now' e =
     (if stage_target_rps s > 0 then set_target_rps (stage_target_rps s) now now' e else Inr e)"

section \<open>Deadlines\<close>

definition tp_max :: int where "tp_max = 2 ^ 63 - 1"

text \<open>\<open>time_point + milliseconds\<close> converts to nanoseconds and adds, both in 64 bits.\<close>

definition plus_ms :: "int \<Rightarrow> int \<Rightarrow> int option" where
  "plus_ms now ms = (if ms * 10 ^ 6 > tp_max \<or> now + ms * 10 ^ 6 > tp_max then None else Some (now + ms * 10 ^ 6))"

definition global_end :: "int \<Rightarrow> int \<Rightarrow> int option" where
  "global_end now max_ms = (if max_ms > 0 then plus_ms now max_ms else Some tp_max)"

definition kMaxHorizon :: int where "kMaxHorizon = 24 * 365 * 100 * 3600 * 10 ^ 9"

definition stage_end :: "int \<Rightarrow> int \<Rightarrow> Stage \<Rightarrow> int option" where
  "stage_end now gend s =
     map_option (\<lambda>t. if gend \<noteq> tp_max then min t gend else t)
       (if stage_duration s > 0
        then map_option (\<lambda>t. if t > tp_max - kMaxHorizon then tp_max - kMaxHorizon else t) (plus_ms now (stage_duration s))
        else Some tp_max)"

section \<open>Time slots of a worker\<close>

definition slot_period :: "nat \<Rightarrow> u32 \<Rightarrow> int" where
  "slot_period users rps =
     (let rate = rnd (of_nat (unat rps)); rate = (if rate \<le> 0 then 1 else rate);
          period = fmul (fdiv (rnd (of_nat users)) rate) 1000000000;
          period = (if period < 1 then 1 else period);
          period = (if period > 10 ^ 18 then 10 ^ 18 else period)
      in trunc_int period)"

text \<open>The phase of worker \<open>w\<close>; the product is computed before the division.\<close>

definition slot_phase :: "int \<Rightarrow> nat \<Rightarrow> nat \<Rightarrow> int option" where
  "slot_phase period w users =
     (if period * int w > tp_max then None else Some (period * int w div int users))"

text \<open>
  What a worker reads in one pass of its loop: the flag \<open>stopped_\<close> and the clock at the head, the clock and the flag at each test of the
  loop that sleeps until two milliseconds before the slot and of the loop that spins until the slot, and the clock after them.
\<close>

record Pass_Obs =
  ps_stopped :: bool
  ps_now :: int
  ps_sleep :: "(int \<times> bool) list"
  ps_spin :: "(int \<times> bool) list"
  ps_woke :: int

text \<open>\<open>while (now() < t && !stopped_)\<close>: the reading that ended the loop, \<open>None\<close> while it still runs.\<close>

fun wait_loop :: "int \<Rightarrow> (int \<times> bool) list \<Rightarrow> (int \<times> bool) option" where
  "wait_loop t [] = None"
| "wait_loop t ((now, stopped) # obs) = (if now < t \<and> \<not> stopped then wait_loop t obs else Some (now, stopped))"

definition wait_for_slot :: "int \<Rightarrow> Pass_Obs \<Rightarrow> (int \<times> bool) option" where
  "wait_for_slot next_slot p =
     (if next_slot - ps_now p > 2000000 \<and> wait_loop (next_slot - 2000000) (ps_sleep p) = None then None
      else wait_loop next_slot (ps_spin p))"

text \<open>The times at which a worker calls \<open>try_consume\<close>, each with the pass that led to it.\<close>

fun worker_fires :: "int \<Rightarrow> int \<Rightarrow> bool \<Rightarrow> int \<Rightarrow> Pass_Obs list \<Rightarrow> (int \<times> Pass_Obs) list" where
  "worker_fires period stage_e first_slot next_slot [] = []"
| "worker_fires period stage_e first_slot next_slot (p # passes) =
     (if ps_stopped p then []
      else if ps_now p \<ge> stage_e then []
      else if first_slot then (ps_now p, p) # worker_fires period stage_e False next_slot passes
      else let next_slot = next_slot + period
           in if ps_now p < next_slot then
                (case wait_for_slot next_slot p of
                   None \<Rightarrow> []
                 | Some _ \<Rightarrow> if ps_woke p \<ge> stage_e then [] else (ps_woke p, p) # worker_fires period stage_e False next_slot passes)
              else (ps_now p, p) # worker_fires period stage_e False next_slot passes)"

text \<open>
  How the readings of a stage relate: the clock does not go back between the last test of the spin and the reading after it, and
  nobody clears the flag while workers run, so that a pass which saw it set is followed by passes that do.
\<close>

definition saw_stop :: "Pass_Obs \<Rightarrow> bool" where
  "saw_stop p \<longleftrightarrow> (\<exists>x\<in>set (ps_sleep p) \<union> set (ps_spin p). snd x)"

fun stage_readings :: "Pass_Obs list \<Rightarrow> bool" where
  "stage_readings [] \<longleftrightarrow> True"
| "stage_readings (p # ps) \<longleftrightarrow> list_all (\<lambda>x. fst x \<le> ps_woke p) (ps_spin p)
     \<and> (saw_stop p \<longrightarrow> list_all ps_stopped ps) \<and> stage_readings ps"

section \<open>The start of a worker\<close>

definition kAcquireAttempts :: nat where "kAcquireAttempts = 200"

text \<open>\<open>got i\<close> is the result of the \<open>i\<close>-th call of \<open>acquire\<close>; between calls other threads run.\<close>

function acquire_loop :: "(nat \<Rightarrow> 'c option) \<Rightarrow> nat \<Rightarrow> 'c option" where
  "acquire_loop got attempts =
     (if attempts < kAcquireAttempts then
        (case got attempts of Some c \<Rightarrow> Some c | None \<Rightarrow> acquire_loop got (attempts + 1))
      else None)"
  by pat_completeness auto
termination by (relation "measure (\<lambda>(got, attempts). kAcquireAttempts - attempts)") auto

declare acquire_loop.simps [simp del]

definition fail_worker :: "string \<Rightarrow> ScenarioEngine \<Rightarrow> ScenarioEngine" where
  "fail_worker msg e = e\<lparr>en_last_error := (if en_last_error e = [] then msg else en_last_error e),
     en_worker_failures := en_worker_failures e + 1\<rparr>"

fun exn_what :: "cpp_exn \<Rightarrow> string" where
  "exn_what (Invalid_argument s) = s"
| "exn_what (Runtime_error s) = s"
| "exn_what (Out_of_range s) = s"
| "exn_what (Json_error s) = s"
| "exn_what (Yaml_error s) = s"

definition worker_exception :: "cpp_exn \<Rightarrow> ScenarioEngine \<Rightarrow> ScenarioEngine" where
  "worker_exception x e = e\<lparr>en_last_error := ''worker thread error: '' @ exn_what x,
     en_worker_failures := en_worker_failures e + 1\<rparr>"

text \<open>The client a worker starts its loop with, or none and the failure recorded.\<close>

definition worker_start ::
  "'c registry \<Rightarrow> (nat \<Rightarrow> 'c option) \<Rightarrow> ScenarioEngine \<Rightarrow> 'c option \<times> ScenarioEngine" where
  "worker_start reg got e =
     (let proto = (if protocol (sc_target (en_config e)) = [] then ''http1.1'' else protocol (sc_target (en_config e)));
          any_steps = list_ex (\<lambda>s. sd_steps s \<noteq> []) (scenarios (en_config e));
          begin_loop = (\<lambda>c e. if any_steps then (Some c, e)
            else (None, fail_worker ''scenario configuration has no steps to execute'' e))
      in if proto = ''http1.1'' then
           (let ((host, port, tls), e) = resolve_url (base_url (sc_target (en_config e))) False e
            in case acquire_loop got 0 of
                 None \<Rightarrow> (None, fail_worker (''connection pool exhausted for '' @ host) e)
               | Some c \<Rightarrow> begin_loop c e)
         else (case create_protocol proto reg of
                 Inl x \<Rightarrow> (None, worker_exception x e)
               | Inr c \<Rightarrow> begin_loop c e))"

section \<open>The loop over the stages\<close>

text \<open>
  When an external \<open>stop()\<close> arrives in a stage: before the loop first reads the flag, between that read and the
  test whether to wait, while it waits for the deadline, or while it joins the workers.
\<close>

datatype Stop_At = No_stop | Stop_early | Stop_unseen | Stop_waiting | Stop_joining

record Stage_Obs =
  so_now :: int
  so_end_now :: int
  so_stop :: Stop_At
  so_fail_wait :: nat
  so_fail_join :: nat

text \<open>
  From the wait for the deadline to the end of the pass, on the flag \<open>stopped_\<close> and the number of worker
  failures: \<open>so_fail_wait\<close> of them are seen at the end of the wait, \<open>so_fail_join\<close> when the workers are joined.
\<close>

definition finish_stage :: "bool \<Rightarrow> bool \<Rightarrow> Stage_Obs \<Rightarrow> bool \<times> nat \<Rightarrow> bool \<times> nat" where
  "finish_stage bounded further ob st =
     (let (stopped, failures) = st; early = (stopped \<or> so_stop ob = Stop_early);
          (externally_stopped, stopped) =
            (if bounded \<and> \<not> early \<and> so_stop ob \<noteq> Stop_unseen then (so_stop ob = Stop_waiting \<or> failures + so_fail_wait ob > 0, True)
             else (early, early \<or> so_stop ob \<noteq> No_stop));
          failures = failures + so_fail_join ob
      in if further \<and> \<not> externally_stopped \<and> failures = 0 then (False, failures) else (stopped, failures))"

text \<open>The number of stages whose workers were started, and the final flag and failures.\<close>

fun run_stages :: "int \<Rightarrow> Stage list \<Rightarrow> Stage_Obs list \<Rightarrow> bool \<times> nat \<Rightarrow> (nat \<times> bool \<times> nat) option" where
  "run_stages gend (s # ss) (ob # obs) (stopped, failures) =
     (if stopped then Some (0, stopped, failures)
      else if so_now ob \<ge> gend then Some (0, True, failures)
      else Option.bind (stage_end (so_end_now ob) gend s) (\<lambda>t.
           map_option (\<lambda>(k, st). (Suc k, st))
             (run_stages gend ss obs (finish_stage (t \<noteq> tp_max) (ss \<noteq> []) ob (stopped, failures)))))"
| "run_stages gend [] obs st = Some (0, st)"
| "run_stages gend ss [] st = Some (0, st)"

section \<open>Facts\<close>

lemma plus_ms_le: "plus_ms now ms = Some t \<Longrightarrow> t \<le> tp_max"
  by (auto simp: plus_ms_def split: if_splits)

lemma stage_end_bounded:
  assumes "stage_end now gend s = Some t" "stage_duration s > 0 \<or> gend < tp_max"
  shows "t \<noteq> tp_max"
proof -
  have "tp_max - kMaxHorizon < tp_max" by (simp add: kMaxHorizon_def)
  then show ?thesis using assms by (auto simp: stage_end_def split: if_splits)
qed

lemma finish_stage_continues:
  assumes "finish_stage True further ob (False, 0) = (False, f)"
  shows "f = 0 \<and> so_fail_wait ob = 0 \<or> so_stop ob = Stop_unseen" "f = 0" "so_fail_join ob = 0"
    "so_stop ob \<noteq> Stop_early" "so_stop ob \<noteq> Stop_waiting"
  using assms by (auto simp: finish_stage_def Let_def split: if_splits)

lemma run_stages_prefix:
  assumes "list_all (\<lambda>s. stage_duration s > 0) ss \<or> gend < tp_max"
    and "run_stages gend ss obs (False, 0) = Some (k, st)" "Suc i < k"
  shows "so_fail_join (obs ! i) = 0 \<and> so_stop (obs ! i) \<noteq> Stop_early \<and> so_stop (obs ! i) \<noteq> Stop_waiting"
  using assms
proof (induction ss arbitrary: obs k i)
  case (Cons s ss)
  then obtain ob obs' where obs: "obs = ob # obs'" by (cases obs) auto
  show ?case
  proof (cases "so_now ob \<ge> gend")
    case False
    with Cons.prems(2) obs obtain t k' where t: "stage_end (so_end_now ob) gend s = Some t"
      and r: "run_stages gend ss obs' (finish_stage (t \<noteq> tp_max) (ss \<noteq> []) ob (False, 0)) = Some (k', st)" and k: "k = Suc k'"
      by (auto simp: bind_eq_Some_conv)
    have "t \<noteq> tp_max" using stage_end_bounded [OF t] Cons.prems(1) by auto
    moreover obtain stopped f where fs: "finish_stage True (ss \<noteq> []) ob (False, 0) = (stopped, f)" by fastforce
    ultimately have r: "run_stages gend ss obs' (stopped, f) = Some (k', st)" using r by simp
    have "\<not> stopped" using r k Cons.prems(3) by (cases ss; cases obs') auto
    then have c: "finish_stage True (ss \<noteq> []) ob (False, 0) = (False, f)" using fs by simp
    note cont = finish_stage_continues [OF c]
    show ?thesis
    proof (cases i)
      case 0
      with cont obs show ?thesis by simp
    next
      case (Suc j)
      from Cons.IH [of obs' k' j] r cont(2) \<open>\<not> stopped\<close> Cons.prems(1,3) k Suc obs show ?thesis by auto
    qed
  qed (use Cons.prems obs in simp)
qed simp


lemma acquire_loop_None: "(\<And>i. got i = None) \<Longrightarrow> acquire_loop got n = None"
  by (induction got n rule: acquire_loop.induct) (subst acquire_loop.simps, simp)

lemma wait_loop_Some: "wait_loop t obs = Some x \<Longrightarrow> x \<in> set obs \<and> (fst x \<ge> t \<or> snd x)"
  by (induction t obs rule: wait_loop.induct) (auto split: if_splits)

lemma wait_for_slot_early:
  assumes "wait_for_slot t p = Some x" "list_all (\<lambda>x. fst x \<le> ps_woke p) (ps_spin p)" "ps_woke p < t"
  shows "saw_stop p"
proof -
  have "wait_loop t (ps_spin p) = Some x" using assms(1) by (auto simp: wait_for_slot_def split: if_splits)
  from wait_loop_Some [OF this] assms(2,3) show ?thesis by (force simp: saw_stop_def list_all_iff)
qed

lemma worker_fires_stopped: "list_all ps_stopped passes \<Longrightarrow> worker_fires period stage_e first next_slot passes = []"
  by (cases passes) auto

lemma worker_fires_slots:
  assumes "worker_fires period stage_e False next_slot passes = fs" "stage_readings passes" "i < length fs"
  shows "fst (fs ! i) \<ge> next_slot + (int i + 1) * period \<or> saw_stop (snd (fs ! i)) \<and> Suc i = length fs"
  using assms
proof (induction passes arbitrary: next_slot fs i)
  case (Cons p passes)
  let ?n = "next_slot + period" and ?rest = "worker_fires period stage_e False (next_slot + period) passes"
  from Cons.prems(3) Cons.prems(1) [symmetric] obtain t where fs: "fs = (t, p) # ?rest"
    and t: "t \<ge> ?n \<or> (t = ps_woke p \<and> (\<exists>x. wait_for_slot ?n p = Some x))"
    by (auto simp: Let_def split: if_splits option.splits)
  have early: "saw_stop p \<and> ?rest = []" if "t < ?n"
  proof -
    from that t obtain x where "t = ps_woke p" "wait_for_slot ?n p = Some x" by auto
    with that Cons.prems(2) have "saw_stop p" by (intro wait_for_slot_early) auto
    with Cons.prems(2) show ?thesis by (simp add: worker_fires_stopped)
  qed
  show ?case
  proof (cases i)
    case 0
    with early fs show ?thesis by auto
  next
    case (Suc j)
    with fs Cons.prems(2,3) Cons.IH [OF refl, of j ?n] show ?thesis by (auto simp: algebra_simps)
  qed
qed simp

lemma worker_fires_before_end: "x \<in> set (worker_fires period stage_e first next_slot passes) \<Longrightarrow> fst x < stage_e"
  by (induction passes arbitrary: first next_slot) (auto simp: Let_def split: if_splits option.splits)

lemma overlong_stage:
  assumes "stage_duration s = ms_max" "now \<ge> 0"
  shows "stage_end now gend s = None"
  using assms by (simp add: stage_end_def plus_ms_def ms_max_def tp_max_def)

section \<open>Properties\<close>

text \<open>
  C17: A failed or stopped stage ends the run. When every stage has a deadline, each stage that was followed
  by another had no worker failure, and no external stop that arrived before its workers were joined
  and was seen.
\<close>
theorem run_aborts:
  assumes "list_all (\<lambda>s. stage_duration s > 0) ss \<or> gend < tp_max"
    and "run_stages gend ss obs (False, 0) = Some (k, st)" "Suc i < k"
  shows "so_fail_join (obs ! i) = 0 \<and> so_stop (obs ! i) \<noteq> Stop_early \<and> so_stop (obs ! i) \<noteq> Stop_waiting"
  using assms by (rule run_stages_prefix)

definition obs_stop :: "Stop_At \<Rightarrow> Stage_Obs" where
  "obs_stop x = \<lparr>so_now = 0, so_end_now = 0, so_stop = x, so_fail_wait = 0, so_fail_join = 0\<rparr>"

definition stage_1s :: Stage where
  "stage_1s = Stage_default\<lparr>stage_duration := 1000\<rparr>"

lemma stage_1s_end: "stage_end 0 tp_max stage_1s = Some 1000000000"
  by (simp add: stage_end_def plus_ms_def stage_1s_def tp_max_def kMaxHorizon_def)

lemma two_stages: "run_stages tp_max [stage_1s, stage_1s] [obs_stop Stop_joining, obs_stop No_stop] (False, 0) = Some (2, True, 0)"
  by (auto simp: obs_stop_def stage_1s_end finish_stage_def) (simp_all add: tp_max_def)

lemma failed_stage:
  "run_stages tp_max [stage_1s, stage_1s] [(obs_stop No_stop)\<lparr>so_fail_join := 1\<rparr>, obs_stop No_stop] (False, 0) = Some (1, True, 1)"
  by (auto simp: obs_stop_def stage_1s_end finish_stage_def) (simp_all add: tp_max_def)

text \<open>A stage followed by another, with a stop that came too late to be seen; and two stages of which the first has a failed worker.\<close>

theorem run_aborts_witness:
  "run_stages tp_max [stage_1s, stage_1s] [obs_stop Stop_joining, obs_stop No_stop] (False, 0) = Some (2, True, 0)
   \<and> so_fail_join (obs_stop Stop_joining) = 0 \<and> so_stop (obs_stop Stop_joining) \<noteq> Stop_waiting
   \<and> (\<exists>k st. run_stages tp_max [stage_1s, stage_1s] [(obs_stop No_stop)\<lparr>so_fail_join := 1\<rparr>, obs_stop No_stop] (False, 0) = Some (k, st) \<and> k \<le> 1)"
proof -
  let ?obs = "[(obs_stop No_stop)\<lparr>so_fail_join := 1\<rparr>, obs_stop No_stop]"
  have d: "list_all (\<lambda>s. stage_duration s > 0) [stage_1s, stage_1s] \<or> tp_max < tp_max" by (simp add: stage_1s_def)
  have "so_fail_join ([obs_stop Stop_joining, obs_stop No_stop] ! 0) = 0 \<and> so_stop ([obs_stop Stop_joining, obs_stop No_stop] ! 0) \<noteq> Stop_waiting"
    using run_aborts [OF d two_stages, of 0] by simp
  moreover obtain k st where r: "run_stages tp_max [stage_1s, stage_1s] ?obs (False, 0) = Some (k, st)"
    using failed_stage by blast
  moreover have "k \<le> 1"
  proof (rule ccontr)
    assume "\<not> k \<le> 1"
    then have "Suc 0 < k" by simp
    from run_aborts [OF d r this] show False by simp
  qed
  ultimately show ?thesis using two_stages by auto
qed



text \<open>
  C39: A stage can starve the next one of connections. When \<open>max_connections\<close> workers of earlier stages dropped their client because a request was in
  flight at the deadline, every worker that starts later gives up after its attempts and marks the run as
  failed, although the pool was sized for the stage.
\<close>
theorem dropped_clients_fail_run:
  assumes "(pool_step mk cfg)\<^sup>*\<^sup>* (sys_start t) s" "length (leaked s) = max_connections cfg"
    and "\<And>i. (pool_step mk cfg)\<^sup>*\<^sup>* s (ps i)"
    and "protocol (sc_target (en_config e)) = ''http1.1''"
  shows "fst (worker_start reg (\<lambda>i. fst (acquire mk cfg host port (sys_pool (ps i)))) e) = None
    \<and> run_failed (snd (worker_start reg (\<lambda>i. fst (acquire mk cfg host port (sys_pool (ps i)))) e))"
proof -
  have "fst (acquire mk cfg host port (sys_pool (ps i))) = None" for i
    using exhausted_acquire [OF assms(1,2) assms(3)] .
  then have "acquire_loop (\<lambda>i. fst (acquire mk cfg host port (sys_pool (ps i)))) 0 = None" by (rule acquire_loop_None)
  then show ?thesis using assms(4)
    by (simp add: worker_start_def Let_def fail_worker_def run_failed_def split: prod.split)
qed

theorem dropped_clients_fail_run_witness:
  "\<exists>e. en_worker_failures e = 0 \<and> run_failed (snd (worker_start [] (\<lambda>i. fst (acquire (\<lambda>_ _. 7) cfg_one ''h'' 80 (sys_pool (sys_one [] [7])))) e))"
proof -
  let ?e = "\<lparr>en_stopped = False, en_config_path = [], en_config = ScenarioConfig_default, en_last_error = [],
       en_bucket = \<lparr>tb_rate = 1, tb_burst = 1, tb_tokens = 1, tb_last_refill = 0\<rparr>, en_target_rps = 1, en_max_duration_ms = 0,
       en_worker_failures = 0\<rparr>"
  have "length (leaked (sys_one [] [7])) = max_connections cfg_one" by (simp add: sys_one_def cfg_one_def)
  from dropped_clients_fail_run [OF one_dropped this, of "\<lambda>_. sys_one [] [7]" ?e]
  have "run_failed (snd (worker_start [] (\<lambda>i. fst (acquire (\<lambda>_ _. 7) cfg_one ''h'' 80 (sys_pool (sys_one [] [7])))) ?e))"
    by (simp add: ScenarioConfig_default_def)
  then show ?thesis by (intro exI [of _ ?e]) simp
qed

text \<open>
  C23: Pacing of a worker. Every attempt to take a token is before the deadline, and every one after the first is not before its slot, with one
  exception: an attempt whose wait was cut short by a stop, which is the last one. So the attempts of a worker, up to
  two, fit into the stage at one per period, and up to one if no stop cut a wait short.
\<close>
theorem worker_pacing:
  assumes "worker_fires period stage_e True start passes = fs" "stage_readings passes"
  shows "list_all (\<lambda>x. fst x < stage_e) fs
    \<and> list_all (\<lambda>i. fst (fs ! i) \<ge> start + int i * period \<or> saw_stop (snd (fs ! i)) \<and> Suc i = length fs) [1 ..< length fs]
    \<and> (length fs > 2 \<longrightarrow> (int (length fs) - 2) * period < stage_e - start)
    \<and> (length fs > 1 \<and> \<not> saw_stop (snd (last fs)) \<longrightarrow> (int (length fs) - 1) * period < stage_e - start)"
proof -
  have e: "list_all (\<lambda>x. fst x < stage_e) fs" using worker_fires_before_end assms by (fastforce simp: list_all_iff)
  have f: "fst (fs ! i) \<ge> start + int i * period \<or> saw_stop (snd (fs ! i)) \<and> Suc i = length fs" if i: "0 < i" "i < length fs" for i
  proof -
    obtain p ps where p: "passes = p # ps" using i assms by (cases passes) auto
    with assms(1) i have "fs = (ps_now p, p) # worker_fires period stage_e False start ps" by (auto split: if_splits)
    moreover obtain j where "i = Suc j" using i(1) by (cases i) auto
    ultimately show ?thesis using worker_fires_slots [OF refl, of ps j period stage_e start] i(2) assms(2) p by (auto simp: algebra_simps)
  qed
  have slot: "int i * period < stage_e - start" if "0 < i" "i < length fs" "Suc i \<noteq> length fs \<or> \<not> saw_stop (snd (fs ! i))" for i
    using f [OF that(1,2)] that e by (auto simp: list_all_length)
  have "(int (length fs) - 2) * period < stage_e - start" if "length fs > 2"
  proof -
    have "0 < length fs - 2" "length fs - 2 < length fs" "Suc (length fs - 2) \<noteq> length fs" using that by auto
    from slot [OF this(1,2) disjI1 [OF this(3)]] show ?thesis using that by (simp add: of_nat_diff)
  qed
  moreover have "(int (length fs) - 1) * period < stage_e - start" if "length fs > 1" "\<not> saw_stop (snd (last fs))"
  proof -
    have "last fs = fs ! (length fs - 1)" using that(1) by (intro last_conv_nth) auto
    with slot [of "length fs - 1"] that show ?thesis by (simp add: of_nat_diff)
  qed
  ultimately show ?thesis using e f by (auto simp: list_all_iff)
qed

definition pass :: "int \<Rightarrow> int \<Rightarrow> bool \<Rightarrow> Pass_Obs" where
  "pass now woke stop = \<lparr>ps_stopped = False, ps_now = now, ps_sleep = [], ps_spin = [(woke, stop)], ps_woke = woke\<rparr>"

theorem worker_pacing_witness:
  "map fst (worker_fires 10 100 True 0 [pass 0 0 False, pass 3 10 False, pass 12 13 True]) = [0, 10, 13]
   \<and> saw_stop (pass 12 13 True) \<and> (int (length (worker_fires 10 100 True 0 [pass 0 0 False, pass 3 10 False, pass 12 13 True])) - 2) * 10 < 100 - (0 :: int)"
proof -
  have "stage_readings [pass 0 0 False, pass 3 10 False, pass 12 13 True]" by (simp add: pass_def saw_stop_def)
  from worker_pacing [OF refl this, of 10 100 0]
  show ?thesis by (simp add: pass_def saw_stop_def wait_for_slot_def)
qed

text \<open>
  The longest durations overflow. A stage duration that the configuration reader caps at the largest number of
  milliseconds makes the computation of the stage's deadline overflow before the deadline is capped.
\<close>
theorem capped_duration_overflows:
  assumes "n < 2 ^ 1000" "(unit, m) \<in> set duration_units" "n * m \<ge> 9 * 10 ^ 15" "now \<ge> 0"
    and "parse_duration (nat_dec n @ unit) = Some (stage_duration s)"
  shows "stage_end now gend s = None"
proof -
  have "stage_duration s = ms_max" using parse_duration_printed [OF assms(1,2)] assms(3,5) by simp
  then show ?thesis using assms(4) by (rule overlong_stage)
qed

theorem capped_duration_overflows_witness:
  "stage_end 0 tp_max (Stage_default\<lparr>stage_duration := ms_max\<rparr>) = None"
proof -
  have "parse_duration (nat_dec (10 ^ 13) @ ''s'') = Some ms_max"
    using parse_duration_printed [of "10 ^ 13" "''s''" 1000] by (simp add: duration_units_def)
  then show ?thesis
    using capped_duration_overflows [of "10 ^ 13" "''s''" 1000 0 "Stage_default\<lparr>stage_duration := ms_max\<rparr>"]
    by (simp add: duration_units_def)
qed

end
