(* ===== verification/Auth_Provider.thy ===== *)
theory Auth_Provider
  imports Volley_Error Url
begin

text \<open>
  Authentication of requests, \<open>core/security/auth_provider.cpp\<close>. What the network and the server do
  in one token request is the argument \<open>P\<close>: whether the name resolves, how connecting, the TLS
  handshake and writing end, and what is read back for the message sent. JSON is the argument \<open>J\<close>.
  Every access to the token holds the mutex, so operations are atomic. \<open>au_posts\<close> counts the
  token requests and is read by no operation.
\<close>

section \<open>Types\<close>

datatype AuthType = Auth_none | Auth_api_key | Auth_bearer | Auth_oauth2 | Auth_mtls

record AuthConfig =
  ac_type :: AuthType
  ac_api_key :: string
  ac_token :: string
  ac_client_id :: string
  ac_client_secret :: string
  ac_token_endpoint :: string
  ac_cert_path :: string
  ac_key_path :: string
  ac_ca_path :: string

record HttpMsg =
  hm_method :: string
  hm_target :: string
  hm_headers :: "(string \<times> string) list"
  hm_body :: string

datatype Io_End = Io_ok | Io_timeout | Io_eof | Io_failed

record Post_Net =
  pn_resolve :: "string \<Rightarrow> string \<Rightarrow> bool"
  pn_sni :: "string \<Rightarrow> bool"
  pn_connect :: Io_End
  pn_handshake :: Io_End
  pn_write :: Io_End
  pn_read :: "HttpMsg \<Rightarrow> Io_End \<times> nat \<times> string"

record 'j Auth_Json =
  aj_parse :: "string \<Rightarrow> cpp_exn + 'j"
  aj_value_string :: "'j \<Rightarrow> string \<Rightarrow> string \<Rightarrow> cpp_exn + string"
  aj_value_int :: "'j \<Rightarrow> string \<Rightarrow> int \<Rightarrow> cpp_exn + int"

record AuthProvider =
  au_config :: AuthConfig
  current_token :: string
  token_expiry :: int
  au_posts :: nat

definition kUserAgent :: string where "kUserAgent = ''volley/1.1.0''"
definition kDefaultTokenExpirySec :: int where "kDefaultTokenExpirySec = 3600"
definition kExpiryMarginSec :: int where "kExpiryMarginSec = 60"

section \<open>The token request\<close>

definition post_message :: "string \<Rightarrow> string \<Rightarrow> string \<Rightarrow> string \<Rightarrow> HttpMsg" where
  "post_message host target body content_type =
     \<lparr>hm_method = ''POST'', hm_target = target,
      hm_headers = [(''Host'', host), (''User-Agent'', kUserAgent), (''Content-Type'', content_type),
        (''Accept'', ''application/json''), (''Content-Length'', nat_dec (length body))],
      hm_body = body\<rparr>"

text \<open>Writing the request and reading the response, the same on a plain and on a TLS stream.\<close>

definition post_exchange :: "Post_Net \<Rightarrow> HttpMsg \<Rightarrow> (nat \<times> string, Err) Result" where
  "post_exchange P req =
     (if pn_write P \<noteq> Io_ok then err write_error
      else case pn_read P req of (ec, status, body) \<Rightarrow>
        if ec \<noteq> Io_ok \<and> ec \<noteq> Io_eof then err read_error else ok (status, body))"

definition do_sync_post ::
  "Post_Net \<Rightarrow> string \<Rightarrow> string \<Rightarrow> string \<Rightarrow> string \<Rightarrow> string \<Rightarrow> bool \<Rightarrow> (nat \<times> string, Err) Result" where
  "do_sync_post P host port target body content_type use_tls =
     (if \<not> pn_resolve P host port then err dns_failure
      else let req = post_message host target body content_type
      in if use_tls \<and> \<not> pn_sni P host then err tls_handshake_failed
      else if pn_connect P = Io_timeout then err connection_timeout
      else if pn_connect P \<noteq> Io_ok then err connection_refused
      else if use_tls \<and> pn_handshake P \<noteq> Io_ok then err tls_handshake_failed
      else post_exchange P req)"

definition token_body :: "AuthConfig \<Rightarrow> string" where
  "token_body cfg = ''grant_type=client_credentials'' @ ''&client_id='' @ url_encode (ac_client_id cfg)
     @ ''&client_secret='' @ url_encode (ac_client_secret cfg)"

definition seconds :: "int \<Rightarrow> int" where "seconds s = s * 10 ^ 9"

text \<open>
  \<open>fetch_token_locked\<close> at the time \<open>now\<close> of the reply. The token is stored before the lifetime is
  read, so that a lifetime of the wrong type leaves the new token with the old expiry.
  The difference of lifetime and margin is exact: in C++ it is an \<open>int\<close> and undefined for a lifetime below \<open>60 - 2 ^ 31\<close>.
\<close>

definition store_token :: "'j Auth_Json \<Rightarrow> int \<Rightarrow> string \<Rightarrow> AuthProvider \<Rightarrow> (bool, Err) Result \<times> AuthProvider" where
  "store_token J now body a = (case aj_parse J body of
     Inl _ \<Rightarrow> (err auth_parse_error, a)
   | Inr j \<Rightarrow>
       (case aj_value_string J j ''access_token'' [] of
          Inl _ \<Rightarrow> (err auth_parse_error, a)
        | Inr token \<Rightarrow>
            if token = [] then (err auth_invalid_grant, a)
            else let a = a\<lparr>current_token := token\<rparr>
            in case aj_value_int J j ''expires_in'' kDefaultTokenExpirySec of
                 Inl _ \<Rightarrow> (err auth_parse_error, a)
               | Inr expires_in \<Rightarrow> (ok True, a\<lparr>token_expiry := now + seconds (max (expires_in - kExpiryMarginSec) 1)\<rparr>)))"

definition fetch_token :: "'j Auth_Json \<Rightarrow> Post_Net \<Rightarrow> int \<Rightarrow> AuthProvider \<Rightarrow> (bool, Err) Result \<times> AuthProvider" where
  "fetch_token J P now a =
     (let cfg = au_config a; url = parse_url (ac_token_endpoint cfg); a = a\<lparr>au_posts := au_posts a + 1\<rparr>
      in case do_sync_post P (up_host url) (up_port url) (up_path url) (token_body cfg)
           ''application/x-www-form-urlencoded'' (up_tls url) of
           err e \<Rightarrow> (err e, a)
         | ok (code, body) \<Rightarrow>
             if code < 200 \<or> code \<ge> 300 then
               (if code = 401 then err auth_invalid_client
                else if code = 400 then err auth_invalid_grant else err auth_server_error, a)
             else store_token J now body a)"

section \<open>The provider\<close>

definition AuthProvider_new :: "'j Auth_Json \<Rightarrow> Post_Net \<Rightarrow> int \<Rightarrow> AuthConfig \<Rightarrow> cpp_exn + AuthProvider" where
  "AuthProvider_new J P now cfg =
     (let a = \<lparr>au_config = cfg, current_token = [], token_expiry = 0, au_posts = 0\<rparr>
      in if ac_type cfg = Auth_oauth2 \<and> ac_token_endpoint cfg \<noteq> [] then
           (case fetch_token J P now a of
              (err e, _) \<Rightarrow> Inl (Runtime_error (err_message e))
            | (ok _, a) \<Rightarrow> Inr a)
         else Inr a)"

text \<open>\<open>now\<close> is the clock at the test of the expiry, \<open>now'\<close> when the reply of a refresh is in.\<close>

definition get_token :: "'j Auth_Json \<Rightarrow> Post_Net \<Rightarrow> int \<Rightarrow> int \<Rightarrow> AuthProvider \<Rightarrow> string \<times> AuthProvider" where
  "get_token J P now now' a =
     (if now \<ge> token_expiry a then
        (case fetch_token J P now' a of
           (err _, a) \<Rightarrow> (if current_token a \<noteq> [] then current_token a else [], a)
         | (ok _, a) \<Rightarrow> (current_token a, a))
      else (current_token a, a))"

definition apply_headers ::
  "'j Auth_Json \<Rightarrow> Post_Net \<Rightarrow> int \<Rightarrow> int \<Rightarrow> (string \<times> string) list \<Rightarrow> AuthProvider \<Rightarrow> (string \<times> string) list \<times> AuthProvider" where
  "apply_headers J P now now' headers a = (case ac_type (au_config a) of
     Auth_api_key \<Rightarrow> (AList.update ''X-API-Key'' (ac_api_key (au_config a)) headers, a)
   | Auth_bearer \<Rightarrow> (AList.update ''Authorization'' (''Bearer '' @ ac_token (au_config a)) headers, a)
   | Auth_oauth2 \<Rightarrow>
       let (token, a) = get_token J P now now' a
       in (if token \<noteq> [] then AList.update ''Authorization'' (''Bearer '' @ token) headers else headers, a)
   | Auth_mtls \<Rightarrow> (AList.update ''X-SSL-Cert'' ''mtls'' headers, a)
   | Auth_none \<Rightarrow> (headers, a))"

definition get_auth_header :: "'j Auth_Json \<Rightarrow> Post_Net \<Rightarrow> int \<Rightarrow> int \<Rightarrow> AuthProvider \<Rightarrow> string \<times> AuthProvider" where
  "get_auth_header J P now now' a = (case ac_type (au_config a) of
     Auth_api_key \<Rightarrow> (''X-API-Key: '' @ ac_api_key (au_config a), a)
   | Auth_bearer \<Rightarrow> (''Authorization: Bearer '' @ ac_token (au_config a), a)
   | Auth_oauth2 \<Rightarrow>
       let (token, a) = get_token J P now now' a
       in (if token = [] then [] else ''Authorization: Bearer '' @ token, a)
   | Auth_mtls \<Rightarrow> (''X-SSL-Cert: mtls'', a)
   | Auth_none \<Rightarrow> ([], a))"

definition refresh_token :: "'j Auth_Json \<Rightarrow> Post_Net \<Rightarrow> int \<Rightarrow> AuthProvider \<Rightarrow> (bool, Err) Result \<times> AuthProvider" where
  "refresh_token J P now a =
     (if ac_type (au_config a) \<noteq> Auth_oauth2 then (ok True, a) else fetch_token J P now a)"

definition is_expired :: "int \<Rightarrow> AuthProvider \<Rightarrow> bool" where
  "is_expired now a = (if ac_type (au_config a) \<noteq> Auth_oauth2 then False else now \<ge> token_expiry a)"

section \<open>Facts\<close>

lemma store_token_frame:
  "store_token J now body a = (r, a') \<Longrightarrow> au_config a' = au_config a \<and> au_posts a' = au_posts a"
  by (auto simp: store_token_def Let_def split: sum.splits if_splits)

lemma fetch_token_frame:
  "fetch_token J P now a = (r, a') \<Longrightarrow> au_config a' = au_config a \<and> au_posts a' = au_posts a + 1"
  by (auto simp: fetch_token_def Let_def split: Result.splits prod.splits if_splits dest!: store_token_frame)

lemma store_token_ok:
  "store_token J now body a = (ok b, a') \<Longrightarrow> current_token a' \<noteq> [] \<and> token_expiry a' \<ge> now + seconds 1"
  by (auto simp: store_token_def Let_def seconds_def split: sum.splits if_splits)

lemma fetch_token_ok:
  "fetch_token J P now a = (ok b, a') \<Longrightarrow> current_token a' \<noteq> [] \<and> token_expiry a' \<ge> now + seconds 1"
  by (auto simp: fetch_token_def Let_def split: Result.splits prod.splits if_splits dest!: store_token_ok)

lemma store_token_err:
  "store_token J now body a = (err e, a') \<Longrightarrow> token_expiry a' = token_expiry a \<and> (e \<noteq> auth_parse_error \<longrightarrow> current_token a' = current_token a)
     \<and> (current_token a \<noteq> [] \<longrightarrow> current_token a' \<noteq> [])"
  by (auto simp: store_token_def Let_def split: sum.splits if_splits)

lemma fetch_token_err:
  "fetch_token J P now a = (err e, a') \<Longrightarrow> token_expiry a' = token_expiry a \<and> (e \<noteq> auth_parse_error \<longrightarrow> current_token a' = current_token a)
     \<and> (current_token a \<noteq> [] \<longrightarrow> current_token a' \<noteq> [])"
  by (auto simp: fetch_token_def Let_def split: Result.splits prod.splits if_splits dest!: store_token_err)

section \<open>Any use of a provider\<close>

inductive auth_step :: "'j Auth_Json \<Rightarrow> AuthProvider \<Rightarrow> AuthProvider \<Rightarrow> bool" for J where
  as_apply: "apply_headers J P now now' hs a = (hs', a') \<Longrightarrow> auth_step J a a'"
| as_header: "get_auth_header J P now now' a = (h, a') \<Longrightarrow> auth_step J a a'"
| as_refresh: "refresh_token J P now a = (r, a') \<Longrightarrow> auth_step J a a'"

definition oauth_ready :: "AuthProvider \<Rightarrow> bool" where
  "oauth_ready a \<longleftrightarrow> ac_type (au_config a) = Auth_oauth2 \<and> current_token a \<noteq> []"

lemma fetch_ready: "fetch_token J P now a = (r, a') \<Longrightarrow> oauth_ready a \<Longrightarrow> oauth_ready a'"
  using fetch_token_frame [of J P now a r a'] fetch_token_ok [of J P now a _ a'] fetch_token_err [of J P now a _ a']
  by (cases r) (auto simp: oauth_ready_def)

lemma get_token_ready: "get_token J P now now' a = (t, a') \<Longrightarrow> oauth_ready a \<Longrightarrow> oauth_ready a' \<and> t = current_token a'"
  using fetch_ready [of J P now' a]
  by (auto simp: get_token_def split: if_splits prod.splits Result.splits)

lemma auth_step_ready: "auth_step J a a' \<Longrightarrow> oauth_ready a \<Longrightarrow> oauth_ready a'"
proof (induction rule: auth_step.induct)
  case (as_apply P now now' hs a hs' a')
  then have "ac_type (au_config a) = Auth_oauth2" by (simp add: oauth_ready_def)
  with as_apply show ?case by (auto simp: apply_headers_def split: prod.splits dest: get_token_ready)
next
  case (as_header P now now' a h a')
  then have "ac_type (au_config a) = Auth_oauth2" by (simp add: oauth_ready_def)
  with as_header show ?case by (auto simp: get_auth_header_def split: prod.splits dest: get_token_ready)
next
  case (as_refresh P now a r a')
  then show ?case by (auto simp: refresh_token_def split: if_splits dest: fetch_ready)
qed

lemma auth_new_ready:
  "AuthProvider_new J P now cfg = Inr a \<Longrightarrow> ac_type cfg = Auth_oauth2 \<Longrightarrow> ac_token_endpoint cfg \<noteq> [] \<Longrightarrow> oauth_ready a"
  by (auto simp: AuthProvider_new_def oauth_ready_def Let_def split: prod.splits Result.splits
      dest: fetch_token_ok fetch_token_frame)

lemma get_token_current: "get_token J P now now' a = (t, a') \<Longrightarrow> t = current_token a'"
  by (auto simp: get_token_def split: if_splits prod.splits Result.splits)

lemma get_token_frame: "get_token J P now now' a = (t, a') \<Longrightarrow> au_config a' = au_config a"
  by (auto simp: get_token_def split: if_splits prod.splits Result.splits dest: fetch_token_frame)

lemma auth_step_config: "auth_step J a a' \<Longrightarrow> au_config a' = au_config a"
  by (induction rule: auth_step.induct)
    (auto simp: apply_headers_def get_auth_header_def refresh_token_def split: AuthType.splits prod.splits if_splits
      dest: get_token_frame fetch_token_frame)

lemma auth_steps_config: "(auth_step J)\<^sup>*\<^sup>* a a' \<Longrightarrow> au_config a' = au_config a"
  by (induction rule: rtranclp_induct) (simp_all add: auth_step_config)

text \<open>Without an endpoint there is nothing to ask for a token: if the empty host name does not resolve, no header is set.\<close>

lemma auth_no_endpoint:
  assumes "AuthProvider_new J P now cfg = Inr a" "ac_type cfg = Auth_oauth2" "ac_token_endpoint cfg = []" "t \<ge> 0"
    and "\<And>port. \<not> pn_resolve P' (up_host (parse_url [])) port"
  shows "fst (apply_headers J P' t t' hs a) = hs"
  using assms
  by (auto simp: AuthProvider_new_def apply_headers_def get_token_def fetch_token_def do_sync_post_def Let_def split: prod.splits)

text \<open>A server that grants a token with every request, and JSON read from a fixed reply.\<close>

definition json_reply :: "string \<Rightarrow> int \<Rightarrow> unit Auth_Json" where
  "json_reply token lifetime = \<lparr>aj_parse = (\<lambda>_. Inr ()), aj_value_string = (\<lambda>_ _ _. Inr token), aj_value_int = (\<lambda>_ _ _. Inr lifetime)\<rparr>"

definition net_reply :: "nat \<Rightarrow> Post_Net" where
  "net_reply status = \<lparr>pn_resolve = (\<lambda>_ _. True), pn_sni = (\<lambda>_. True), pn_connect = Io_ok, pn_handshake = Io_ok,
     pn_write = Io_ok, pn_read = (\<lambda>_. (Io_ok, status, []))\<rparr>"

definition oauth_config :: AuthConfig where
  "oauth_config = \<lparr>ac_type = Auth_oauth2, ac_api_key = [], ac_token = [], ac_client_id = ''id'', ac_client_secret = ''pw'',
     ac_token_endpoint = ''http://idp/token'', ac_cert_path = [], ac_key_path = [], ac_ca_path = []\<rparr>"

lemma oauth_new:
  "AuthProvider_new (json_reply ''tok'' 3600) (net_reply 200) 0 oauth_config
   = Inr \<lparr>au_config = oauth_config, current_token = ''tok'', token_expiry = seconds 3540, au_posts = 1\<rparr>"
  by (simp add: AuthProvider_new_def fetch_token_def store_token_def do_sync_post_def post_exchange_def
      net_reply_def json_reply_def oauth_config_def kExpiryMarginSec_def Let_def)

section \<open>Properties\<close>

text \<open>
  C19: An OAuth2 provider sends the bearer token it holds. Whatever its users call and however token requests fail, the header set for a request
  carries the token that is stored then, and the headers are left alone only if there is none. A provider that was constructed
  with a token endpoint always holds one; one without an endpoint is constructed without a token.
\<close>
theorem auth_always_bearer:
  assumes "AuthProvider_new J P now cfg = Inr a0" "ac_type cfg = Auth_oauth2"
    and "(auth_step J)\<^sup>*\<^sup>* a0 a" "apply_headers J P' t t' hs a = (hs', a')"
  shows "(current_token a' \<noteq> [] \<longrightarrow> map_of hs' ''Authorization'' = Some (''Bearer '' @ current_token a'))
    \<and> (current_token a' = [] \<longrightarrow> hs' = hs)
    \<and> (ac_token_endpoint cfg \<noteq> [] \<longrightarrow> current_token a' \<noteq> [])
    \<and> (ac_token_endpoint cfg = [] \<longrightarrow> current_token a0 = [])"
proof -
  have "au_config a0 = cfg" using assms(1)
    by (auto simp: AuthProvider_new_def Let_def split: if_splits prod.splits Result.splits dest: fetch_token_frame)
  with assms(2,3) have o: "ac_type (au_config a) = Auth_oauth2" by (simp add: auth_steps_config)
  obtain tok where g: "get_token J P' t t' a = (tok, a')"
    and h: "hs' = (if tok \<noteq> [] then AList.update ''Authorization'' (''Bearer '' @ tok) hs else hs)"
    using assms(4) o by (auto simp: apply_headers_def split: prod.splits if_splits)
  have "tok = current_token a'" using g by (rule get_token_current)
  moreover have "current_token a' \<noteq> []" if "ac_token_endpoint cfg \<noteq> []"
  proof -
    from assms(3) auth_new_ready [OF assms(1,2) that] have "oauth_ready a"
      by (induction rule: rtranclp_induct) (auto dest: auth_step_ready)
    with get_token_ready [OF g] show ?thesis by (simp add: oauth_ready_def)
  qed
  moreover have "current_token a0 = []" if "ac_token_endpoint cfg = []" using assms(1) that by (auto simp: AuthProvider_new_def)
  ultimately show ?thesis using h by simp
qed

theorem auth_always_bearer_witness:
  "map_of (fst (apply_headers (json_reply ''tok'' 3600) (net_reply 500) (seconds 4000) (seconds 4001) []
     \<lparr>au_config = oauth_config, current_token = ''tok'', token_expiry = seconds 3540, au_posts = 1\<rparr>)) ''Authorization'' = Some ''Bearer tok''"
proof -
  let ?a = "\<lparr>au_config = oauth_config, current_token = ''tok'', token_expiry = seconds 3540, au_posts = 1\<rparr>"
  obtain hs' a' where r: "apply_headers (json_reply ''tok'' 3600) (net_reply 500) (seconds 4000) (seconds 4001) [] ?a = (hs', a')"
    by fastforce
  moreover have "current_token a' = ''tok''"
    using r by (auto simp: apply_headers_def get_token_def fetch_token_def do_sync_post_def post_exchange_def
        net_reply_def oauth_config_def seconds_def Let_def split: if_splits)
  ultimately show ?thesis using auth_always_bearer [OF oauth_new _ rtranclp.rtrancl_refl r]
    by (simp add: oauth_config_def)
qed

text \<open>
  The lifetime of a token. After a token request that succeeded at the time \<open>now\<close> with a lifetime of
  \<open>n\<close> seconds, the token is used without another request exactly until one minute before its end,
  and for one second at least.
\<close>
theorem token_lifetime:
  assumes "fetch_token J P now a = (ok b, a')" "ac_type (au_config a) = Auth_oauth2"
    and "\<And>j. aj_value_int J j ''expires_in'' kDefaultTokenExpirySec = Inr n"
  shows "(is_expired t a' \<longleftrightarrow> t \<ge> now + seconds (max (n - 60) 1))
    \<and> (t < now + seconds (max (n - 60) 1) \<longrightarrow> get_token J P' t t' a' = (current_token a', a'))"
proof -
  have "token_expiry a' = now + seconds (max (n - 60) 1)"
    using assms(1,3)
    by (auto simp: fetch_token_def store_token_def kExpiryMarginSec_def Let_def
        split: Result.splits prod.splits if_splits sum.splits)
  moreover have "ac_type (au_config a') = Auth_oauth2" using assms(2) fetch_token_frame [OF assms(1)] by simp
  ultimately show ?thesis by (simp add: is_expired_def get_token_def)
qed

theorem token_lifetime_witness:
  "\<exists>a'. fetch_token (json_reply ''tok'' 3600) (net_reply 200) 0 \<lparr>au_config = oauth_config, current_token = [], token_expiry = 0, au_posts = 0\<rparr> = (ok True, a')
     \<and> \<not> is_expired (seconds 3539) a' \<and> is_expired (seconds 3540) a'"
proof -
  let ?a = "\<lparr>au_config = oauth_config, current_token = [], token_expiry = 0, au_posts = 0\<rparr>"
  obtain a' where f: "fetch_token (json_reply ''tok'' 3600) (net_reply 200) 0 ?a = (ok True, a')"
    by (simp add: fetch_token_def store_token_def do_sync_post_def post_exchange_def net_reply_def json_reply_def Let_def)
  have j: "aj_value_int (json_reply ''tok'' 3600) j ''expires_in'' kDefaultTokenExpirySec = Inr 3600" for j
    by (simp add: json_reply_def)
  have "ac_type (au_config ?a) = Auth_oauth2" by (simp add: oauth_config_def)
  note l = token_lifetime [OF f this j]
  from l [of "seconds 3539"] l [of "seconds 3540"] f show ?thesis by (auto simp: seconds_def)
qed

end
