(* ===== verification/Http_Client.thy ===== *)
theory Http_Client
  imports Net_Protocol Url
begin

text \<open>
  The HTTP/1.1 client, \<open>core/net/http_client.cpp\<close>: building a message, a request on a fresh
  connection, reuse of the cached connection with its fallback, and the response handed to the
  caller. How resolving, connecting, the handshake, writing and reading end is an argument per connection
  used; error codes of Asio and Beast are told apart as their categories are. The callbacks of one
  request run one after another, so a request is a function; it gives the response the handler is
  called with, the connections the message was written to, and the client.
\<close>

section \<open>Messages\<close>

definition path_unreserved :: string where
  "path_unreserved = ''/@!$&'' @ [CHR 0x27] @ ''()*+,;=:?._-''"

definition path_plain :: "char \<Rightarrow> bool" where
  "path_plain c \<longleftrightarrow> isalnum c \<or> c \<in> set path_unreserved"

definition url_encode_path :: "string \<Rightarrow> string" where
  "url_encode_path raw = concat (map (\<lambda>c. if path_plain c then [c]
     else [CHR ''%'', hex_upper (of_char c div 16), hex_upper (of_char c mod 16)]) raw)"

definition method_is_idempotent :: "string \<Rightarrow> bool" where
  "method_is_idempotent m \<longleftrightarrow> m = ''GET'' \<or> m = ''HEAD'' \<or> m = ''PUT'' \<or> m = ''DELETE'' \<or> m = ''OPTIONS'' \<or> m = ''TRACE''"

definition format_host_header :: "string \<Rightarrow> u16 \<Rightarrow> bool \<Rightarrow> string" where
  "format_host_header host port use_tls =
     (let h = (if CHR '':'' \<in> set host then ''['' @ host @ '']'' else host)
      in if port \<noteq> (if use_tls then 443 else 80) then h @ '':'' @ nat_dec (unat port) else h)"

text \<open>\<open>fields.set(name, value)\<close>: field names compare without case.\<close>

definition set_field :: "string \<Rightarrow> string \<Rightarrow> (string \<times> string) list \<Rightarrow> (string \<times> string) list" where
  "set_field name val fs = filter (\<lambda>(n, v). map tolower n \<noteq> map tolower name) fs @ [(name, val)]"

record Http_Message =
  msg_method :: string
  msg_target :: string
  msg_fields :: "(string \<times> string) list"
  msg_body :: string

definition safe_target :: "string \<Rightarrow> string" where
  "safe_target path = url_encode_path (filter (\<lambda>c. c \<noteq> CHR 0x0D \<and> c \<noteq> CHR 0x0A) path)"

text \<open>\<open>known_verb\<close> is the test of \<open>http::string_to_verb\<close>.\<close>

definition build_request :: "(string \<Rightarrow> bool) \<Rightarrow> NetRequest \<Rightarrow> Http_Message option" where
  "build_request known_verb req =
     (if \<not> known_verb (nr_method req) then None
      else let fs = set_field ''User-Agent'' ''volley/1.1.0'' (set_field ''Host'' (format_host_header (nr_host req) (nr_port req) (nr_use_tls req)) []);
               fs = (if nr_body req \<noteq> [] then set_field ''Content-Length'' (nat_dec (length (nr_body req))) fs else fs);
               fs = fold (\<lambda>(k, v). set_field k v) (nr_headers req) fs
           in Some \<lparr>msg_method = nr_method req, msg_target = safe_target (nr_path req), msg_fields = fs, msg_body = nr_body req\<rparr>)"

section \<open>The network\<close>

datatype Ec = Ec_none | Ec_host_not_found | Ec_asio_timed_out | Ec_beast_timeout | Ec_end_of_stream | Ec_aborted | Ec_other

record Http_Res =
  res_status :: nat
  res_body :: string
  res_fields :: "(string \<times> string) list"

record Fresh_Net =
  fn_resolve :: Ec
  fn_connect :: Ec
  fn_sni :: bool
  fn_handshake :: Ec
  fn_write :: Ec
  fn_read :: Ec
  fn_res :: Http_Res
  fn_now :: int
  fn_conn :: nat

record Cached_Net =
  cn_peek_dead :: bool
  cn_write :: Ec
  cn_read :: Ec
  cn_res :: Http_Res
  cn_now :: int

section \<open>The client\<close>

record ReusableConn =
  rc_host :: string
  rc_port :: u16
  rc_tls :: bool
  rc_conn :: nat

record HttpClient =
  hc_timeout_ms :: int
  hc_keep_alive :: bool
  hc_max_body_bytes :: nat
  hc_tls_ctx :: bool
  hc_cached :: "ReusableConn option"

definition kDefaultMaxBodyBytes :: nat where "kDefaultMaxBodyBytes = 100 * 1024 * 1024"
definition kDefaultTimeout :: int where "kDefaultTimeout = 5000"

definition Http11Client_new :: "bool \<Rightarrow> HttpClient" where
  "Http11Client_new keep_alive = \<lparr>hc_timeout_ms = kDefaultTimeout, hc_keep_alive = keep_alive,
     hc_max_body_bytes = kDefaultMaxBodyBytes, hc_tls_ctx = True, hc_cached = None\<rparr>"

definition hc_set_timeout :: "int \<Rightarrow> HttpClient \<Rightarrow> HttpClient" where
  "hc_set_timeout ms c = c\<lparr>hc_timeout_ms := ms\<rparr>"

definition hc_set_keep_alive :: "bool \<Rightarrow> HttpClient \<Rightarrow> HttpClient" where
  "hc_set_keep_alive k c = (let c = c\<lparr>hc_keep_alive := k\<rparr> in if \<not> k then c\<lparr>hc_cached := None\<rparr> else c)"

definition hc_set_max_body_bytes :: "nat \<Rightarrow> HttpClient \<Rightarrow> HttpClient" where
  "hc_set_max_body_bytes n c = c\<lparr>hc_max_body_bytes := (if n > 0 then n else kDefaultMaxBodyBytes)\<rparr>"

definition body_cap :: "HttpClient \<Rightarrow> nat" where
  "body_cap c = (if hc_max_body_bytes c = 0 then kDefaultMaxBodyBytes else hc_max_body_bytes c)"

definition copy_body_capped :: "nat \<Rightarrow> string \<Rightarrow> NetResponse \<Rightarrow> NetResponse" where
  "copy_body_capped cap src r =
     (if length src > cap then r\<lparr>ns_body := take cap src, ns_body_truncated := True\<rparr> else r\<lparr>ns_body := src\<rparr>)"

definition populate_response :: "HttpClient \<Rightarrow> Http_Res \<Rightarrow> Ec \<Rightarrow> int \<Rightarrow> int \<Rightarrow> NetResponse \<Rightarrow> NetResponse" where
  "populate_response c res ec start_time end_time r =
     (let r = r\<lparr>ns_latency := micros (end_time - start_time)\<rparr>;
          fill = (\<lambda>r. copy_body_capped (body_cap c) (res_body res)
            (r\<lparr>ns_status_code := of_nat (res_status res), ns_headers := fold (\<lambda>(k, v). AList.update k v) (res_fields res) (ns_headers r)\<rparr>))
      in if ec \<noteq> Ec_none then (if ec = Ec_end_of_stream then fill r else r\<lparr>ns_ec := Some read_error\<rparr>) else fill r)"

definition drop_cached :: "ReusableConn \<Rightarrow> HttpClient \<Rightarrow> HttpClient" where
  "drop_cached conn c = (if hc_cached c = Some conn then c\<lparr>hc_cached := None\<rparr> else c)"

definition cache_connection :: "nat \<Rightarrow> string \<Rightarrow> u16 \<Rightarrow> bool \<Rightarrow> HttpClient \<Rightarrow> HttpClient" where
  "cache_connection conn host port tls c = c\<lparr>hc_cached := Some \<lparr>rc_host = host, rc_port = port, rc_tls = tls, rc_conn = conn\<rparr>\<rparr>"

text \<open>What a request did: the response handed over, the connections written to, and the client.\<close>

datatype Via = Via_cached | Via_fresh

type_synonym http_end = "NetResponse \<times> Via list \<times> HttpClient"

definition hand_over :: "Err \<Rightarrow> Via list \<Rightarrow> HttpClient \<Rightarrow> http_end" where
  "hand_over e via c = (NetResponse_default\<lparr>ns_ec := Some e\<rparr>, via, c)"

text \<open>Writing and reading on a connection that was just opened; the same on TCP and TLS.\<close>

definition send_and_receive :: "Fresh_Net \<Rightarrow> NetRequest \<Rightarrow> int \<Rightarrow> Via list \<Rightarrow> HttpClient \<Rightarrow> http_end" where
  "send_and_receive N req start_time via c =
     (let via = via @ [Via_fresh]
      in if fn_write N \<noteq> Ec_none then hand_over write_error via c
         else let r = populate_response c (fn_res N) (fn_read N) start_time (fn_now N) NetResponse_default;
                  c = (if hc_keep_alive c \<and> fn_read N = Ec_none
                       then cache_connection (fn_conn N) (nr_host req) (nr_port req) (nr_use_tls req) c else c)
              in (r, via, c))"

definition connect_error :: "Ec \<Rightarrow> Err" where
  "connect_error ec = (if ec = Ec_asio_timed_out then connection_timeout else connection_refused)"

definition connect_tcp :: "Fresh_Net \<Rightarrow> NetRequest \<Rightarrow> int \<Rightarrow> Via list \<Rightarrow> HttpClient \<Rightarrow> http_end" where
  "connect_tcp N req start_time via c =
     (if fn_connect N \<noteq> Ec_none then hand_over (connect_error (fn_connect N)) via c
      else send_and_receive N req start_time via c)"

definition connect_tls :: "Fresh_Net \<Rightarrow> NetRequest \<Rightarrow> int \<Rightarrow> Via list \<Rightarrow> HttpClient \<Rightarrow> http_end" where
  "connect_tls N req start_time via c =
     (if fn_connect N \<noteq> Ec_none then hand_over (connect_error (fn_connect N)) via c
      else if \<not> host_is_ip_literal (nr_host req) \<and> \<not> fn_sni N then hand_over tls_handshake_failed via c
      else if fn_handshake N \<noteq> Ec_none then hand_over tls_handshake_failed via c
      else send_and_receive N req start_time via c)"

definition request_fresh :: "(string \<Rightarrow> bool) \<Rightarrow> Fresh_Net \<Rightarrow> NetRequest \<Rightarrow> int \<Rightarrow> Via list \<Rightarrow> HttpClient \<Rightarrow> http_end" where
  "request_fresh known_verb N req start_time via c = (case build_request known_verb req of
     None \<Rightarrow> hand_over invalid_method via c
   | Some msg \<Rightarrow>
       if fn_resolve N \<noteq> Ec_none
       then hand_over (if fn_resolve N = Ec_host_not_found then dns_failure else connection_refused) via c
       else if nr_use_tls req then connect_tls N req start_time via c
       else connect_tcp N req start_time via c)"

text \<open>Writing and reading on the cached connection; the code has it twice, for TCP and TLS.\<close>

definition write_read_cached ::
  "(string \<Rightarrow> bool) \<Rightarrow> Cached_Net \<Rightarrow> Fresh_Net \<Rightarrow> ReusableConn \<Rightarrow> NetRequest \<Rightarrow> int \<Rightarrow> HttpClient \<Rightarrow> http_end" where
  "write_read_cached known_verb C N conn req start_time c =
     (let via = [Via_cached]
      in if cn_write C \<noteq> Ec_none then
           (let c = drop_cached conn c
            in if method_is_idempotent (nr_method req) then request_fresh known_verb N req start_time via c
               else hand_over write_error via c)
         else let r = populate_response c (cn_res C) (cn_read C) start_time (cn_now C) NetResponse_default
              in if cn_read C \<noteq> Ec_none then
                   (let c' = drop_cached conn c
                    in if cn_read C \<noteq> Ec_asio_timed_out \<and> ns_status_code r = 0 \<and> method_is_idempotent (nr_method req)
                       then request_fresh known_verb N req start_time via c'
                       else (r, via, c'))
                 else (r, via, c))"

definition request_on_cached ::
  "(string \<Rightarrow> bool) \<Rightarrow> Cached_Net \<Rightarrow> Fresh_Net \<Rightarrow> ReusableConn \<Rightarrow> NetRequest \<Rightarrow> int \<Rightarrow> HttpClient \<Rightarrow> http_end" where
  "request_on_cached known_verb C N conn req start_time c = (case build_request known_verb req of
     None \<Rightarrow> hand_over invalid_method [] c
   | Some msg \<Rightarrow>
       if cn_peek_dead C then request_fresh known_verb N req start_time [] (drop_cached conn c)
       else write_read_cached known_verb C N conn req start_time c)"

definition async_request :: "(string \<Rightarrow> bool) \<Rightarrow> Cached_Net \<Rightarrow> Fresh_Net \<Rightarrow> NetRequest \<Rightarrow> int \<Rightarrow> HttpClient \<Rightarrow> http_end" where
  "async_request known_verb C N req start_time c =
     (if nr_use_tls req \<and> \<not> hc_tls_ctx c then hand_over tls_verify_failed [] c
      else case hc_cached c of
        Some conn \<Rightarrow>
          if hc_keep_alive c \<and> rc_host conn = nr_host req \<and> rc_port conn = nr_port req \<and> rc_tls conn = nr_use_tls req
          then request_on_cached known_verb C N conn req start_time c
          else request_fresh known_verb N req start_time [] c
      | None \<Rightarrow> request_fresh known_verb N req start_time [] c)"

section \<open>Facts\<close>

lemmas fresh_defs = request_fresh_def connect_tls_def connect_tcp_def send_and_receive_def hand_over_def

lemma fresh_via: "request_fresh kv N req t via c = (r, via', c') \<Longrightarrow> via' = via \<or> via' = via @ [Via_fresh]"
  by (auto simp: fresh_defs Let_def split: option.splits if_splits)

definition response_ok :: "nat \<Rightarrow> NetResponse \<Rightarrow> bool" where
  "response_ok cap r \<longleftrightarrow> (ns_ec r \<noteq> None \<longrightarrow> ns_status_code r = 0 \<and> ns_body r = []) \<and> length (ns_body r) \<le> cap
     \<and> (ns_body_truncated r \<longrightarrow> length (ns_body r) = cap)"

lemma populate_ok: "response_ok (body_cap c) (populate_response c res ec t t' NetResponse_default)"
  by (auto simp: populate_response_def copy_body_capped_def response_ok_def NetResponse_default_def Let_def)

lemma error_ok: "response_ok cap (NetResponse_default\<lparr>ns_ec := Some e\<rparr>)"
  by (simp add: response_ok_def NetResponse_default_def)

lemma fresh_ok: "request_fresh kv N req t via c = (r, via', c') \<Longrightarrow> response_ok (body_cap c) r"
  using populate_ok [of c "fn_res N" "fn_read N" t "fn_now N"]
  by (auto simp: fresh_defs Let_def error_ok split: option.splits if_splits)

lemma body_cap_drop [simp]: "body_cap (drop_cached conn c) = body_cap c"
  by (simp add: drop_cached_def body_cap_def)

lemma cached_ok: "write_read_cached kv C N conn req t c = (r, via', c') \<Longrightarrow> response_ok (body_cap c) r"
  using populate_ok [of c "cn_res C" "cn_read C" t "cn_now C"]
  by (auto simp: write_read_cached_def hand_over_def Let_def error_ok split: if_splits dest: fresh_ok)

lemma on_cached_ok: "request_on_cached kv C N conn req t c = (r, via', c') \<Longrightarrow> response_ok (body_cap c) r"
  by (auto simp: request_on_cached_def hand_over_def error_ok split: option.splits if_splits dest: fresh_ok cached_ok)

lemma on_cached_via:
  "request_on_cached kv C N conn req t c = (r, via, c') \<Longrightarrow>
     via = [] \<or> via = [Via_fresh] \<or> via = [Via_cached] \<or> (via = [Via_cached, Via_fresh] \<and> method_is_idempotent (nr_method req))"
  by (auto simp: request_on_cached_def write_read_cached_def hand_over_def Let_def split: option.splits if_splits
      dest!: fresh_via)

definition visible :: "char \<Rightarrow> bool" where
  "visible c \<longleftrightarrow> 33 \<le> (of_char c :: nat) \<and> (of_char c :: nat) \<le> 126"

lemma visible_plain: "path_plain c \<Longrightarrow> visible c"
proof -
  assume a: "path_plain c"
  have s: "list_all visible path_unreserved" by code_simp
  show ?thesis
  proof (cases "isalnum c")
    case True
    then show ?thesis by (auto simp: visible_def isalnum_def isalpha_def isupper_def islower_def isdigit_def)
  next
    case False
    with a have "c \<in> set path_unreserved" by (simp add: path_plain_def)
    with s show ?thesis by (simp only: list_all_iff)
  qed
qed

lemma visible_hex: "d < 16 \<Longrightarrow> visible (hex_upper d)"
  by (auto simp: visible_def hex_upper_def)

lemma encode_path_Cons:
  "url_encode_path (x # s) = (if path_plain x then [x] else [CHR ''%'', hex_upper (of_char x div 16), hex_upper (of_char x mod 16)]) @ url_encode_path s"
  by (simp add: url_encode_path_def)

lemma encode_path_visible: "list_all visible (url_encode_path s)"
proof (induction s)
  case (Cons x s)
  have "visible (hex_upper (of_char x div 16))" "visible (hex_upper (of_char x mod 16))"
    using of_char_div16 [of x] by (auto intro: visible_hex)
  moreover have "visible (CHR ''%'')" by (simp add: visible_def)
  ultimately show ?case using Cons visible_plain [of x] by (simp add: encode_path_Cons)
qed (simp add: url_encode_path_def)

lemma plain_no_break: "path_plain c \<Longrightarrow> c \<noteq> CHR 0x0D \<and> c \<noteq> CHR 0x0A"
  using visible_plain [of c] by (auto simp: visible_def)

section \<open>Properties\<close>

text \<open>
  C16: Retries of the HTTP client. Whatever the network does, the message is written at most twice, and a
  second time only after the cached connection failed, on a fresh connection, and only for a
  method that is idempotent: a POST or PATCH is never sent twice.
\<close>
theorem http_retry_safe:
  assumes "async_request known_verb C N req start_time c = (r, via, c')"
  shows "via = [] \<or> via = [Via_fresh] \<or> via = [Via_cached] \<or> (via = [Via_cached, Via_fresh] \<and> method_is_idempotent (nr_method req))"
  using assms
  by (auto simp: async_request_def hand_over_def split: option.splits if_splits dest!: on_cached_via fresh_via)

definition net_ok :: Fresh_Net where
  "net_ok = \<lparr>fn_resolve = Ec_none, fn_connect = Ec_none, fn_sni = True, fn_handshake = Ec_none, fn_write = Ec_none, fn_read = Ec_none,
     fn_res = \<lparr>res_status = 200, res_body = ''hello'', res_fields = []\<rparr>, fn_now = 3000, fn_conn = 1\<rparr>"

definition net_closed :: Cached_Net where
  "net_closed = \<lparr>cn_peek_dead = False, cn_write = Ec_none, cn_read = Ec_end_of_stream,
     cn_res = \<lparr>res_status = 200, res_body = [], res_fields = []\<rparr>, cn_now = 2000\<rparr>"

definition client_reusing :: HttpClient where
  "client_reusing = (Http11Client_new True)\<lparr>hc_cached := Some \<lparr>rc_host = ''h'', rc_port = 80, rc_tls = False, rc_conn = 0\<rparr>\<rparr>"

definition get_request :: NetRequest where
  "get_request = NetRequest_default\<lparr>nr_host := ''h''\<rparr>"

theorem http_retry_safe_witness:
  "\<exists>r c'. async_request (\<lambda>_. True) (net_closed\<lparr>cn_read := Ec_other\<rparr>) net_ok get_request 0 client_reusing = (r, [Via_cached, Via_fresh], c')
     \<and> method_is_idempotent (nr_method get_request)"
proof -
  obtain r via c' where a: "async_request (\<lambda>_. True) (net_closed\<lparr>cn_read := Ec_other\<rparr>) net_ok get_request 0 client_reusing = (r, via, c')"
    by (metis prod_cases3)
  moreover have "via = [Via_cached, Via_fresh]"
    using a by (auto simp: async_request_def client_reusing_def Http11Client_new_def get_request_def NetRequest_default_def
        request_on_cached_def build_request_def net_closed_def write_read_cached_def populate_response_def NetResponse_default_def
        method_is_idempotent_def fresh_defs net_ok_def Let_def)
  moreover from http_retry_safe [OF a] this have "method_is_idempotent (nr_method get_request)" by simp
  ultimately show ?thesis by blast
qed

text \<open>
  What the handler receives. A response with an error has status 0 and no body; the body is never
  longer than the limit set for the client, and when it was cut it is exactly as long.
\<close>
theorem http_response_bounded:
  assumes "async_request known_verb C N req start_time c = (r, via, c')"
  shows "(ns_ec r \<noteq> None \<longrightarrow> ns_status_code r = 0 \<and> ns_body r = []) \<and> length (ns_body r) \<le> body_cap c
    \<and> (ns_body_truncated r \<longrightarrow> length (ns_body r) = body_cap c)"
proof -
  have "response_ok (body_cap c) r"
    using assms by (auto simp: async_request_def hand_over_def error_ok split: option.splits if_splits dest: on_cached_ok fresh_ok)
  then show ?thesis unfolding response_ok_def .
qed

theorem http_response_bounded_witness:
  "length (ns_body (fst (async_request (\<lambda>_. True) net_closed net_ok get_request 0 (hc_set_max_body_bytes 3 (Http11Client_new False))))) \<le> 3"
proof -
  obtain r via c' where a: "async_request (\<lambda>_. True) net_closed net_ok get_request 0 (hc_set_max_body_bytes 3 (Http11Client_new False)) = (r, via, c')"
    by (metis prod_cases3)
  moreover have "body_cap (hc_set_max_body_bytes 3 (Http11Client_new False)) = 3"
    by (simp add: body_cap_def hc_set_max_body_bytes_def Http11Client_new_def)
  ultimately show ?thesis using http_response_bounded [OF a] by simp
qed

text \<open>
  A connection closed before the answer counts as a success. When the server closes the reused connection and Beast
  reports the end of the stream, the message that was being read still has its initial status 200; the handler receives this status without
  an error, and the request is not sent again.
\<close>
theorem eof_counts_as_success:
  assumes "known_verb (nr_method req)" "\<not> (nr_use_tls req \<and> \<not> hc_tls_ctx c)" "hc_keep_alive c"
    and "hc_cached c = Some \<lparr>rc_host = nr_host req, rc_port = nr_port req, rc_tls = nr_use_tls req, rc_conn = k\<rparr>"
    and "\<not> cn_peek_dead C" "cn_write C = Ec_none" "cn_read C = Ec_end_of_stream"
    and "cn_res C = \<lparr>res_status = 200, res_body = [], res_fields = []\<rparr>"
  shows "\<exists>r. async_request known_verb C N req start_time c = (r, [Via_cached], c\<lparr>hc_cached := None\<rparr>)
    \<and> ns_ec r = None \<and> ns_status_code r = 200"
  using assms
  by (auto simp: async_request_def request_on_cached_def build_request_def write_read_cached_def populate_response_def
      copy_body_capped_def NetResponse_default_def drop_cached_def Let_def)

theorem eof_counts_as_success_witness:
  "\<exists>r. async_request (\<lambda>_. True) net_closed net_ok get_request 0 client_reusing = (r, [Via_cached], client_reusing\<lparr>hc_cached := None\<rparr>)
     \<and> ns_ec r = None \<and> ns_status_code r = 200"
  by (rule eof_counts_as_success [where k = 0])
    (simp_all add: net_closed_def get_request_def client_reusing_def Http11Client_new_def NetRequest_default_def)

text \<open>
  The target of a message has only visible ASCII characters, so that no path can end the request
  line; a path of plain characters is sent unchanged. A percent sign is not plain, so a path that is
  already encoded is encoded again.
\<close>
theorem http_target_safe:
  "list_all visible (safe_target path)
   \<and> (list_all path_plain path \<longrightarrow> safe_target path = path)"
proof -
  have "list_all path_plain path \<Longrightarrow> filter (\<lambda>c. c \<noteq> CHR 0x0D \<and> c \<noteq> CHR 0x0A) path = path"
    using plain_no_break by (auto simp: list_all_iff filter_id_conv)
  moreover have "list_all path_plain s \<Longrightarrow> url_encode_path s = s" for s
    by (induction s) (simp_all add: url_encode_path_def)
  ultimately show ?thesis using encode_path_visible by (simp add: safe_target_def)
qed

end
