(* ===== verification/Otlp_Tracer.thy ===== *)
theory Otlp_Tracer
  imports Auth_Provider "HOL-Library.Sublist"
begin

text \<open>
  The tracer and its exporter thread, \<open>core/otel/otlp_exporter.cpp\<close>. The current span and the queue of completed spans have a mutex
  each; the critical sections are the steps that threads interleave, and a span that
  has ended but is not queued yet is pending. Clock readings, random digits and sampling draws are
  arguments, as are the outcomes of posting a batch and the JSON library.
\<close>

section \<open>The tracer\<close>

record TraceConfig =
  tc_endpoint :: string
  tc_sample_rate :: rat
  tc_service_name :: string
  tc_service_version :: string

record SpanData =
  sp_name :: string
  sp_trace_id :: string
  sp_span_id :: string
  sp_parent_span_id :: string
  sp_start_time :: int
  sp_end_time :: int
  sp_attributes :: "(string \<times> string) list"
  sp_ended :: bool

record Tracer =
  tr_config :: TraceConfig
  tr_span_name :: string
  tr_attributes :: "(string \<times> string) list"
  tr_span_active :: bool
  tr_trace_id :: string
  tr_current_span_id :: string
  tr_parent_span_id :: string
  tr_last_span_id :: string
  tr_span_start :: int
  tr_completed_spans :: "SpanData list"
  tr_stop :: bool
  tr_endpoint_host :: string
  tr_endpoint_port :: string
  tr_endpoint_target :: string
  tr_backoff :: int

definition kOtlpBatchSize :: nat where "kOtlpBatchSize = 64"
definition kOtlpMaxBufferedSpans :: nat where "kOtlpMaxBufferedSpans = 4096"
definition kMaxBackoff :: int where "kMaxBackoff = 5000"

definition random_hex :: "nat list \<Rightarrow> string" where
  "random_hex draws = map digit_char draws"

definition parse_endpoint :: "Tracer \<Rightarrow> Tracer" where
  "parse_endpoint t =
     (if tc_endpoint (tr_config t) = [] then t\<lparr>tr_endpoint_host := [], tr_endpoint_port := [], tr_endpoint_target := []\<rparr>
      else let parts = parse_url (tc_endpoint (tr_config t))
           in t\<lparr>tr_endpoint_host := up_host parts,
                tr_endpoint_port := (if up_port parts = [] then ''4318'' else up_port parts),
                tr_endpoint_target := (if up_path parts = ''/'' \<or> up_path parts = [] then ''/v1/traces'' else up_path parts)\<rparr>)"

definition Tracer_new :: "TraceConfig \<Rightarrow> nat list \<Rightarrow> Tracer" where
  "Tracer_new cfg draws = parse_endpoint \<lparr>tr_config = cfg, tr_span_name = [], tr_attributes = [], tr_span_active = False,
     tr_trace_id = random_hex draws, tr_current_span_id = [], tr_parent_span_id = [], tr_last_span_id = [], tr_span_start = 0,
     tr_completed_spans = [], tr_stop = False, tr_endpoint_host = [], tr_endpoint_port = [], tr_endpoint_target = [], tr_backoff = 200\<rparr>"

text \<open>The span that is open, ended at \<open>now\<close>, and the tracer without it.\<close>

definition close_span :: "int \<Rightarrow> Tracer \<Rightarrow> SpanData \<times> Tracer" where
  "close_span now t =
     (\<lparr>sp_name = tr_span_name t, sp_trace_id = tr_trace_id t, sp_span_id = tr_current_span_id t,
       sp_parent_span_id = tr_parent_span_id t, sp_start_time = tr_span_start t, sp_end_time = now, sp_attributes = tr_attributes t, sp_ended = False\<rparr>,
      t\<lparr>tr_last_span_id := tr_current_span_id t, tr_attributes := [], tr_span_active := False\<rparr>)"

text \<open>\<open>draw\<close> is the number of the uniform distribution on the unit interval.\<close>

definition should_sample_span :: "rat \<Rightarrow> Tracer \<Rightarrow> bool" where
  "should_sample_span draw t \<longleftrightarrow> draw \<le> tc_sample_rate (tr_config t)"

text \<open>The critical section of \<open>start_span\<close>; the span it gives is queued afterwards.\<close>

definition start_span :: "string \<Rightarrow> int \<Rightarrow> int \<Rightarrow> nat list \<Rightarrow> rat \<Rightarrow> Tracer \<Rightarrow> SpanData option \<times> Tracer" where
  "start_span name now now' draws draw t =
     (let (pushed, t) =
            (if tr_span_active t then
               (let (sp, t) = close_span now t
                in (if tc_sample_rate (tr_config t) \<ge> 1 \<or> should_sample_span draw t then Some sp else None, t))
             else (None, t));
          t = t\<lparr>tr_span_name := name, tr_span_active := True, tr_span_start := now', tr_current_span_id := random_hex draws,
                tr_parent_span_id := tr_last_span_id t,
                tr_attributes := AList.update ''service.version'' (tc_service_version (tr_config t))
                  (AList.update ''service.name'' (tc_service_name (tr_config t)) (tr_attributes t))\<rparr>
      in (pushed, t))"

definition end_span :: "int \<Rightarrow> rat \<Rightarrow> Tracer \<Rightarrow> SpanData option \<times> Tracer" where
  "end_span now draw t =
     (if \<not> tr_span_active t then (None, t)
      else let (sp, t) = close_span now t
           in (if tc_sample_rate (tr_config t) < 1 \<and> \<not> should_sample_span draw t then None else Some sp, t))"

definition add_attribute :: "string \<Rightarrow> string \<Rightarrow> Tracer \<Rightarrow> Tracer" where
  "add_attribute key val t = t\<lparr>tr_attributes := AList.update key val (tr_attributes t)\<rparr>"

text \<open>The flag says whether the exporter is woken.\<close>

definition enqueue :: "SpanData \<Rightarrow> Tracer \<Rightarrow> bool \<times> Tracer" where
  "enqueue sp t =
     (let q = tr_completed_spans t @ [sp];
          q = (if length q > kOtlpMaxBufferedSpans then drop (length q - kOtlpMaxBufferedSpans) q else q)
      in (length q \<ge> kOtlpBatchSize, t\<lparr>tr_completed_spans := q\<rparr>))"

text \<open>The critical section of the exporter: the batch, or the end of its loop.\<close>

definition export_take :: "Tracer \<Rightarrow> (SpanData list \<times> Tracer) option" where
  "export_take t =
     (if tr_stop t \<and> tr_completed_spans t = [] then None
      else let n = min kOtlpBatchSize (length (tr_completed_spans t))
           in Some (take n (tr_completed_spans t), t\<lparr>tr_completed_spans := drop n (tr_completed_spans t)\<rparr>))"

text \<open>The rest of the exporter's pass, where \<open>good\<close> is the result of \<open>do_export\<close>.\<close>

definition export_done :: "bool \<Rightarrow> Tracer \<Rightarrow> Tracer" where
  "export_done good t =
     (if tr_endpoint_host t = [] then t
      else if good then t\<lparr>tr_backoff := 200\<rparr> else t\<lparr>tr_backoff := min (tr_backoff t * 2) kMaxBackoff\<rparr>)"

definition flush_spans :: "Tracer \<Rightarrow> SpanData list \<times> Tracer" where
  "flush_spans t = (tr_completed_spans t, t\<lparr>tr_completed_spans := []\<rparr>)"

section \<open>Exporting a batch\<close>

text \<open>\<open>oj_init\<close> is what the JSON library makes of a braced list; \<open>oj_set\<close> and \<open>oj_array\<close> build objects and arrays.\<close>

record 'j Otlp_Json =
  oj_str :: "string \<Rightarrow> 'j"
  oj_int :: "int \<Rightarrow> 'j"
  oj_init :: "'j list \<Rightarrow> 'j"
  oj_array :: "'j list \<Rightarrow> 'j"
  oj_object :: "(string \<times> 'j) list \<Rightarrow> 'j"
  oj_dump :: "'j \<Rightarrow> cpp_exn + string"

definition attribute_json :: "'j Otlp_Json \<Rightarrow> string \<times> string \<Rightarrow> 'j" where
  "attribute_json J kv = oj_init J [oj_init J [oj_str J ''key'', oj_str J (fst kv)],
     oj_init J [oj_str J ''value'', oj_init J [oj_str J ''stringValue'', oj_str J (snd kv)]]]"

definition span_json :: "'j Otlp_Json \<Rightarrow> SpanData \<Rightarrow> 'j" where
  "span_json J sp = oj_object J
     ([(''traceId'', oj_str J (sp_trace_id sp)), (''spanId'', oj_str J (sp_span_id sp))]
      @ (if sp_parent_span_id sp \<noteq> [] then [(''parentSpanId'', oj_str J (sp_parent_span_id sp))] else [])
      @ [(''name'', oj_str J (sp_name sp)), (''kind'', oj_int J 2),
         (''startTimeUnixNano'', oj_str J (int_dec (sp_start_time sp))), (''endTimeUnixNano'', oj_str J (int_dec (sp_end_time sp)))]
      @ (if sp_attributes sp \<noteq> [] then [(''attributes'', oj_array J (map (attribute_json J) (sp_attributes sp)))] else [])
      @ [(''status'', oj_object J [(''code'', oj_int J 1)])])"

definition export_payload :: "'j Otlp_Json \<Rightarrow> TraceConfig \<Rightarrow> SpanData list \<Rightarrow> 'j" where
  "export_payload J cfg spans =
     (let resource_spans = oj_object J
            [(''resource'', oj_object J [(''attributes'', oj_array J
                [attribute_json J (''service.name'', tc_service_name cfg), attribute_json J (''service.version'', tc_service_version cfg)])]),
             (''scopeSpans'', oj_array J [oj_object J
                [(''scope'', oj_object J [(''name'', oj_str J ''volley''), (''version'', oj_str J ''1.1.0'')]),
                 (''spans'', oj_array J (map (span_json J) spans))]])]
      in oj_object J [(''resourceSpans'', oj_array J [resource_spans])])"

definition otlp_message :: "string \<Rightarrow> string \<Rightarrow> string \<Rightarrow> HttpMsg" where
  "otlp_message host target body = \<lparr>hm_method = ''POST'', hm_target = target,
     hm_headers = [(''Host'', host), (''User-Agent'', kUserAgent), (''Content-Type'', ''application/json''),
       (''Content-Length'', nat_dec (length body))], hm_body = body\<rparr>"

text \<open>The status of the answer is not looked at. Printing the document can throw.\<close>

definition do_post_json :: "Post_Net \<Rightarrow> string \<Rightarrow> string \<Rightarrow> string \<Rightarrow> cpp_exn + string \<Rightarrow> cpp_exn + bool" where
  "do_post_json P host port target body =
     (if \<not> pn_resolve P host port then Inr False
      else if pn_connect P \<noteq> Io_ok then Inr False
      else case body of Inl e \<Rightarrow> Inl e
        | Inr body_str \<Rightarrow>
            if pn_write P \<noteq> Io_ok then Inr False
            else Inr (fst (pn_read P (otlp_message host target body_str)) \<in> {Io_ok, Io_eof}))"

definition do_export :: "'j Otlp_Json \<Rightarrow> Post_Net \<Rightarrow> Tracer \<Rightarrow> SpanData list \<Rightarrow> cpp_exn + bool" where
  "do_export J P t spans =
     (if spans = [] \<or> tr_endpoint_host t = [] then Inr True
      else do_post_json P (tr_endpoint_host t) (tr_endpoint_port t) (tr_endpoint_target t)
        (oj_dump J (export_payload J (tr_config t) spans)))"

section \<open>The exporter's loop after the stop\<close>

text \<open>
  Once the stop flag is set no pass waits. Each pass uses up one network outcome, so that \<open>None\<close> says
  the loop runs on after the outcomes given; an exception ends the loop and, in its thread, the program.
\<close>

fun export_loop :: "'j Otlp_Json \<Rightarrow> Post_Net list \<Rightarrow> Tracer \<Rightarrow> (cpp_exn + SpanData list list \<times> Tracer) option" where
  "export_loop J Ps t = (case export_take t of
     None \<Rightarrow> Some (Inr ([], t))
   | Some (b, t) \<Rightarrow>
       (case Ps of [] \<Rightarrow> None
        | P # Ps \<Rightarrow>
            (case do_export J P t b of
               Inl e \<Rightarrow> Some (Inl e)
             | Inr good \<Rightarrow>
                 (case export_loop J Ps (export_done good t) of
                    Some (Inr (bs, t)) \<Rightarrow> Some (Inr (b # bs, t))
                  | r \<Rightarrow> r))))"

declare export_loop.simps [simp del]

section \<open>Threads\<close>

datatype Exporter = Exp_waiting | Exp_batch "SpanData list" | Exp_draining | Exp_gone

record Trace_Sys =
  ts_tracer :: Tracer
  ts_pending :: "SpanData list"
  ts_exporter :: Exporter
  ts_queued :: "SpanData list"
  ts_taken :: "SpanData list"

text \<open>
  \<open>ts_queued\<close> and \<open>ts_taken\<close> are the history: the spans queued, and those taken out for export, in
  order. \<open>tr_flushed\<close> is the flush of the destructor, after the exporter's thread has been joined.
\<close>

inductive trace_step :: "'j Otlp_Json \<Rightarrow> Trace_Sys \<Rightarrow> Trace_Sys \<Rightarrow> bool" for J :: "'j Otlp_Json" where
  tr_started: "start_span name now now' draws draw (ts_tracer s) = (r, t) \<Longrightarrow>
     trace_step J s (s\<lparr>ts_tracer := t, ts_pending := ts_pending s @ (case r of Some sp \<Rightarrow> [sp] | None \<Rightarrow> [])\<rparr>)"
| tr_ended: "end_span now draw (ts_tracer s) = (r, t) \<Longrightarrow>
     trace_step J s (s\<lparr>ts_tracer := t, ts_pending := ts_pending s @ (case r of Some sp \<Rightarrow> [sp] | None \<Rightarrow> [])\<rparr>)"
| tr_attribute: "trace_step J s (s\<lparr>ts_tracer := add_attribute key val (ts_tracer s)\<rparr>)"
| tr_enqueued: "sp \<in> set (ts_pending s) \<Longrightarrow> enqueue sp (ts_tracer s) = (wake, t) \<Longrightarrow>
     trace_step J s (s\<lparr>ts_tracer := t, ts_pending := remove1 sp (ts_pending s), ts_queued := ts_queued s @ [sp]\<rparr>)"
| tr_taken: "ts_exporter s = Exp_waiting \<Longrightarrow> export_take (ts_tracer s) = Some (b, t) \<Longrightarrow>
     trace_step J s (s\<lparr>ts_tracer := t, ts_exporter := Exp_batch b, ts_taken := ts_taken s @ b\<rparr>)"
| tr_exported: "ts_exporter s = Exp_batch b \<Longrightarrow> do_export J P (ts_tracer s) b = Inr good \<Longrightarrow>
     trace_step J s (s\<lparr>ts_tracer := export_done good (ts_tracer s), ts_exporter := Exp_waiting\<rparr>)"
| tr_stopped: "trace_step J s (s\<lparr>ts_tracer := (ts_tracer s)\<lparr>tr_stop := True\<rparr>\<rparr>)"
| tr_left: "ts_exporter s = Exp_waiting \<Longrightarrow> export_take (ts_tracer s) = None \<Longrightarrow> trace_step J s (s\<lparr>ts_exporter := Exp_draining\<rparr>)"
| tr_drained: "ts_exporter s = Exp_draining \<Longrightarrow> flush_spans (ts_tracer s) = (b, t) \<Longrightarrow>
     trace_step J s (s\<lparr>ts_tracer := t, ts_exporter := Exp_gone, ts_taken := ts_taken s @ b\<rparr>)"
| tr_flushed: "ts_exporter s = Exp_gone \<Longrightarrow> flush_spans (ts_tracer s) = (b, t) \<Longrightarrow>
     trace_step J s (s\<lparr>ts_tracer := t, ts_taken := ts_taken s @ b\<rparr>)"

definition trace_start :: "TraceConfig \<Rightarrow> nat list \<Rightarrow> Trace_Sys" where
  "trace_start cfg draws = \<lparr>ts_tracer = Tracer_new cfg draws, ts_pending = [], ts_exporter = Exp_waiting, ts_queued = [], ts_taken = []\<rparr>"

section \<open>Invariant\<close>

definition trace_inv :: "Trace_Sys \<Rightarrow> bool" where
  "trace_inv s \<longleftrightarrow> length (tr_completed_spans (ts_tracer s)) \<le> kOtlpMaxBufferedSpans
     \<and> 200 \<le> tr_backoff (ts_tracer s) \<and> tr_backoff (ts_tracer s) \<le> kMaxBackoff
     \<and> (case ts_exporter s of Exp_batch b \<Rightarrow> length b \<le> kOtlpBatchSize | _ \<Rightarrow> True)
     \<and> subseq (ts_taken s @ tr_completed_spans (ts_tracer s)) (ts_queued s)
     \<and> (length (ts_queued s) \<le> kOtlpMaxBufferedSpans \<longrightarrow> ts_taken s @ tr_completed_spans (ts_tracer s) = ts_queued s)"

lemma start_span_frame:
  "start_span name now now' draws draw t = (r, t') \<Longrightarrow> tr_completed_spans t' = tr_completed_spans t \<and> tr_backoff t' = tr_backoff t"
  by (auto simp: start_span_def close_span_def Let_def split: if_splits)

lemma end_span_frame:
  "end_span now draw t = (r, t') \<Longrightarrow> tr_completed_spans t' = tr_completed_spans t \<and> tr_backoff t' = tr_backoff t"
  by (auto simp: end_span_def close_span_def Let_def split: if_splits)

lemma enqueue_queue:
  assumes "enqueue sp t = (w, t')"
  obtains k where "tr_completed_spans t' = drop k (tr_completed_spans t @ [sp])" "tr_backoff t' = tr_backoff t"
    "length (tr_completed_spans t') \<le> kOtlpMaxBufferedSpans" "length (tr_completed_spans t) < kOtlpMaxBufferedSpans \<Longrightarrow> k = 0"
proof
  let ?k = "length (tr_completed_spans t @ [sp]) - kOtlpMaxBufferedSpans"
  from assms show q: "tr_completed_spans t' = drop ?k (tr_completed_spans t @ [sp])" and "tr_backoff t' = tr_backoff t"
    by (auto simp: enqueue_def Let_def)
  show "length (tr_completed_spans t') \<le> kOtlpMaxBufferedSpans" unfolding q by (simp only: length_drop)
  show "length (tr_completed_spans t) < kOtlpMaxBufferedSpans \<Longrightarrow> ?k = 0" by simp
qed

lemma export_take_queue:
  "export_take t = Some (b, t') \<Longrightarrow> b @ tr_completed_spans t' = tr_completed_spans t \<and> length b \<le> kOtlpBatchSize
     \<and> length (tr_completed_spans t') \<le> length (tr_completed_spans t) \<and> tr_backoff t' = tr_backoff t"
  by (auto simp: export_take_def Let_def split: if_splits)

lemma subseq_drop: "subseq (drop k xs) xs"
  by (metis append_take_drop_id list_emb_append2 subseq_order.order_refl)

lemma enqueue_inv:
  assumes "enqueue sp (ts_tracer s) = (w, t)" "trace_inv s"
  shows "trace_inv (s\<lparr>ts_tracer := t, ts_pending := p, ts_queued := ts_queued s @ [sp]\<rparr>)"
proof -
  let ?q = "tr_completed_spans (ts_tracer s)"
  from assms(1) obtain k where k: "tr_completed_spans t = drop k (?q @ [sp])" "tr_backoff t = tr_backoff (ts_tracer s)"
    "length (tr_completed_spans t) \<le> kOtlpMaxBufferedSpans" "length ?q < kOtlpMaxBufferedSpans \<Longrightarrow> k = 0" by (rule enqueue_queue) blast
  have "subseq (ts_taken s @ drop k (?q @ [sp])) ((ts_taken s @ ?q) @ [sp])"
    using subseq_drop [of k "?q @ [sp]"] by (simp add: list_emb_append_mono)
  also have "subseq \<dots> (ts_queued s @ [sp])" using assms(2) by (intro list_emb_append_mono) (auto simp: trace_inv_def)
  finally have sub: "subseq (ts_taken s @ tr_completed_spans t) (ts_queued s @ [sp])" by (simp add: k(1))
  have all: "ts_taken s @ tr_completed_spans t = ts_queued s @ [sp]" if l: "length (ts_queued s @ [sp]) \<le> kOtlpMaxBufferedSpans"
  proof -
    have eq: "ts_taken s @ ?q = ts_queued s" using l assms(2) by (simp add: trace_inv_def)
    then have "length (ts_taken s @ ?q) = length (ts_queued s)" by simp
    with l have "k = 0" using k(4) by simp
    with eq k(1) show ?thesis by simp
  qed
  from sub all k(2,3) assms(2) show ?thesis by (simp add: trace_inv_def)
qed

lemma take_inv:
  assumes "b @ tr_completed_spans t = tr_completed_spans (ts_tracer s)" "tr_backoff t = tr_backoff (ts_tracer s)" "trace_inv s"
    and "case e of Exp_batch b \<Rightarrow> length b \<le> kOtlpBatchSize | _ \<Rightarrow> True"
  shows "trace_inv (s\<lparr>ts_tracer := t, ts_exporter := e, ts_taken := ts_taken s @ b\<rparr>)"
proof -
  have "length (tr_completed_spans t) \<le> length (tr_completed_spans (ts_tracer s))" using arg_cong [OF assms(1), of length] by simp
  with assms show ?thesis by (simp add: trace_inv_def)
qed

lemma flush_queue: "flush_spans t = (b, t') \<Longrightarrow> b @ tr_completed_spans t' = tr_completed_spans t \<and> tr_backoff t' = tr_backoff t"
  by (auto simp: flush_spans_def)

lemma trace_step_inv: "trace_step J s s' \<Longrightarrow> trace_inv s \<Longrightarrow> trace_inv s'"
proof (induction rule: trace_step.induct)
  case (tr_started name now now' draws draw s r t)
  then show ?case using start_span_frame [OF tr_started(1)] by (simp add: trace_inv_def)
next
  case (tr_ended now draw s r t)
  then show ?case using end_span_frame [OF tr_ended(1)] by (simp add: trace_inv_def)
next
  case (tr_enqueued sp s wake t)
  then show ?case by (blast intro: enqueue_inv)
next
  case (tr_taken s b t)
  then show ?case using export_take_queue [OF tr_taken(2)] by (intro take_inv) auto
next
  case (tr_exported s b P good)
  have "200 \<le> min (tr_backoff (ts_tracer s) * 2) kMaxBackoff" using tr_exported(3) by (simp add: trace_inv_def kMaxBackoff_def)
  with tr_exported show ?case by (auto simp: trace_inv_def export_done_def kMaxBackoff_def)
next
  case (tr_drained s b t)
  then show ?case using flush_queue [OF tr_drained(2)] by (intro take_inv) auto
next
  case (tr_flushed s b t)
  then have "trace_inv (s\<lparr>ts_tracer := t, ts_exporter := Exp_gone, ts_taken := ts_taken s @ b\<rparr>)"
    using flush_queue [OF tr_flushed(2)] by (intro take_inv) auto
  with tr_flushed(1) show ?case by (simp add: trace_inv_def)
qed (simp_all add: trace_inv_def add_attribute_def)

lemma trace_start_inv: "trace_inv (trace_start cfg draws)"
  by (simp add: trace_inv_def trace_start_def Tracer_new_def parse_endpoint_def kMaxBackoff_def Let_def)

lemma trace_reach_inv: "(trace_step J)\<^sup>*\<^sup>* (trace_start cfg draws) s \<Longrightarrow> trace_inv s"
  by (induction rule: rtranclp_induct) (auto intro: trace_start_inv trace_step_inv)

section \<open>Properties\<close>

lemma export_done_queue:
  "tr_completed_spans (export_done g t) = tr_completed_spans t" "tr_stop (export_done g t) = tr_stop t" "tr_config (export_done g t) = tr_config t"
  by (simp_all add: export_done_def)

text \<open>The batch that pass \<open>k\<close> of the loop takes from a queue once the stop flag is set.\<close>

definition nth_batch :: "SpanData list \<Rightarrow> nat \<Rightarrow> SpanData list" where
  "nth_batch q k = take kOtlpBatchSize (drop (kOtlpBatchSize * k) q)"

lemma export_take_stopped:
  assumes "tr_stop t" "tr_completed_spans t \<noteq> []"
  shows "export_take t = Some (nth_batch (tr_completed_spans t) 0, t\<lparr>tr_completed_spans := drop kOtlpBatchSize (tr_completed_spans t)\<rparr>)"
  using assms by (auto simp: export_take_def nth_batch_def Let_def min_def)

text \<open>What the loop has handed out when it ends: the queue in order, in batches of the size or less.\<close>

definition loop_result :: "SpanData list \<Rightarrow> SpanData list list \<times> Tracer \<Rightarrow> bool" where
  "loop_result q r \<longleftrightarrow> concat (fst r) = q \<and> (\<forall>b\<in>set (fst r). b \<noteq> [] \<and> length b \<le> kOtlpBatchSize) \<and> tr_completed_spans (snd r) = []"

text \<open>The exception that ends it: of printing the batch of pass \<open>k\<close>, on a connection that was made.\<close>

definition loop_exn :: "'j Otlp_Json \<Rightarrow> Post_Net list \<Rightarrow> TraceConfig \<Rightarrow> SpanData list \<Rightarrow> nat \<Rightarrow> cpp_exn \<Rightarrow> bool" where
  "loop_exn J Ps cfg q k e \<longleftrightarrow> k < length Ps \<and> kOtlpBatchSize * k < length q \<and> pn_connect (Ps ! k) = Io_ok
     \<and> oj_dump J (export_payload J cfg (nth_batch q k)) = Inl e"

lemma loop_exn_Suc: "loop_exn J Ps cfg (drop kOtlpBatchSize q) k e \<Longrightarrow> loop_exn J (P # Ps) cfg q (Suc k) e"
  by (auto simp: loop_exn_def nth_batch_def algebra_simps)

lemma do_export_exn: "do_export J P t b = Inl e \<Longrightarrow> b \<noteq> [] \<and> pn_connect P = Io_ok \<and> oj_dump J (export_payload J (tr_config t) b) = Inl e"
  by (auto simp: do_export_def do_post_json_def split: if_splits sum.splits)

lemma export_loop_total:
  assumes "tr_stop t" "length (tr_completed_spans t) \<le> kOtlpBatchSize * length Ps"
  shows "(\<exists>r. export_loop J Ps t = Some (Inr r) \<and> loop_result (tr_completed_spans t) r)
    \<or> (\<exists>e k. export_loop J Ps t = Some (Inl e) \<and> loop_exn J Ps (tr_config t) (tr_completed_spans t) k e)"
  using assms
proof (induction Ps arbitrary: t)
  case Nil
  then show ?case by (simp add: export_loop.simps export_take_def loop_result_def)
next
  case (Cons P Ps)
  let ?q = "tr_completed_spans t" and ?b = "nth_batch (tr_completed_spans t) 0"
  let ?t = "t\<lparr>tr_completed_spans := drop kOtlpBatchSize ?q\<rparr>"
  show ?case
  proof (cases "?q = []")
    case True
    with Cons.prems(1) show ?thesis by (simp add: export_loop.simps export_take_def loop_result_def)
  next
    case False
    note take = export_take_stopped [OF Cons.prems(1) False]
    have b: "?b @ drop kOtlpBatchSize ?q = ?q" "?b \<noteq> []" "length ?b \<le> kOtlpBatchSize"
      using False by (simp_all add: nth_batch_def kOtlpBatchSize_def)
    show ?thesis
    proof (cases "do_export J P ?t ?b")
      case (Inl e)
      then have "export_loop J (P # Ps) t = Some (Inl e)" using take by (simp add: export_loop.simps)
      moreover have "loop_exn J (P # Ps) (tr_config t) ?q 0 e"
        using do_export_exn [OF Inl] False by (simp add: loop_exn_def)
      ultimately show ?thesis by blast
    next
      case (Inr g)
      let ?t' = "export_done g ?t"
      have step: "export_loop J (P # Ps) t = (case export_loop J Ps ?t' of Some (Inr (bs, t)) \<Rightarrow> Some (Inr (?b # bs, t)) | r \<Rightarrow> r)"
        using take Inr by (simp add: export_loop.simps [of J "P # Ps"])
      have "length (drop kOtlpBatchSize ?q) \<le> kOtlpBatchSize * length Ps" using Cons.prems(2) by simp
      with Cons.IH [of ?t'] Cons.prems(1) consider r where "export_loop J Ps ?t' = Some (Inr r)" "loop_result (drop kOtlpBatchSize ?q) r"
        | e k where "export_loop J Ps ?t' = Some (Inl e)" "loop_exn J Ps (tr_config t) (drop kOtlpBatchSize ?q) k e"
        by (auto simp: export_done_queue)
      then show ?thesis
      proof cases
        case (1 r)
        then have "loop_result ?q (?b # fst r, snd r)" using b by (auto simp: loop_result_def)
        with 1 step show ?thesis by (cases r) auto
      next
        case (2 e k)
        with step loop_exn_Suc [OF 2(2), of P] show ?thesis by auto
      qed
    qed
  qed
qed

text \<open>
  C27: However spans, attributes, exports and the shutdown interleave, the tracer keeps at most 4096
  queued spans, exports batches of at most 64 and waits between 200 and 5000 milliseconds. The spans
  taken for export, followed by those queued, are a subsequence of the spans queued so far, so each is
  exported once at most and in order; and until 4096 spans have been queued none is lost.
\<close>

theorem tracer_queue_fifo:
  assumes "(trace_step J)\<^sup>*\<^sup>* (trace_start cfg draws) s"
  shows "length (tr_completed_spans (ts_tracer s)) \<le> 4096
     \<and> 200 \<le> tr_backoff (ts_tracer s) \<and> tr_backoff (ts_tracer s) \<le> 5000
     \<and> (\<forall>b. ts_exporter s = Exp_batch b \<longrightarrow> length b \<le> 64)
     \<and> subseq (ts_taken s @ tr_completed_spans (ts_tracer s)) (ts_queued s)
     \<and> (length (ts_queued s) \<le> 4096 \<longrightarrow> ts_taken s @ tr_completed_spans (ts_tracer s) = ts_queued s)"
  using trace_reach_inv [OF assms]
  by (auto simp: trace_inv_def kOtlpMaxBufferedSpans_def kOtlpBatchSize_def kMaxBackoff_def)

definition no_json :: "unit Otlp_Json" where
  "no_json = \<lparr>oj_str = \<lambda>_. (), oj_int = \<lambda>_. (), oj_init = \<lambda>_. (), oj_array = \<lambda>_. (), oj_object = \<lambda>_. (), oj_dump = \<lambda>_. Inr []\<rparr>"

definition trace_cfg :: TraceConfig where
  "trace_cfg = \<lparr>tc_endpoint = [], tc_sample_rate = 1, tc_service_name = ''volley'', tc_service_version = ''1.1.0''\<rparr>"

definition span_one :: SpanData where
  "span_one = \<lparr>sp_name = ''a'', sp_trace_id = random_hex [0], sp_span_id = random_hex [1], sp_parent_span_id = [], sp_start_time = 1, sp_end_time = 2,
     sp_attributes = [(''service.name'', ''volley''), (''service.version'', ''1.1.0'')], sp_ended = False\<rparr>"

lemma span_one_run:
  "\<exists>s. (trace_step no_json)\<^sup>*\<^sup>* (trace_start trace_cfg [0]) s \<and> ts_queued s = [span_one]"
proof -
  let ?s0 = "trace_start trace_cfg [0]"
  let ?t1 = "snd (start_span ''a'' 0 1 [1] 0 (ts_tracer ?s0))"
  let ?s1 = "?s0\<lparr>ts_tracer := ?t1, ts_pending := []\<rparr>"
  let ?t2 = "snd (end_span 2 0 ?t1)"
  let ?s2 = "?s1\<lparr>ts_tracer := ?t2, ts_pending := [span_one]\<rparr>"
  let ?s3 = "?s2\<lparr>ts_tracer := snd (enqueue span_one ?t2), ts_pending := [], ts_queued := [span_one]\<rparr>"
  have a: "start_span ''a'' 0 1 [1] 0 (ts_tracer ?s0) = (None, ?t1)"
    by (simp add: start_span_def trace_start_def Tracer_new_def parse_endpoint_def trace_cfg_def Let_def)
  have b: "end_span 2 0 ?t1 = (Some span_one, ?t2)"
    by (simp add: end_span_def close_span_def start_span_def trace_start_def Tracer_new_def parse_endpoint_def trace_cfg_def
        span_one_def Let_def)
  have "trace_step no_json ?s0 ?s1" using tr_started [OF a, of no_json] by (simp add: trace_start_def)
  moreover have "trace_step no_json ?s1 ?s2" using tr_ended [of 2 0 ?s1 "Some span_one" ?t2 no_json] b by simp
  moreover have "trace_step no_json ?s2 ?s3"
    using tr_enqueued [of span_one ?s2 "fst (enqueue span_one ?t2)" "snd (enqueue span_one ?t2)" no_json] by (simp add: trace_start_def)
  ultimately have "(trace_step no_json)\<^sup>*\<^sup>* ?s0 ?s3" by (meson converse_rtranclp_into_rtranclp rtranclp.rtrancl_refl)
  then show ?thesis by (intro exI [of _ ?s3]) simp
qed

theorem tracer_queue_fifo_witness:
  "\<exists>s. (trace_step no_json)\<^sup>*\<^sup>* (trace_start trace_cfg [0]) s \<and> ts_queued s = [span_one]
     \<and> ts_taken s @ tr_completed_spans (ts_tracer s) = [span_one]"
  using span_one_run tracer_queue_fifo [of no_json trace_cfg "[0]"] by fastforce

text \<open>
  C31: Once the stop flag is set the exporter's loop ends after at most one pass per 64 queued spans, whatever the network and the JSON
  library do. It has then handed out the whole queue in order, in non-empty batches of at most 64 spans, or it ended with the
  exception of printing one of the batches of 64 it took from the queue, on a connection that was made.
\<close>

theorem export_loop_ends:
  assumes "tr_stop t" "length (tr_completed_spans t) \<le> 64 * length Ps"
  shows "(\<exists>bs t'. export_loop J Ps t = Some (Inr (bs, t')) \<and> concat bs = tr_completed_spans t
        \<and> (\<forall>b\<in>set bs. b \<noteq> [] \<and> length b \<le> 64) \<and> tr_completed_spans t' = [])
     \<or> (\<exists>e k. export_loop J Ps t = Some (Inl e) \<and> k < length Ps \<and> pn_connect (Ps ! k) = Io_ok \<and> 64 * k < length (tr_completed_spans t)
        \<and> oj_dump J (export_payload J (tr_config t) (take 64 (drop (64 * k) (tr_completed_spans t)))) = Inl e)"
  using export_loop_total [of t Ps J] assms
  by (fastforce simp: loop_result_def loop_exn_def nth_batch_def kOtlpBatchSize_def)

definition stopped_tracer :: "string \<Rightarrow> Tracer" where
  "stopped_tracer host = (Tracer_new trace_cfg [0])\<lparr>tr_stop := True, tr_completed_spans := replicate 65 span_one, tr_endpoint_host := host\<rparr>"

definition down_net :: Post_Net where
  "down_net = \<lparr>pn_resolve = \<lambda>_ _. False, pn_sni = \<lambda>_. False, pn_connect = Io_failed, pn_handshake = Io_failed,
     pn_write = Io_failed, pn_read = \<lambda>_. (Io_failed, 0, [])\<rparr>"

text \<open>With the network down everything is handed out; with a document that cannot be printed the loop ends with the exception.\<close>

theorem export_loop_ends_witness:
  "(\<exists>bs t'. export_loop no_json [down_net, down_net] (stopped_tracer ''h'') = Some (Inr (bs, t')) \<and> concat bs = replicate 65 span_one)
   \<and> (\<exists>e. export_loop (no_json\<lparr>oj_dump := \<lambda>_. Inl (Json_error ''316'')\<rparr>) [down_net\<lparr>pn_resolve := \<lambda>_ _. True, pn_connect := Io_ok\<rparr>, down_net]
        (stopped_tracer ''h'') = Some (Inl e) \<and> e = Json_error ''316'')"
proof -
  let ?J = "no_json\<lparr>oj_dump := \<lambda>_. Inl (Json_error ''316'')\<rparr>" and ?P = "down_net\<lparr>pn_resolve := \<lambda>_ _. True, pn_connect := Io_ok\<rparr>"
  have t: "tr_stop (stopped_tracer ''h'')" "length (tr_completed_spans (stopped_tracer ''h'')) \<le> 64 * length [a, b :: Post_Net]" for a b
    by (simp_all add: stopped_tracer_def)
  have "\<exists>bs t'. export_loop no_json [down_net, down_net] (stopped_tracer ''h'') = Some (Inr (bs, t')) \<and> concat bs = replicate 65 span_one"
    using export_loop_ends [OF t(1) t(2) [of down_net down_net], of no_json] by (auto simp: no_json_def stopped_tracer_def)
  moreover have "\<not> (\<exists>r. export_loop ?J [?P, down_net] (stopped_tracer ''h'') = Some (Inr r))"
    by (simp add: export_loop.simps export_take_def do_export_def do_post_json_def stopped_tracer_def kOtlpBatchSize_def Let_def)
  then have "\<exists>e. export_loop ?J [?P, down_net] (stopped_tracer ''h'') = Some (Inl e) \<and> e = Json_error ''316''"
    using export_loop_ends [OF t(1) t(2) [of ?P down_net], of ?J] by auto
  ultimately show ?thesis by blast
qed

text \<open>
  An endpoint without a port is exported to on port 80, or 443 for https, and never on the port
  4318 that the exporter means as its default: parsing the URL always gives a port.
\<close>

theorem otlp_default_port_unused:
  assumes "CHR '':'' \<notin> set h" "CHR ''/'' \<notin> set h" "CHR ''['' \<notin> set h"
  shows "tr_endpoint_port (Tracer_new (cfg\<lparr>tc_endpoint := ''http://'' @ h\<rparr>) draws) = ''80''
     \<and> tr_endpoint_port (Tracer_new (cfg\<lparr>tc_endpoint := ''https://'' @ h\<rparr>) draws) = ''443''
     \<and> tr_endpoint_target (Tracer_new (cfg\<lparr>tc_endpoint := ''http://'' @ h\<rparr>) draws) = ''/v1/traces''"
proof -
  have s: "split_host_port d h = (h, d)" for d using assms by (intro split_plain(2)) (cases h; auto)+
  have "parse_url (''http'' @ ''://'' @ h @ []) = \<lparr>up_host = h, up_port = ''80'', up_path = ''/'', up_tls = False\<rparr>"
    "parse_url (''https'' @ ''://'' @ h @ []) = \<lparr>up_host = h, up_port = ''443'', up_path = ''/'', up_tls = True\<rparr>"
    using assms s parse_url_parts [of "''http''" h "[]" False h "''80''"] parse_url_parts [of "''https''" h "[]" True h "''443''"] by simp_all
  then show ?thesis by (simp add: Tracer_new_def parse_endpoint_def)
qed

theorem otlp_default_port_unused_witness:
  "tr_endpoint_port (Tracer_new (trace_cfg\<lparr>tc_endpoint := ''http://collector''\<rparr>) []) = ''80''"
  using otlp_default_port_unused [of "''collector''" trace_cfg "[]"] by simp

end
