(* ===== verification/Vault_Client.thy ===== *)
theory Vault_Client
  imports Auth_Provider Http_Client Cpp_Parse
begin

text \<open>
  The secrets client, \<open>core/vault/vault_client.cpp\<close>: the request with its retries on status 429,
  and the operations on secrets. \<open>Ps i\<close> is what the network and the server do in attempt \<open>i\<close>;
  the JSON library is the argument \<open>J\<close>, whose failures the operations catch while they read an answer. Reading
  at the end of the stream leaves the response as it was constructed, status 200 and no body.
\<close>

section \<open>Requests\<close>

record VaultConfig =
  vc_address :: string
  vc_token :: string
  vc_engine_path :: string
  vc_timeout_seconds :: u32

definition VaultConfig_default :: VaultConfig where
  "VaultConfig_default = \<lparr>vc_address = ''http://127.0.0.1:8200'', vc_token = [], vc_engine_path = ''secret'', vc_timeout_seconds = 5\<rparr>"

record Vault_Request =
  vr_method :: string
  vr_target :: string
  vr_body :: string
  vr_headers :: "(string \<times> string) list"

definition vault_message :: "string \<Rightarrow> Vault_Request \<Rightarrow> HttpMsg" where
  "vault_message host r =
     (let fs = set_field ''Accept'' ''application/json'' (set_field ''User-Agent'' kUserAgent (set_field ''Host'' host []));
          fs = fold (\<lambda>(k, v). set_field k v) (vr_headers r) fs
      in \<lparr>hm_method = vr_method r, hm_target = vr_target r,
          hm_headers = (if vr_body r \<noteq> [] then set_field ''Content-Length'' (nat_dec (length (vr_body r))) fs else fs),
          hm_body = vr_body r\<rparr>)"

definition do_request_once :: "Post_Net \<Rightarrow> UrlParts \<Rightarrow> Vault_Request \<Rightarrow> (nat \<times> string, Err) Result" where
  "do_request_once P url r =
     (if \<not> pn_resolve P (up_host url) (up_port url) then err dns_failure
      else if up_tls url \<and> \<not> pn_sni P (up_host url) then err tls_handshake_failed
      else if pn_connect P = Io_timeout then err connection_timeout
      else if pn_connect P \<noteq> Io_ok then err connection_refused
      else if up_tls url \<and> pn_handshake P \<noteq> Io_ok then err tls_handshake_failed
      else if pn_write P \<noteq> Io_ok then err write_error
      else case pn_read P (vault_message (up_host url) r) of (ec, status, body) \<Rightarrow>
        if ec = Io_eof then ok (200, [])
        else if ec \<noteq> Io_ok then err read_error else ok (status, body))"

definition kMaxAttempts :: nat where "kMaxAttempts = 3"

text \<open>The attempts from \<open>i\<close> on, \<open>n\<close> of them, with the milliseconds slept between them.\<close>

fun request_attempts :: "(nat \<Rightarrow> Post_Net) \<Rightarrow> UrlParts \<Rightarrow> Vault_Request \<Rightarrow> nat \<Rightarrow> nat \<Rightarrow> (nat \<times> string, Err) Result \<times> int list" where
  "request_attempts Ps url r i 0 = (err vault_server_error, [])"
| "request_attempts Ps url r i (Suc n) =
     (case do_request_once (Ps i) url r of
        err e \<Rightarrow> (err e, [])
      | ok (status, body) \<Rightarrow>
          if status \<noteq> 429 then (ok (status, body), [])
          else let (res, sleeps) = request_attempts Ps url r (Suc i) n
               in (res, if n > 0 then 100 * 2 ^ i # sleeps else sleeps))"

definition do_request :: "(nat \<Rightarrow> Post_Net) \<Rightarrow> UrlParts \<Rightarrow> Vault_Request \<Rightarrow> (nat \<times> string, Err) Result \<times> int list" where
  "do_request Ps url r = request_attempts Ps url r 0 kMaxAttempts"

definition check_response :: "nat \<Rightarrow> (nat, Err) Result" where
  "check_response code =
     (if 200 \<le> code \<and> code < 300 then ok code
      else if code = 429 then err vault_server_error
      else if code = 404 then err vault_not_found
      else if code = 403 then err vault_permission_denied
      else if code = 401 then err vault_token_invalid
      else if code \<ge> 500 then err vault_server_error
      else err unknown)"

section \<open>Operations\<close>

text \<open>
  The JSON library: \<open>Inl\<close> is an exception. \<open>vj_contains\<close> is false of a value that is no object.
\<close>

record 'j Vault_Json =
  vj_parse :: "string \<Rightarrow> cpp_exn + 'j"
  vj_contains :: "'j \<Rightarrow> string \<Rightarrow> bool"
  vj_at :: "'j \<Rightarrow> string \<Rightarrow> 'j"
  vj_is_object :: "'j \<Rightarrow> bool"
  vj_string :: "'j \<Rightarrow> cpp_exn + string"
  vj_items :: "'j \<Rightarrow> (string \<times> 'j) list"
  vj_value :: "'j \<Rightarrow> string \<Rightarrow> string \<Rightarrow> cpp_exn + string"
  vj_of_string :: "string \<Rightarrow> 'j"
  vj_object :: "(string \<times> 'j) list \<Rightarrow> 'j"
  vj_null :: 'j
  vj_dump :: "'j \<Rightarrow> cpp_exn + string"

record VaultClient =
  vt_config :: VaultConfig
  vt_connected :: bool
  vt_last_error :: string

text \<open>A request that is answered with a success status, the common part of the operations.\<close>

definition vault_call :: "(nat \<Rightarrow> Post_Net) \<Rightarrow> VaultConfig \<Rightarrow> Vault_Request \<Rightarrow> (string, Err) Result" where
  "vault_call Ps cfg r =
     and_then (fst (do_request Ps (parse_url (vc_address cfg)) r)) (\<lambda>(status, body). result_map (\<lambda>_. body) (check_response status))"

definition token_header :: "VaultConfig \<Rightarrow> (string \<times> string) list" where
  "token_header cfg = [(''X-Vault-Token'', vc_token cfg)]"

definition secret_path :: "VaultConfig \<Rightarrow> string \<Rightarrow> string" where
  "secret_path cfg path = ''/v1/'' @ sanitize_path (vc_engine_path cfg) @ ''/data/'' @ sanitize_path path"

text \<open>\<open>catch (const json::exception&)\<close> around the reading of an answer.\<close>

definition catch_json :: "cpp_exn + ('a, Err) Result \<Rightarrow> ('a, Err) Result" where
  "catch_json r = (case r of Inl _ \<Rightarrow> err parse_error | Inr v \<Rightarrow> v)"

definition read_secret :: "'j Vault_Json \<Rightarrow> string \<Rightarrow> string \<Rightarrow> (string, Err) Result" where
  "read_secret J key body = catch_json (exn_bind (vj_parse J body) (\<lambda>j.
     if \<not> vj_contains J j ''data'' \<or> \<not> vj_contains J (vj_at J j ''data'') ''data'' then Inr (err parse_error)
     else let data = vj_at J (vj_at J j ''data'') ''data''
          in if vj_is_object J data \<and> vj_contains J data key
             then exn_bind (vj_string J (vj_at J data key)) (\<lambda>v. Inr (ok v))
             else Inr (err vault_not_found)))"

definition get_secret :: "'j Vault_Json \<Rightarrow> (nat \<Rightarrow> Post_Net) \<Rightarrow> VaultConfig \<Rightarrow> string \<Rightarrow> string \<Rightarrow> (string, Err) Result" where
  "get_secret J Ps cfg path key =
     (if path = [] then err invalid_config
      else and_then (vault_call Ps cfg \<lparr>vr_method = ''GET'', vr_target = secret_path cfg path, vr_body = [], vr_headers = token_header cfg\<rparr>)
             (read_secret J key))"

definition get_kv_secret :: "'j Vault_Json \<Rightarrow> (nat \<Rightarrow> Post_Net) \<Rightarrow> VaultConfig \<Rightarrow> string \<Rightarrow> string \<Rightarrow> (string, Err) Result" where
  "get_kv_secret J Ps cfg path key = get_secret J Ps cfg path key"

definition read_secret_map :: "'j Vault_Json \<Rightarrow> string \<Rightarrow> ((string \<times> string) list, Err) Result" where
  "read_secret_map J body = catch_json (exn_bind (vj_parse J body) (\<lambda>j.
     if \<not> vj_contains J j ''data'' \<or> \<not> vj_contains J (vj_at J j ''data'') ''data'' then Inr (err parse_error)
     else let data = vj_at J (vj_at J j ''data'') ''data''
          in if vj_is_object J data
             then exn_bind (exn_map_list (\<lambda>(k, v). exn_bind (vj_string J v) (\<lambda>s. Inr (k, s))) (vj_items J data))
                    (\<lambda>kvs. Inr (ok (fold (\<lambda>(k, v). AList.update k v) kvs [])))
             else Inr (ok [])))"

definition get_secret_map :: "'j Vault_Json \<Rightarrow> (nat \<Rightarrow> Post_Net) \<Rightarrow> VaultConfig \<Rightarrow> string \<Rightarrow> ((string \<times> string) list, Err) Result" where
  "get_secret_map J Ps cfg path =
     (if path = [] then err invalid_config
      else and_then (vault_call Ps cfg \<lparr>vr_method = ''GET'', vr_target = secret_path cfg path, vr_body = [], vr_headers = token_header cfg\<rparr>)
             (read_secret_map J))"

text \<open>Printing the body is outside of any handler; with no data the object stays null.\<close>

definition put_body :: "'j Vault_Json \<Rightarrow> (string \<times> string) list \<Rightarrow> cpp_exn + string" where
  "put_body J kvs = vj_dump J (vj_object J [(''data'', if kvs = [] then vj_null J else vj_object J (map (\<lambda>(k, v). (k, vj_of_string J v)) kvs))])"

definition put_secret :: "'j Vault_Json \<Rightarrow> (nat \<Rightarrow> Post_Net) \<Rightarrow> VaultConfig \<Rightarrow> string \<Rightarrow> (string \<times> string) list \<Rightarrow> cpp_exn + (bool, Err) Result" where
  "put_secret J Ps cfg path kvs =
     (if path = [] then Inr (err invalid_config)
      else exn_bind (put_body J kvs) (\<lambda>body. Inr (result_map (\<lambda>_. True)
        (vault_call Ps cfg \<lparr>vr_method = ''POST'', vr_target = secret_path cfg path, vr_body = body, vr_headers = token_header cfg\<rparr>))))"

definition read_creds :: "'j Vault_Json \<Rightarrow> string \<Rightarrow> (string, Err) Result" where
  "read_creds J body = catch_json (exn_bind (vj_parse J body) (\<lambda>j.
     if \<not> vj_contains J j ''data'' then Inr (err parse_error)
     else let d = vj_at J j ''data''
          in exn_bind (vj_value J d ''username'' []) (\<lambda>username.
             exn_bind (vj_value J d ''password'' []) (\<lambda>password. Inr (ok (username @ '':'' @ password))))))"

definition get_database_creds :: "'j Vault_Json \<Rightarrow> (nat \<Rightarrow> Post_Net) \<Rightarrow> VaultConfig \<Rightarrow> string \<Rightarrow> (string, Err) Result" where
  "get_database_creds J Ps cfg role_name =
     (if role_name = [] then err invalid_config
      else and_then (vault_call Ps cfg \<lparr>vr_method = ''GET'', vr_target = ''/v1/database/creds/'' @ sanitize_path role_name,
             vr_body = [], vr_headers = token_header cfg\<rparr>) (read_creds J))"

definition read_approle :: "'j Vault_Json \<Rightarrow> string \<Rightarrow> (string, Err) Result" where
  "read_approle J body = catch_json (exn_bind (vj_parse J body) (\<lambda>j.
     if \<not> vj_contains J j ''auth'' \<or> \<not> vj_contains J (vj_at J j ''auth'') ''client_token'' then Inr (err parse_error)
     else exn_bind (vj_string J (vj_at J (vj_at J j ''auth'') ''client_token'')) (\<lambda>v. Inr (ok v))))"

definition get_approle_token :: "'j Vault_Json \<Rightarrow> (nat \<Rightarrow> Post_Net) \<Rightarrow> VaultConfig \<Rightarrow> string \<Rightarrow> string \<Rightarrow> cpp_exn + (string, Err) Result" where
  "get_approle_token J Ps cfg role_id secret_id =
     (if role_id = [] \<or> secret_id = [] then Inr (err invalid_config)
      else exn_bind (vj_dump J (vj_object J [(''role_id'', vj_of_string J role_id), (''secret_id'', vj_of_string J secret_id)])) (\<lambda>body.
        Inr (and_then (vault_call Ps cfg \<lparr>vr_method = ''POST'', vr_target = ''/v1/auth/approle/login'', vr_body = body, vr_headers = []\<rparr>)
          (read_approle J))))"

definition health_check :: "(nat \<Rightarrow> Post_Net) \<Rightarrow> VaultConfig \<Rightarrow> bool" where
  "health_check Ps cfg =
     (case fst (do_request Ps (parse_url (vc_address cfg)) \<lparr>vr_method = ''GET'', vr_target = ''/v1/sys/health'', vr_body = [],
        vr_headers = (if vc_token cfg \<noteq> [] then token_header cfg else [])\<rparr>) of
        ok (status, _) \<Rightarrow> 200 \<le> status \<and> status < 500
      | err _ \<Rightarrow> False)"

definition VaultClient_new :: "(nat \<Rightarrow> Post_Net) \<Rightarrow> VaultConfig \<Rightarrow> VaultClient" where
  "VaultClient_new Ps cfg = \<lparr>vt_config = cfg, vt_connected = health_check Ps cfg, vt_last_error = []\<rparr>"

section \<open>Lemmas\<close>

definition throttled :: "(nat \<times> string, Err) Result \<Rightarrow> bool" where
  "throttled r = (case r of ok (status, _) \<Rightarrow> status = 429 | err _ \<Rightarrow> False)"

text \<open>The attempt that decides: the first that is not throttled, if any of the \<open>n\<close> is not.\<close>

lemma request_attempts_stop:
  assumes "list_all (\<lambda>k. throttled (do_request_once (Ps k) url r)) [i..<i + m]" "\<not> throttled (do_request_once (Ps (i + m)) url r)" "m < n"
  shows "request_attempts Ps url r i n = (do_request_once (Ps (i + m)) url r, map (\<lambda>k. 100 * 2 ^ k) [i..<i + m])"
  using assms
proof (induction m arbitrary: i n)
  case 0
  then obtain n' where "n = Suc n'" by (cases n) auto
  with 0 show ?case by (auto simp: throttled_def split: Result.splits)
next
  case (Suc m)
  then obtain n' where n: "n = Suc n'" "m < n'" by (cases n) auto
  have u: "[i..<i + Suc m] = i # [Suc i..<Suc i + m]" by (simp add: upt_rec)
  have "request_attempts Ps url r (Suc i) n' = (do_request_once (Ps (Suc i + m)) url r, map (\<lambda>k. 100 * 2 ^ k) [Suc i..<Suc i + m])"
    using Suc.prems n(2) unfolding u by (intro Suc.IH) simp_all
  moreover obtain b where "do_request_once (Ps i) url r = ok (429, b)"
    using Suc.prems(1) unfolding u by (auto simp: throttled_def split: Result.splits)
  ultimately show ?case using n unfolding u by simp
qed

lemma request_attempts_exhausted:
  "list_all (\<lambda>k. throttled (do_request_once (Ps k) url r)) [i..<i + n] \<Longrightarrow>
     request_attempts Ps url r i n = (err vault_server_error, map (\<lambda>k. 100 * 2 ^ k) [i..<i + n - 1])"
proof (induction n arbitrary: i)
  case (Suc n)
  have u: "[i..<i + Suc n] = i # [Suc i..<Suc i + n]" by (simp add: upt_rec)
  obtain b where b: "do_request_once (Ps i) url r = ok (429, b)"
    using Suc.prems unfolding u by (auto simp: throttled_def split: Result.splits)
  have "request_attempts Ps url r (Suc i) n = (err vault_server_error, map (\<lambda>k. 100 * 2 ^ k) [Suc i..<Suc i + n - 1])"
    using Suc.prems unfolding u by (intro Suc.IH) simp
  with b show ?case by (cases n) (simp_all add: upt_rec [of i])
qed simp

lemma do_request_cases:
  "(\<exists>n<3. list_all (\<lambda>k. throttled (do_request_once (Ps k) url r)) [0..<n] \<and> \<not> throttled (do_request_once (Ps n) url r)
      \<and> do_request Ps url r = (do_request_once (Ps n) url r, map (\<lambda>k. 100 * 2 ^ k) [0..<n]))
   \<or> (list_all (\<lambda>k. throttled (do_request_once (Ps k) url r)) [0..<3] \<and> do_request Ps url r = (err vault_server_error, [100, 200]))"
proof (cases "\<exists>n<3. \<not> throttled (do_request_once (Ps n) url r)")
  case True
  then obtain n where n: "n < 3" "\<not> throttled (do_request_once (Ps n) url r)" "\<forall>k<n. throttled (do_request_once (Ps k) url r)"
    using exists_least_iff [of "\<lambda>n. n < 3 \<and> \<not> throttled (do_request_once (Ps n) url r)"] by (meson order.strict_trans)
  then have l: "list_all (\<lambda>k. throttled (do_request_once (Ps k) url r)) [0..<n]" by (auto simp: list_all_iff)
  then have "do_request Ps url r = (do_request_once (Ps n) url r, map (\<lambda>k. 100 * 2 ^ k) [0..<n])"
    using request_attempts_stop [of Ps url r 0 n 3] n by (simp add: do_request_def kMaxAttempts_def)
  with n l show ?thesis by blast
next
  case False
  then have l: "list_all (\<lambda>k. throttled (do_request_once (Ps k) url r)) [0..<3]" by (auto simp: list_all_iff)
  moreover have "[0..<2] = [0, 1::nat]" by (simp add: upt_rec)
  ultimately show ?thesis using request_attempts_exhausted [of Ps url r 0 3] by (simp add: do_request_def kMaxAttempts_def)
qed

lemma vault_call_ok:
  assumes "vault_call Ps cfg r = ok body"
  shows "\<exists>n<3. \<exists>status. do_request_once (Ps n) (parse_url (vc_address cfg)) r = ok (status, body) \<and> 200 \<le> status \<and> status < 300"
proof -
  let ?u = "parse_url (vc_address cfg)"
  from assms obtain status where s: "fst (do_request Ps ?u r) = ok (status, body)" "200 \<le> status" "status < 300"
    unfolding vault_call_def by (cases "fst (do_request Ps ?u r)") (auto simp: check_response_def split: if_splits)
  with do_request_cases [of Ps ?u r] show ?thesis by auto
qed

lemma segments_join: "segments (a @ ''/'' @ b) = segments a @ segments b"
proof (induction a rule: segments.induct)
  case (1 a)
  show ?case
  proof (cases "find_char (CHR ''/'') a")
    case None
    then show ?thesis by (simp add: segments_Cons segments_single find_char_None)
  next
    case (Some i)
    let ?x = "take i a" and ?y = "drop (Suc i) a"
    have a: "a = ?x @ CHR ''/'' # ?y" and x: "CHR ''/'' \<notin> set ?x" using find_char_split [OF Some] Some by (simp_all add: find_char_Some)
    have "segments (a @ ''/'' @ b) = segments (?x @ CHR ''/'' # (?y @ ''/'' @ b))" by (subst a) simp
    also have "\<dots> = ?x # segments ?y @ segments b" using 1 [OF Some] by (simp only: segments_Cons [OF x])
    also have "\<dots> = segments a @ segments b" by (subst (3) a) (simp add: segments_Cons [OF x])
    finally show ?thesis .
  qed
qed

section \<open>Properties\<close>

text \<open>
  C29: A request is tried three times at most, again only after status 429, with pauses of 100 and 200
  milliseconds. The result is that of the first attempt that is not answered with 429, and a
  server error if all three are; a transport error is final.
\<close>

theorem vault_retries:
  "(\<exists>n<3. list_all (\<lambda>k. throttled (do_request_once (Ps k) url r)) [0..<n] \<and> \<not> throttled (do_request_once (Ps n) url r)
      \<and> do_request Ps url r = (do_request_once (Ps n) url r, map (\<lambda>k. 100 * 2 ^ k) [0..<n]))
   \<or> (list_all (\<lambda>k. throttled (do_request_once (Ps k) url r)) [0..<3] \<and> do_request Ps url r = (err vault_server_error, [100, 200]))"
  by (rule do_request_cases)

text \<open>
  Whatever the secret's path, the request stays below the engine: the segments of the target are
  those of \<open>/v1\<close>, of the sanitized engine path, \<open>data\<close> and those of the sanitized path, none of them a
  dot segment, and no character of it ends the target or starts a query.
\<close>

theorem vault_target_confined:
  "segments (secret_path cfg path) = [[], ''v1''] @ segments (sanitize_path (vc_engine_path cfg)) @ [''data''] @ segments (sanitize_path path)
   \<and> list_all (\<lambda>seg. seg \<noteq> ''.'' \<and> seg \<noteq> ''..'') (segments (secret_path cfg path))
   \<and> list_all path_char (secret_path cfg path)"
proof -
  have "secret_path cfg path = [] @ ''/'' @ ''v1'' @ ''/'' @ sanitize_path (vc_engine_path cfg) @ ''/'' @ ''data'' @ ''/'' @ sanitize_path path"
    by (simp add: secret_path_def)
  then have s: "segments (secret_path cfg path) = segments [] @ segments ''v1'' @ segments (sanitize_path (vc_engine_path cfg)) @ segments ''data'' @ segments (sanitize_path path)"
    by (simp only: segments_join)
  have e: "segments [] = [[]]" "segments ''v1'' = [''v1'']" "segments ''data'' = [''data'']" by (simp_all add: segments_single)
  have c: "list_all path_char (sanitize_path p)" for p
    using sanitize_rest_chars [of "filter path_char p"] by (auto simp: sanitize_path_def Let_def list_all_iff)
  have l: "list_all path_char ''/v1/''" "list_all path_char ''/data/''"
    by (simp_all add: path_char_def isalnum_def isalpha_def islower_def isupper_def isdigit_def)
  have p: "list_all path_char (secret_path cfg path)" unfolding secret_path_def list_all_append using c l by blast
  have "list_all (\<lambda>seg. seg \<noteq> ''.'' \<and> seg \<noteq> ''..'') (segments (sanitize_path q))" for q
    using sanitize_clean [of q] by (simp only: list_all_iff dot_segment_def) blast
  then have d: "list_all (\<lambda>seg. seg \<noteq> ''.'' \<and> seg \<noteq> ''..'') (segments (secret_path cfg path))"
    unfolding s e list_all_append by simp
  show ?thesis using p d by (simp add: s e)
qed

text \<open>
  A secret is returned only from an answer: the path is not empty, one of the three attempts was a
  GET of the secret's target with the token that was answered with a status of the 200s, and the value
  is read from that answer.
\<close>

theorem vault_secret_sound:
  assumes "get_secret J Ps cfg path key = ok v"
  shows "path \<noteq> [] \<and> (\<exists>n<3. \<exists>status body. 200 \<le> status \<and> status < 300 \<and> read_secret J key body = ok v
     \<and> do_request_once (Ps n) (parse_url (vc_address cfg))
         \<lparr>vr_method = ''GET'', vr_target = secret_path cfg path, vr_body = [], vr_headers = [(''X-Vault-Token'', vc_token cfg)]\<rparr> = ok (status, body))"
proof -
  let ?r = "\<lparr>vr_method = ''GET'', vr_target = secret_path cfg path, vr_body = [], vr_headers = token_header cfg\<rparr>"
  from assms have p: "path \<noteq> []" by (auto simp: get_secret_def split: if_splits)
  with assms obtain body where b: "vault_call Ps cfg ?r = ok body" "read_secret J key body = ok v"
    by (cases "vault_call Ps cfg ?r") (auto simp: get_secret_def)
  with p vault_call_ok [OF b(1)] show ?thesis by (auto simp: token_header_def)
qed

text \<open>A document is a string, or an object that has one field.\<close>

datatype Tiny = Tiny_string string | Tiny_field string Tiny

definition tiny_json :: "Tiny \<Rightarrow> Tiny Vault_Json" where
  "tiny_json doc = \<lparr>vj_parse = \<lambda>_. Inr doc,
     vj_contains = \<lambda>j k. case j of Tiny_field k' _ \<Rightarrow> k' = k | _ \<Rightarrow> False,
     vj_at = \<lambda>j k. case j of Tiny_field _ v \<Rightarrow> v | _ \<Rightarrow> j,
     vj_is_object = \<lambda>j. case j of Tiny_field _ _ \<Rightarrow> True | _ \<Rightarrow> False,
     vj_string = \<lambda>j. case j of Tiny_string s \<Rightarrow> Inr s | _ \<Rightarrow> Inl (Json_error ''type''),
     vj_items = \<lambda>j. case j of Tiny_field k v \<Rightarrow> [(k, v)] | _ \<Rightarrow> [],
     vj_value = \<lambda>_ _ d. Inr d, vj_of_string = Tiny_string,
     vj_object = \<lambda>kvs. case kvs of (k, v) # _ \<Rightarrow> Tiny_field k v | [] \<Rightarrow> Tiny_string [],
     vj_null = Tiny_string [], vj_dump = \<lambda>_. Inr ''{}''\<rparr>"

definition vault_net :: "Io_End \<times> nat \<times> string \<Rightarrow> Post_Net" where
  "vault_net answer = \<lparr>pn_resolve = \<lambda>_ _. True, pn_sni = \<lambda>_. True, pn_connect = Io_ok, pn_handshake = Io_ok,
     pn_write = Io_ok, pn_read = \<lambda>_. answer\<rparr>"

theorem vault_secret_sound_witness:
  "\<exists>n<3::nat. \<exists>status body. 200 \<le> status \<and> status < 300
     \<and> read_secret (tiny_json (Tiny_field ''data'' (Tiny_field ''data'' (Tiny_field ''k'' (Tiny_string ''v''))))) ''k'' body = ok ''v''
     \<and> do_request_once (vault_net (if n = 0 then (Io_ok, 429, []) else (Io_ok, 200, ''{}''))) (parse_url (vc_address VaultConfig_default))
         \<lparr>vr_method = ''GET'', vr_target = secret_path VaultConfig_default ''p'', vr_body = [], vr_headers = [(''X-Vault-Token'', [])]\<rparr>
       = ok (status, body)"
proof -
  let ?J = "tiny_json (Tiny_field ''data'' (Tiny_field ''data'' (Tiny_field ''k'' (Tiny_string ''v''))))"
  let ?Ps = "\<lambda>n. vault_net (if n = (0::nat) then (Io_ok, 429, []) else (Io_ok, 200, ''{}''))"
  have "do_request_once (vault_net (Io_ok, st, b)) u r = ok (st, b)" for st b u r by (simp add: do_request_once_def vault_net_def)
  then have "vault_call ?Ps VaultConfig_default r = ok ''{}''" for r
    by (simp add: vault_call_def do_request_def kMaxAttempts_def numeral_3_eq_3 check_response_def)
  then have g: "get_secret ?J ?Ps VaultConfig_default ''p'' ''k'' = ok ''v''"
    by (simp add: get_secret_def read_secret_def tiny_json_def catch_json_def)
  have t: "vc_token VaultConfig_default = []" by (simp add: VaultConfig_default_def)
  show ?thesis using vault_secret_sound [OF g] unfolding t by (rule conjunct2)
qed

text \<open>
  Writing a secret succeeds when the server accepts the request and closes the connection without
  an answer: the end of the stream is taken for a response, and the response it never got has status 200.
\<close>

theorem vault_put_unanswered:
  assumes "path \<noteq> []" "put_body J kvs = Inr body" "pn_resolve (Ps 0) (up_host (parse_url (vc_address cfg))) (up_port (parse_url (vc_address cfg)))"
    and "pn_sni (Ps 0) (up_host (parse_url (vc_address cfg)))" "pn_connect (Ps 0) = Io_ok" "pn_handshake (Ps 0) = Io_ok" "pn_write (Ps 0) = Io_ok"
    and "\<And>m. fst (pn_read (Ps 0) m) = Io_eof"
  shows "put_secret J Ps cfg path kvs = Inr (ok True)"
proof -
  have "do_request_once (Ps 0) (parse_url (vc_address cfg)) r = ok (200, [])" for r
    using assms(3-7) assms(8) [of "vault_message (up_host (parse_url (vc_address cfg))) r"]
    by (cases "pn_read (Ps 0) (vault_message (up_host (parse_url (vc_address cfg))) r)") (simp add: do_request_once_def)
  then have "vault_call Ps cfg r = ok []" for r
    by (simp add: vault_call_def do_request_def kMaxAttempts_def numeral_3_eq_3 check_response_def)
  with assms(1,2) show ?thesis by (simp add: put_secret_def)
qed

theorem vault_put_unanswered_witness:
  "put_secret (tiny_json (Tiny_string [])) (\<lambda>_. vault_net (Io_eof, 0, [])) VaultConfig_default ''p'' [(''k'', ''v'')] = Inr (ok True)"
  by (rule vault_put_unanswered [where body = "''{}''"]) (simp_all add: vault_net_def put_body_def tiny_json_def)

end
