(* ===== verification/Stream_Clients.thy ===== *)
theory Stream_Clients
  imports Http_Client
begin

text \<open>
  The raw TCP client \<open>core/net/tcp_raw_client.cpp\<close>, the WebSocket client \<open>core/net/ws_client.cpp\<close>, and the connections and
  connectors of \<open>core/net/connection.cpp\<close>. How resolving, connecting, the handshakes, writing and reading end is the
  argument \<open>N\<close>. A request calls its handler once, with the response given here; the bytes written come with it.
\<close>

section \<open>The network\<close>

record Stream_Net =
  sn_resolve :: Ec
  sn_connect :: Ec
  sn_sni :: "string \<Rightarrow> bool"
  sn_tls_handshake :: Ec
  sn_upgrade :: "string \<Rightarrow> string \<Rightarrow> Ec"
  sn_write :: Ec
  sn_read :: Ec
  sn_data :: string
  sn_now :: int

record StreamClient =
  sc_timeout_ms :: int
  sc_tls_ctx :: bool

definition StreamClient_new :: StreamClient where
  "StreamClient_new = \<lparr>sc_timeout_ms = kDefaultTimeout, sc_tls_ctx = True\<rparr>"

definition stream_set_timeout :: "int \<Rightarrow> StreamClient \<Rightarrow> StreamClient" where
  "stream_set_timeout ms c = c\<lparr>sc_timeout_ms := ms\<rparr>"

definition kDefaultRecvBufferSize :: nat where "kDefaultRecvBufferSize = 8192"

type_synonym stream_end = "NetResponse \<times> string list"

definition stream_fail :: "Err \<Rightarrow> stream_end" where
  "stream_fail e = (NetResponse_default\<lparr>ns_ec := Some e\<rparr>, [])"

definition resolve_error :: "Ec \<Rightarrow> Err" where
  "resolve_error ec = (if ec = Ec_host_not_found then dns_failure else connection_refused)"

section \<open>Raw TCP\<close>

text \<open>At most the size of the buffer is read.\<close>

definition tcp_populate_response :: "Stream_Net \<Rightarrow> int \<Rightarrow> NetResponse" where
  "tcp_populate_response N start_time =
     (let r = NetResponse_default\<lparr>ns_latency := micros (sn_now N - start_time)\<rparr>
      in if sn_read N \<noteq> Ec_none then r\<lparr>ns_ec := Some (if sn_read N = Ec_beast_timeout then timeout else read_error)\<rparr>
         else r\<lparr>ns_body := take kDefaultRecvBufferSize (sn_data N), ns_status_code := 1\<rparr>)"

definition send_raw :: "Stream_Net \<Rightarrow> string \<Rightarrow> int \<Rightarrow> stream_end" where
  "send_raw N body start_time =
     (if sn_write N \<noteq> Ec_none then (NetResponse_default\<lparr>ns_ec := Some write_error\<rparr>, [body])
      else (tcp_populate_response N start_time, [body]))"

text \<open>On a TLS stream the same steps.\<close>

definition send_raw_tls :: "Stream_Net \<Rightarrow> string \<Rightarrow> int \<Rightarrow> stream_end" where
  "send_raw_tls N body start_time =
     (if sn_write N \<noteq> Ec_none then (NetResponse_default\<lparr>ns_ec := Some write_error\<rparr>, [body])
      else (tcp_populate_response N start_time, [body]))"

definition tcp_connect_tcp :: "Stream_Net \<Rightarrow> NetRequest \<Rightarrow> int \<Rightarrow> stream_end" where
  "tcp_connect_tcp N req start_time =
     (if sn_connect N \<noteq> Ec_none then stream_fail (connect_error (sn_connect N))
      else send_raw N (nr_body req) start_time)"

definition tcp_connect_tls :: "Stream_Net \<Rightarrow> NetRequest \<Rightarrow> int \<Rightarrow> stream_end" where
  "tcp_connect_tls N req start_time =
     (if sn_connect N \<noteq> Ec_none then stream_fail (connect_error (sn_connect N))
      else if \<not> host_is_ip_literal (nr_host req) \<and> \<not> sn_sni N (nr_host req) then stream_fail tls_handshake_failed
      else if sn_tls_handshake N \<noteq> Ec_none then stream_fail tls_handshake_failed
      else send_raw_tls N (nr_body req) start_time)"

definition tcp_async_request :: "Stream_Net \<Rightarrow> NetRequest \<Rightarrow> int \<Rightarrow> StreamClient \<Rightarrow> stream_end" where
  "tcp_async_request N req start_time c =
     (if nr_use_tls req \<and> \<not> sc_tls_ctx c then stream_fail tls_verify_failed
      else if sn_resolve N \<noteq> Ec_none then stream_fail (resolve_error (sn_resolve N))
      else if nr_use_tls req then tcp_connect_tls N req start_time
      else tcp_connect_tcp N req start_time)"

section \<open>WebSocket\<close>

definition ws_populate_response :: "Stream_Net \<Rightarrow> int \<Rightarrow> NetResponse" where
  "ws_populate_response N start_time =
     (let r = NetResponse_default\<lparr>ns_latency := micros (sn_now N - start_time)\<rparr>
      in if sn_read N \<noteq> Ec_none then r\<lparr>ns_ec := Some read_error\<rparr>
         else r\<lparr>ns_body := sn_data N, ns_status_code := 1\<rparr>)"

definition send_message :: "Stream_Net \<Rightarrow> string \<Rightarrow> int \<Rightarrow> stream_end" where
  "send_message N body start_time =
     (if sn_write N \<noteq> Ec_none then (NetResponse_default\<lparr>ns_ec := Some write_error\<rparr>, [body])
      else (ws_populate_response N start_time, [body]))"

definition send_message_tls :: "Stream_Net \<Rightarrow> string \<Rightarrow> int \<Rightarrow> stream_end" where
  "send_message_tls N body start_time =
     (if sn_write N \<noteq> Ec_none then (NetResponse_default\<lparr>ns_ec := Some write_error\<rparr>, [body])
      else (ws_populate_response N start_time, [body]))"

definition ws_target :: "NetRequest \<Rightarrow> string" where
  "ws_target req = (if nr_path req = [] then ''/'' else nr_path req)"

definition connect_ws :: "Stream_Net \<Rightarrow> NetRequest \<Rightarrow> int \<Rightarrow> stream_end" where
  "connect_ws N req start_time =
     (if sn_connect N \<noteq> Ec_none then stream_fail (connect_error (sn_connect N))
      else if sn_upgrade N (nr_host req) (ws_target req) \<noteq> Ec_none then stream_fail protocol_violation
      else send_message N (nr_body req) start_time)"

definition connect_wss :: "Stream_Net \<Rightarrow> NetRequest \<Rightarrow> int \<Rightarrow> stream_end" where
  "connect_wss N req start_time =
     (if sn_connect N \<noteq> Ec_none then stream_fail (connect_error (sn_connect N))
      else if \<not> host_is_ip_literal (nr_host req) \<and> \<not> sn_sni N (nr_host req) then stream_fail tls_handshake_failed
      else if sn_tls_handshake N \<noteq> Ec_none then stream_fail tls_handshake_failed
      else if sn_upgrade N (nr_host req) (ws_target req) \<noteq> Ec_none then stream_fail protocol_violation
      else send_message_tls N (nr_body req) start_time)"

definition ws_async_request :: "Stream_Net \<Rightarrow> NetRequest \<Rightarrow> int \<Rightarrow> StreamClient \<Rightarrow> stream_end" where
  "ws_async_request N req start_time c =
     (if nr_use_tls req \<and> \<not> sc_tls_ctx c then stream_fail tls_verify_failed
      else if sn_resolve N \<noteq> Ec_none then stream_fail (resolve_error (sn_resolve N))
      else if nr_use_tls req then connect_wss N req start_time
      else connect_ws N req start_time)"

section \<open>Connections\<close>

text \<open>An error code is one of the program, or one of the network library that is passed on.\<close>

datatype Conn_Error = Of_volley Err | Of_library Ec

definition pass_error :: "Ec \<Rightarrow> Conn_Error" where
  "pass_error ec = (if ec = Ec_aborted then Of_volley operation_cancelled else Of_library ec)"

record Connection =
  cx_open :: bool
  cx_timeout :: int
  cx_tls :: bool

text \<open>What the handlers of a write and of a read get, from the outcome of the library.\<close>

definition cx_async_write :: "Ec \<times> nat \<Rightarrow> Conn_Error \<times> nat" where
  "cx_async_write r = (pass_error (fst r), snd r)"

definition cx_async_read_some :: "Ec \<times> nat \<Rightarrow> Conn_Error \<times> nat" where
  "cx_async_read_some r = (pass_error (fst r), snd r)"

definition cx_async_handshake :: "Ec \<Rightarrow> Err option" where
  "cx_async_handshake ec = (if ec \<noteq> Ec_none then Some tls_handshake_failed else None)"

definition cx_close :: "Connection \<Rightarrow> Connection" where
  "cx_close c = c\<lparr>cx_open := False\<rparr>"

definition cx_set_timeout :: "int \<Rightarrow> Connection \<Rightarrow> Connection" where
  "cx_set_timeout ms c = c\<lparr>cx_timeout := ms\<rparr>"

definition cx_remote :: "(string \<times> u16) option \<Rightarrow> string \<times> u16" where
  "cx_remote ep = (case ep of None \<Rightarrow> ([], 0) | Some (a, p) \<Rightarrow> (a, p))"

text \<open>A connection has the default timeout, whatever timeout its connector used.\<close>

definition tcp_connect :: "Stream_Net \<Rightarrow> (Connection, Err) Result" where
  "tcp_connect N =
     (if sn_resolve N \<noteq> Ec_none then err (resolve_error (sn_resolve N))
      else if sn_connect N \<noteq> Ec_none then err (connect_error (sn_connect N))
      else ok \<lparr>cx_open = True, cx_timeout = kDefaultTimeout, cx_tls = False\<rparr>)"

definition ssl_connect :: "Stream_Net \<Rightarrow> string \<Rightarrow> (Connection, Err) Result" where
  "ssl_connect N host =
     (if sn_resolve N \<noteq> Ec_none then err (resolve_error (sn_resolve N))
      else if sn_connect N \<noteq> Ec_none then err (connect_error (sn_connect N))
      else if \<not> host_is_ip_literal host \<and> \<not> sn_sni N host then err tls_handshake_failed
      else if sn_tls_handshake N \<noteq> Ec_none then err tls_handshake_failed
      else ok \<lparr>cx_open = True, cx_timeout = kDefaultTimeout, cx_tls = True\<rparr>)"

section \<open>Lemmas\<close>

lemmas tcp_defs = tcp_async_request_def tcp_connect_tcp_def tcp_connect_tls_def send_raw_def send_raw_tls_def tcp_populate_response_def
lemmas ws_defs = ws_async_request_def connect_ws_def connect_wss_def send_message_def send_message_tls_def ws_populate_response_def

text \<open>A failed response has no status and no body, a good one the status 1; at most one message is written, the body.\<close>

definition stream_ok :: "NetRequest \<Rightarrow> stream_end \<Rightarrow> bool" where
  "stream_ok req r \<longleftrightarrow> (if ns_ec (fst r) = None then ns_status_code (fst r) = 1 \<and> snd r = [nr_body req]
     else ns_status_code (fst r) = 0 \<and> ns_body (fst r) = [] \<and> (snd r = [] \<or> snd r = [nr_body req]))"

lemma tcp_ok: "stream_ok req (tcp_async_request N req t c)" "length (ns_body (fst (tcp_async_request N req t c))) \<le> kDefaultRecvBufferSize"
  by (simp_all add: tcp_defs stream_ok_def stream_fail_def NetResponse_default_def Let_def)

lemma ws_ok: "stream_ok req (ws_async_request N req t c)"
  by (simp add: ws_defs stream_ok_def stream_fail_def NetResponse_default_def Let_def)

section \<open>Properties\<close>

text \<open>
  The stream clients answer every request once and consistently. The response either has an error, and then no
  status and no body, or none, and then the status 1; the body of the request is written at most once, and
  before every good response; a raw TCP response has at most 8192 bytes.
\<close>

theorem stream_clients_consistent:
  "stream_ok req (tcp_async_request N req t c) \<and> stream_ok req (ws_async_request N req t c)
   \<and> length (ns_body (fst (tcp_async_request N req t c))) \<le> 8192"
  using tcp_ok ws_ok by (simp add: kDefaultRecvBufferSize_def)

end
