(* ===== verification/Cli_Args.thy ===== *)
theory Cli_Args
  imports Scenario_Engine Auth_Provider
begin

text \<open>
  The command line of \<open>tools/main.cpp\<close>: the arguments and their parser, log levels, sizes and the
  authentication they ask for. \<open>None\<close> as the result of a size is the conversion of a floating-point number out of range, which C++ leaves undefined.
\<close>

section \<open>Values\<close>

datatype LogLevel = Log_trace | Log_debug | Log_info | Log_warn | Log_error

definition level_number :: "LogLevel \<Rightarrow> nat" where
  "level_number l = (case l of Log_trace \<Rightarrow> 0 | Log_debug \<Rightarrow> 1 | Log_info \<Rightarrow> 2 | Log_warn \<Rightarrow> 3 | Log_error \<Rightarrow> 4)"

definition parse_log_level :: "string \<Rightarrow> LogLevel" where
  "parse_log_level s =
     (let low = map tolower s
      in if low = ''trace'' then Log_trace
         else if low = ''debug'' then Log_debug
         else if low = ''info'' then Log_info
         else if low = ''warn'' \<or> low = ''warning'' then Log_warn
         else if low = ''err'' \<or> low = ''error'' then Log_error
         else Log_info)"

definition kDefaultMaxBody :: u64 where "kDefaultMaxBody = 100 * 1024 * 1024"

definition size_factor :: "char option \<Rightarrow> rat" where
  "size_factor sfx =
     (if sfx = Some (CHR ''k'') then 1024
      else if sfx = Some (CHR ''m'') then 1024 * 1024
      else if sfx = Some (CHR ''g'') then 1024 * 1024 * 1024
      else 1)"

definition rtrim :: "string \<Rightarrow> string" where
  "rtrim s = rev (dropWhile isspace (rev s))"

definition trim :: "string \<Rightarrow> string" where
  "trim s = rtrim (dropWhile isspace s)"

text \<open>\<open>SIZE_MAX\<close> as a \<open>double\<close> is \<open>2 ^ 64\<close>, so that this value itself passes the test before the conversion.\<close>

definition size_of_double :: "xdouble \<Rightarrow> u64 option" where
  "size_of_double base = (case base of
     NInf \<Rightarrow> Some kDefaultMaxBody
   | PInf \<Rightarrow> Some (- 1)
   | NaN \<Rightarrow> None
   | Fin b \<Rightarrow> if b < 0 then Some kDefaultMaxBody else if b > 2 ^ 64 then Some (- 1)
       else if b < 2 ^ 64 then Some (word_of_int (trunc_int b)) else None)"

definition parse_size_bytes :: "string \<Rightarrow> u64 option" where
  "parse_size_bytes s =
     (let v = trim s in
      if v = [] then Some kDefaultMaxBody
      else let (sfx, v) = (if \<not> isdigit (List.last v) then (Some (tolower (List.last v)), butlast v) else (None, v));
               v = rtrim v
           in if v = [] then Some kDefaultMaxBody
              else case stod v of
                Inl _ \<Rightarrow> Some kDefaultMaxBody
              | Inr base \<Rightarrow> size_of_double (if size_factor sfx = 1 then base else xmul base (size_factor sfx)))"

section \<open>Arguments\<close>

record CliArgs =
  ca_config :: string
  ca_target :: string
  ca_auth_type :: string
  ca_auth_token :: string
  ca_client_id :: string
  ca_client_secret :: string
  ca_token_endpoint :: string
  ca_vault_addr :: string
  ca_vault_token :: string
  ca_otlp_endpoint :: string
  ca_json_path :: string
  ca_init_preset :: string
  ca_init_output :: string
  ca_log_level_str :: string
  ca_max_body_str :: string
  ca_rps :: int
  ca_duration :: int
  ca_duration_set :: bool
  ca_help :: bool
  ca_version :: bool
  ca_verbose :: bool
  ca_error :: bool
  ca_dry_run :: bool
  ca_no_progress :: bool
  ca_log_level :: LogLevel
  ca_max_body_bytes :: u64

definition CliArgs_default :: CliArgs where
  "CliArgs_default = \<lparr>ca_config = [], ca_target = [], ca_auth_type = [], ca_auth_token = [], ca_client_id = [],
     ca_client_secret = [], ca_token_endpoint = [], ca_vault_addr = [], ca_vault_token = [], ca_otlp_endpoint = [],
     ca_json_path = [], ca_init_preset = [], ca_init_output = [], ca_log_level_str = [], ca_max_body_str = [],
     ca_rps = 100, ca_duration = 60, ca_duration_set = False, ca_help = False, ca_version = False, ca_verbose = False,
     ca_error = False, ca_dry_run = False, ca_no_progress = False, ca_log_level = Log_info, ca_max_body_bytes = kDefaultMaxBody\<rparr>"

text \<open>What an option does: a flag changes the arguments, a valued option takes the next value.\<close>

datatype Opt = Flag "CliArgs \<Rightarrow> CliArgs" | Valued "string \<Rightarrow> CliArgs \<Rightarrow> CliArgs option"

definition stored :: "(string \<Rightarrow> CliArgs \<Rightarrow> CliArgs) \<Rightarrow> Opt" where
  "stored f = Valued (\<lambda>v a. Some (f v a))"

definition int_option :: "int \<Rightarrow> int \<Rightarrow> (int \<Rightarrow> CliArgs \<Rightarrow> CliArgs) \<Rightarrow> string \<Rightarrow> CliArgs \<Rightarrow> CliArgs" where
  "int_option lo hi set_it s a = (case stoi s of
     Inl _ \<Rightarrow> a\<lparr>ca_error := True\<rparr>
   | Inr v \<Rightarrow> if v < lo \<or> v > hi then a\<lparr>ca_error := True\<rparr> else set_it v a)"

definition cli_option :: "string \<Rightarrow> Opt" where
  "cli_option key =
     (if key = ''--config'' \<or> key = ''-c'' then stored (\<lambda>v a. a\<lparr>ca_config := v\<rparr>)
      else if key = ''--target'' \<or> key = ''-t'' then stored (\<lambda>v a. a\<lparr>ca_target := v\<rparr>)
      else if key = ''--rps'' \<or> key = ''-r'' then stored (int_option 1 1000000 (\<lambda>n a. a\<lparr>ca_rps := n\<rparr>))
      else if key = ''--duration'' \<or> key = ''-d'' then
        stored (\<lambda>v a. int_option 0 315360000 (\<lambda>n a. a\<lparr>ca_duration := n\<rparr>) v (a\<lparr>ca_duration_set := True\<rparr>))
      else if key = ''--auth-type'' then stored (\<lambda>v a. a\<lparr>ca_auth_type := v\<rparr>)
      else if key = ''--auth-token'' then stored (\<lambda>v a. a\<lparr>ca_auth_token := v\<rparr>)
      else if key = ''--client-id'' then stored (\<lambda>v a. a\<lparr>ca_client_id := v\<rparr>)
      else if key = ''--client-secret'' then stored (\<lambda>v a. a\<lparr>ca_client_secret := v\<rparr>)
      else if key = ''--token-endpoint'' then stored (\<lambda>v a. a\<lparr>ca_token_endpoint := v\<rparr>)
      else if key = ''--vault-addr'' then stored (\<lambda>v a. a\<lparr>ca_vault_addr := v\<rparr>)
      else if key = ''--vault-token'' then stored (\<lambda>v a. a\<lparr>ca_vault_token := v\<rparr>)
      else if key = ''--otlp-endpoint'' then stored (\<lambda>v a. a\<lparr>ca_otlp_endpoint := v\<rparr>)
      else if key = ''--verbose'' then Flag (\<lambda>a. a\<lparr>ca_verbose := True, ca_log_level := Log_debug\<rparr>)
      else if key = ''--log-level'' then stored (\<lambda>v a. a\<lparr>ca_log_level_str := v, ca_log_level := parse_log_level v\<rparr>)
      else if key = ''--json'' then stored (\<lambda>v a. a\<lparr>ca_json_path := v\<rparr>)
      else if key = ''--dry-run'' \<or> key = ''--validate-config'' then Flag (\<lambda>a. a\<lparr>ca_dry_run := True\<rparr>)
      else if key = ''--no-progress'' then Flag (\<lambda>a. a\<lparr>ca_no_progress := True\<rparr>)
      else if key = ''--init'' then stored (\<lambda>v a. a\<lparr>ca_init_preset := v\<rparr>)
      else if key = ''--output'' \<or> key = ''-o'' then stored (\<lambda>v a. a\<lparr>ca_init_output := v\<rparr>)
      else if key = ''--max-body'' then
        Valued (\<lambda>v a. map_option (\<lambda>n. a\<lparr>ca_max_body_str := v, ca_max_body_bytes := n\<rparr>) (parse_size_bytes v))
      else Flag (\<lambda>a. a\<lparr>ca_error := True\<rparr>))"

text \<open>The value of an option: behind its equals sign, or the next argument, or nothing.\<close>

definition split_key :: "string \<Rightarrow> string \<times> string option" where
  "split_key arg = (case find_char (CHR ''='') arg of Some eq \<Rightarrow> (take eq arg, Some (drop (Suc eq) arg)) | None \<Rightarrow> (arg, None))"

fun next_value :: "string option \<Rightarrow> string list \<Rightarrow> string \<times> string list" where
  "next_value (Some v) rest = (v, rest)"
| "next_value None (a # rest) = (a, rest)"
| "next_value None [] = ([], [])"

lemma next_value_length: "length (snd (next_value v rest)) \<le> length rest"
  by (cases "(v, rest)" rule: next_value.cases) simp_all

function parse_from :: "CliArgs \<Rightarrow> string list \<Rightarrow> CliArgs option" where
  "parse_from a [] = Some a"
| "parse_from a (arg # rest) =
     (if arg = ''--help'' \<or> arg = ''-h'' then Some (a\<lparr>ca_help := True\<rparr>)
      else if arg = ''--version'' \<or> arg = ''-v'' then Some (a\<lparr>ca_version := True\<rparr>)
      else case cli_option (fst (split_key arg)) of
        Flag f \<Rightarrow> parse_from (f a) rest
      | Valued f \<Rightarrow> (case f (fst (next_value (snd (split_key arg)) rest)) a of
            None \<Rightarrow> None
          | Some a \<Rightarrow> parse_from a (snd (next_value (snd (split_key arg)) rest))))"
  by pat_completeness auto
termination
  by (relation "measure (length \<circ> snd)") (auto simp: less_Suc_eq_le next_value_length)

text \<open>\<open>argv\<close> begins with the program's name.\<close>

definition parse_args :: "string list \<Rightarrow> CliArgs option" where
  "parse_args argv = parse_from CliArgs_default (drop 1 argv)"

section \<open>Authentication\<close>

definition AuthConfig_default :: AuthConfig where
  "AuthConfig_default = \<lparr>ac_type = Auth_none, ac_api_key = [], ac_token = [], ac_client_id = [], ac_client_secret = [],
     ac_token_endpoint = [], ac_cert_path = [], ac_key_path = [], ac_ca_path = []\<rparr>"

definition build_auth_config :: "CliArgs \<Rightarrow> ScenarioConfig option \<Rightarrow> AuthConfig" where
  "build_auth_config a cfg =
     (if ca_auth_type a \<noteq> [] then
        (if ca_auth_type a = ''bearer'' \<and> ca_auth_token a \<noteq> [] then
           AuthConfig_default\<lparr>ac_type := Auth_bearer, ac_token := ca_auth_token a\<rparr>
         else if ca_auth_type a = ''apikey'' \<and> ca_auth_token a \<noteq> [] then
           AuthConfig_default\<lparr>ac_type := Auth_api_key, ac_api_key := ca_auth_token a\<rparr>
         else if ca_auth_type a = ''oauth2'' then
           AuthConfig_default\<lparr>ac_type := Auth_oauth2, ac_client_id := ca_client_id a, ac_client_secret := ca_client_secret a,
             ac_token_endpoint := ca_token_endpoint a\<rparr>
         else AuthConfig_default)
      else case cfg of
        Some c \<Rightarrow> if sa_type (authentication c) = ''oauth2'' then
             AuthConfig_default\<lparr>ac_type := Auth_oauth2, ac_client_id := sa_client_id (authentication c),
               ac_client_secret := sa_client_secret (authentication c), ac_token_endpoint := sa_token_endpoint (authentication c)\<rparr>
           else AuthConfig_default
      | None \<Rightarrow> AuthConfig_default)"

section \<open>Lemmas\<close>

text \<open>An option keeps what holds of the arguments.\<close>

fun opt_keeps :: "(CliArgs \<Rightarrow> bool) \<Rightarrow> Opt \<Rightarrow> bool" where
  "opt_keeps P (Flag f) \<longleftrightarrow> (\<forall>a. P a \<longrightarrow> P (f a))"
| "opt_keeps P (Valued f) \<longleftrightarrow> (\<forall>v a a'. P a \<longrightarrow> f v a = Some a' \<longrightarrow> P a')"

lemma opt_keeps_if: "opt_keeps P x \<Longrightarrow> opt_keeps P y \<Longrightarrow> opt_keeps P (if b then x else y)"
  by simp

lemma opt_keeps_stored: "(\<And>v a. P a \<Longrightarrow> P (f v a)) \<Longrightarrow> opt_keeps P (stored f)"
  by (simp add: stored_def)

definition args_in_range :: "CliArgs \<Rightarrow> bool" where
  "args_in_range a \<longleftrightarrow> 1 \<le> ca_rps a \<and> ca_rps a \<le> 1000000 \<and> 0 \<le> ca_duration a \<and> ca_duration a \<le> 315360000"

lemma cli_option_keeps: "opt_keeps args_in_range (cli_option key)"
  unfolding cli_option_def
  by (intro opt_keeps_if opt_keeps_stored) (auto simp: args_in_range_def int_option_def split: sum.split)

lemma parse_from_keeps:
  assumes "\<And>key. opt_keeps P (cli_option key)" "\<And>a b c. P a \<Longrightarrow> P (a\<lparr>ca_help := b\<rparr>) \<and> P (a\<lparr>ca_version := c\<rparr>)"
  shows "P a \<Longrightarrow> parse_from a argv = Some a' \<Longrightarrow> P a'"
proof (induction a argv rule: parse_from.induct)
  case (2 a arg rest)
  show ?case
  proof (cases "cli_option (fst (split_key arg))")
    case (Flag f)
    then have "P (f a)" using assms(1) [of "fst (split_key arg)"] 2(3) by simp
    then show ?thesis using 2 Flag assms(2) by (auto split: if_splits)
  next
    case (Valued f)
    then have "P b" if "f v a = Some b" for v b using assms(1) [of "fst (split_key arg)"] 2(3) that by simp
    then show ?thesis using 2 Valued assms(2) by (auto split: if_splits option.splits)
  qed
qed simp

lemma split_key_plain: "CHR ''='' \<notin> set key \<Longrightarrow> split_key key = (key, None)"
  by (simp add: split_key_def find_char_None [THEN iffD2])

lemma split_key_value: "CHR ''='' \<notin> set key \<Longrightarrow> split_key (key @ ''='' @ v) = (key, Some v)"
proof -
  assume "CHR ''='' \<notin> set key"
  then have "find_char (CHR ''='') (key @ CHR ''='' # v) = Some (length key)" by (simp add: find_char_Some)
  then show ?thesis by (simp add: split_key_def)
qed

section \<open>Properties\<close>

text \<open>
  C35: Whatever the command line, the arguments are in range: the rate from 1 to a million requests per second
  and the duration from 0 to 315360000 seconds. A value out of range sets the error flag and leaves the old one.
\<close>

theorem cli_args_in_range:
  assumes "parse_args argv = Some a"
  shows "1 \<le> ca_rps a \<and> ca_rps a \<le> 1000000 \<and> 0 \<le> ca_duration a \<and> ca_duration a \<le> 315360000"
proof -
  have "args_in_range CliArgs_default" by (simp add: args_in_range_def CliArgs_default_def)
  then have "args_in_range a"
    using assms unfolding parse_args_def by (rule parse_from_keeps [OF cli_option_keeps, rotated]) (simp add: args_in_range_def)
  then show ?thesis by (simp only: args_in_range_def)
qed

theorem cli_args_in_range_witness:
  "\<exists>a. parse_args [''volley'', ''--dry-run''] = Some a \<and> ca_rps a \<le> 1000000"
proof -
  have "cli_option ''--dry-run'' = Flag (\<lambda>a. a\<lparr>ca_dry_run := True\<rparr>)" by (simp add: cli_option_def)
  then have "parse_args [''volley'', ''--dry-run''] = Some (CliArgs_default\<lparr>ca_dry_run := True\<rparr>)"
    using split_key_plain [of "''--dry-run''"] by (simp add: parse_args_def)
  with cli_args_in_range [OF this] show ?thesis by blast
qed

text \<open>
  The two ways to give an option its value mean the same: \<open>--key=value\<close> and \<open>--key value\<close> leave the
  same arguments, at every place of the command line and for every option that takes a value.
\<close>

theorem cli_value_spellings:
  assumes "cli_option key = Valued f" "CHR ''='' \<notin> set key"
  shows "parse_from a ((key @ ''='' @ v) # rest) = parse_from a (key # v # rest)"
proof -
  have h: "key \<notin> {''--help'', ''-h'', ''--version'', ''-v''}" using assms(1) by (auto simp: cli_option_def)
  have e: "key @ ''='' @ v \<noteq> w" if "CHR ''='' \<notin> set w" for w using that by auto
  have "key @ ''='' @ v \<notin> {''--help'', ''-h'', ''--version'', ''-v''}"
    using e [of "''--help''"] e [of "''-h''"] e [of "''--version''"] e [of "''-v''"] by simp
  with h assms(1) show ?thesis by (cases "f v a") (simp_all add: split_key_plain [OF assms(2)] split_key_value [OF assms(2), simplified])
qed

theorem cli_value_spellings_witness:
  "parse_from CliArgs_default [''--config'' @ ''='' @ ''x.yaml''] = parse_from CliArgs_default [''--config'', ''x.yaml'']"
  by (rule cli_value_spellings [where f = "\<lambda>v a. Some (a\<lparr>ca_config := v\<rparr>)"]) (simp_all add: cli_option_def stored_def)

text \<open>
  An authentication type that is not one of the three, or one without its token, is not an error: the load is
  generated without any authentication.
\<close>

theorem auth_type_ignored:
  assumes "ca_auth_type a \<noteq> []" "ca_auth_type a \<noteq> ''oauth2''"
    and "ca_auth_token a = [] \<or> ca_auth_type a \<noteq> ''bearer'' \<and> ca_auth_type a \<noteq> ''apikey''"
  shows "ac_type (build_auth_config a cfg) = Auth_none"
  using assms by (auto simp: build_auth_config_def AuthConfig_default_def)

theorem auth_type_ignored_witness:
  "ac_type (build_auth_config (CliArgs_default\<lparr>ca_auth_type := ''bearer''\<rparr>) None) = Auth_none"
  by (rule auth_type_ignored) (simp_all add: CliArgs_default_def)

end
