(* ===== verification/Cli_Templates.thy ===== *)
theory Cli_Templates
  imports Volley_String
begin

text \<open>
  The scenario templates that \<open>--init\<close> writes, as the raw strings of \<open>tools/main.cpp\<close> have them.
\<close>

definition unlines :: "string list \<Rightarrow> string" where
  "unlines ls = concat (map (\<lambda>l. l @ [CHR 0x0A]) ls)"

definition kTplMinimal :: string where
  \<open>kTplMinimal = unlines
    [''# @generated by volley --init=minimal'',
     ''# Minimal working load scenario. See README for field reference.'',
     ''version: "1.0"                         # Schema version (string, required)'',
     ''test_id: "minimal-smoke-${USER:-anon}" # Unique test identifier (string, required)'',
     [],
     ''target:'',
     ''  base_url: ${TARGET_URL:-http://127.0.0.1:8080}  # Target host + base path (required)'',
     ''  protocol: http1.1                   # Protocol: http1.1 | tcp | websocket'',
     ''  tls:'',
     ''    verify: true                      # Verify TLS certificates (bool)'',
     [],
     ''# Load stages. Remove this block to use CLI --rps/--duration as a single default stage.'',
     ''load_profile:'',
     ''  - stage: steady                     # Human-readable stage name'',
     ''    duration: 30s                     # Duration: Ns / Nm / Nh'',
     ''    target_rps: 100                   # Target requests/second for this stage'',
     ''    concurrent_users: 10              # Number of parallel worker threads'',
     [],
     ''scenarios:'',
     ''  - name: "health_check"              # Scenario name for reporting'',
     ''    weight: 100                        # Selection weight: 0..1000 (higher = picked more often)'',
     ''    steps:'',
     ''      - http:'',
     ''          method: GET                 # HTTP method: GET | POST | PUT | DELETE | PATCH | HEAD | OPTIONS'',
     ''          path: "/health"             # Request path'',
     ''          assertions:                 # Optional: fail request unless every assertion passes'',
     ''            - status_code == 200'',
     ''            - latency < 500ms'',
     [],
     ''sla:'',
     ''  error_rate: "< 1%"                  # Max allowed error percentage (0-100)'',
     ''  p99_latency: "< 1000ms"             # Max allowed P99 response latency'']\<close>

definition kTplEcommerce :: string where
  \<open>kTplEcommerce = unlines
    [''# @generated by volley --init=ecommerce'',
     ''version: "1.0"'',
     ''test_id: "ecommerce-checkout-${BUILD_ID:-local}"'',
     [],
     ''target:'',
     ''  base_url: ${TARGET_URL:-http://gateway:8080}'',
     ''  protocol: http1.1'',
     ''  tls:'',
     ''    verify: true'',
     [],
     ''authentication:'',
     ''  type: oauth2'',
     ''  token_endpoint: ${AUTH_URL:-https://auth.internal/oauth/token}'',
     ''  client_credentials:'',
     ''    client_id: ${CLIENT_ID}'',
     ''    client_secret: ${CLIENT_SECRET}'',
     [],
     ''load_profile:'',
     ''  - stage: rampup'',
     ''    duration: 5m'',
     ''    target_rps: 1000'',
     ''    concurrent_users: 10'',
     ''  - stage: steady'',
     ''    duration: 30m'',
     ''    target_rps: 5000'',
     ''    concurrent_users: 50'',
     ''  - stage: spike'',
     ''    duration: 2m'',
     ''    target_rps: 15000'',
     ''    concurrent_users: 100'',
     [],
     ''scenarios:'',
     ''  - name: "browse_products"'',
     ''    weight: 60'',
     ''    steps:'',
     ''      - http:'',
     ''          method: GET'',
     ''          path: "/api/v1/products"'',
     ''          assertions: [status_code == 200, latency < 200ms]'',
     ''      - http:'',
     ''          method: GET'',
     ''          path: "/api/v1/products/${PRODUCT_ID:-42}"'',
     ''          assertions: [status_code == 200, latency < 250ms]'',
     ''  - name: "user_checkout_flow"'',
     ''    weight: 40'',
     ''    steps:'',
     ''      - http:'',
     ''          method: POST'',
     ''          path: "/api/v1/cart"'',
     ''          body: '' @ [CHR 0x27] @ ''{"item_id": "${ITEM_ID:-1001}","qty":1}'' @ [CHR 0x27],
     ''          headers: {Content-Type: "application/json"}'',
     ''          assertions: [status_code == 201, latency < 300ms]'',
     ''      - http:'',
     ''          method: POST'',
     ''          path: "/api/v1/checkout"'',
     ''          body: '' @ [CHR 0x27] @ ''{"payment_method":"card"}'' @ [CHR 0x27],
     ''          headers: {Content-Type: "application/json"}'',
     ''          assertions: [status_code == 200, latency < 500ms]'',
     [],
     ''observability:'',
     ''  metrics:'',
     ''    prometheus:'',
     ''      enabled: true'',
     ''      port: 9095'',
     ''  tracing:'',
     ''    otlp_endpoint: ${OTLP_ENDPOINT:-http://jaeger:4318}'',
     ''    sample_rate: 0.1'',
     ''  logging:'',
     ''    level: info'',
     ''    format: json'',
     [],
     ''sla:'',
     ''  error_rate: "< 0.1%"'',
     ''  p99_latency: "< 500ms"'']\<close>

definition kTplAuth :: string where
  \<open>kTplAuth = unlines
    [''# @generated by volley --init=auth'',
     ''version: "1.0"'',
     ''test_id: "auth-flow-${CI_BUILD:-dev}"'',
     [],
     ''target:'',
     ''  base_url: ${TARGET_URL:-http://api.internal}'',
     ''  tls: { verify: true }'',
     [],
     ''load_profile:'',
     ''  - stage: steady'',
     ''    duration: 10m'',
     ''    target_rps: 500'',
     ''    concurrent_users: 20'',
     [],
     ''scenarios:'',
     ''  - name: "login_and_profile"'',
     ''    weight: 100'',
     ''    steps:'',
     ''      - http:'',
     ''          method: POST'',
     ''          path: "/oauth/token"'',
     ''          body: '' @ [CHR 0x27] @ ''grant_type=password&username=${TEST_USER}&password=${TEST_PASS}'' @ [CHR 0x27],
     ''          headers: {Content-Type: "application/x-www-form-urlencoded"}'',
     ''          assertions: [status_code == 200]'',
     ''      - http:'',
     ''          method: GET'',
     ''          path: "/api/v1/me/profile"'',
     ''          assertions: [status_code == 200, latency < 150ms]'',
     ''      - http:'',
     ''          method: POST'',
     ''          path: "/api/v1/logout"'',
     ''          assertions: [status_code == 204]'',
     [],
     ''sla: { error_rate: "< 1%", p99_latency: "< 1000ms" }'']\<close>

definition kTplSpike :: string where
  \<open>kTplSpike = unlines
    [''# @generated by volley --init=spike'',
     ''version: "1.0"'',
     ''test_id: "spike-traffic-test"'',
     [],
     ''target:'',
     ''  base_url: ${TARGET_URL:-http://edge-lb:80}'',
     [],
     ''load_profile:'',
     ''  - stage: baseline duration=2m target_rps=100 concurrent_users=5'',
     ''  - stage: spike1   duration=1m target_rps=5000 concurrent_users=200'',
     ''  - stage: recovery duration=2m target_rps=500 concurrent_users=30'',
     ''  - stage: spike2   duration=1m target_rps=20000 concurrent_users=500'',
     ''  - stage: cool     duration=5m target_rps=200 concurrent_users=10'',
     [],
     ''scenarios:'',
     ''  - name: "spike_get"'',
     ''    weight: 90'',
     ''    steps:'',
     ''      - http:'',
     ''          method: GET'',
     ''          path: ${SPIKE_PATH:-/api/v1/items}'',
     ''          headers: {Accept-Encoding: "gzip,br"}'',
     ''          assertions: [status_code == 200]'',
     ''  - name: "spike_post"'',
     ''    weight: 10'',
     ''    steps:'',
     ''      - http:'',
     ''          method: POST'',
     ''          path: "/api/v1/events"'',
     ''          body: '' @ [CHR 0x27] @ ''{"ts":0,"evt":"bench"}'' @ [CHR 0x27],
     ''          headers: {Content-Type: "application/json"}'',
     ''          assertions: [status_code == 202]'',
     [],
     ''sla: { error_rate: "< 5%", p99_latency: "< 5000ms" }'']\<close>

definition kTemplates :: "(string \<times> string) list" where
  "kTemplates = [(''minimal'', kTplMinimal), (''ecommerce'', kTplEcommerce), (''auth'', kTplAuth), (''spike'', kTplSpike)]"

end
