(* ===== verification/Cli_Main.thy ===== *)
theory Cli_Main
  imports Cli_Args Cli_Templates Engine_Run
begin

text \<open>
  \<open>main\<close> of \<open>tools/main.cpp\<close> with its modes: writing a template, the dry run, direct mode and scenario mode. What lies
  outside is the argument \<open>W\<close>: YAML, environment, files, the token server and the clock, \<open>cw_now W i\<close> being its \<open>i\<close>-th reading. What the workers of a run
  recorded is the argument \<open>D\<close> for direct mode and the function \<open>R\<close> of the prepared engine for scenario mode. Output is not modelled except for the JSON report.
\<close>

section \<open>Exit codes\<close>

datatype ExitCode = Exit_ok | ConfigOrUsageError | SlaFailed | RuntimeError

definition exit_number :: "ExitCode \<Rightarrow> nat" where
  "exit_number c = (case c of Exit_ok \<Rightarrow> 0 | ConfigOrUsageError \<Rightarrow> 1 | SlaFailed \<Rightarrow> 2 | RuntimeError \<Rightarrow> 3)"

text \<open>An exception that leaves \<open>main\<close> terminates the program.\<close>

datatype Main_End = Exits ExitCode | Terminates cpp_exn | Undefined_behaviour

record Cli_World =
  cw_yaml :: Yaml_Lib
  cw_getenv :: "string \<Rightarrow> string option"
  cw_file :: "string \<Rightarrow> string option"
  cw_writable :: "string \<Rightarrow> bool"
  cw_net :: Post_Net
  cw_now :: "nat \<Rightarrow> int"

section \<open>Loading a scenario\<close>

definition load_engine :: "Cli_World \<Rightarrow> string \<Rightarrow> Main_End + ScenarioEngine" where
  "load_engine W path = (case ScenarioEngine_new path (cw_now W 0) of
     Inl x \<Rightarrow> Inl (Terminates x)
   | Inr e \<Rightarrow>
       (case engine_load_config (cw_yaml W) (cw_getenv W) (cw_file W path) e of
          (Inr True, e) \<Rightarrow> Inr e
        | (Inr False, _) \<Rightarrow> Inl (Exits ConfigOrUsageError)
        | (Inl (Throws x), _) \<Rightarrow> Inl (Terminates x)
        | (Inl _, _) \<Rightarrow> Inl Undefined_behaviour))"

definition check_engine :: "Cli_World \<Rightarrow> string \<Rightarrow> Main_End + ScenarioEngine" where
  "check_engine W path = (case load_engine W path of
     Inl r \<Rightarrow> Inl r
   | Inr e \<Rightarrow>
       let (valid, e) = engine_validate e
       in if \<not> valid then Inl (Exits ConfigOrUsageError)
          else let (valid, e) = engine_validate_schema e
               in if \<not> valid then Inl (Exits ConfigOrUsageError) else Inr e)"

definition do_dry_run :: "Cli_World \<Rightarrow> string \<Rightarrow> Main_End" where
  "do_dry_run W path = (case check_engine W path of Inl r \<Rightarrow> r | Inr _ \<Rightarrow> Exits Exit_ok)"

text \<open>The file written, if any, and the end. The template is read back and validated; \<open>validate()\<close> is not called.\<close>

definition do_init :: "Cli_World \<Rightarrow> CliArgs \<Rightarrow> (string \<times> string) option \<times> Main_End" where
  "do_init W a = (case map_of kTemplates (map tolower (ca_init_preset a)) of
     None \<Rightarrow> (None, Exits ConfigOrUsageError)
   | Some contents \<Rightarrow>
       let out_path = (if ca_init_output a = [] then ''volley-scenario.yaml'' else ca_init_output a)
       in if \<not> cw_writable W out_path then (None, Exits ConfigOrUsageError)
          else (Some (out_path, contents),
            case load_engine (W\<lparr>cw_file := (cw_file W)(out_path := Some contents)\<rparr>) out_path of
              Inl r \<Rightarrow> r
            | Inr e \<Rightarrow> if fst (engine_validate_schema e) then Exits Exit_ok else Exits ConfigOrUsageError))"

section \<open>Direct mode\<close>

definition direct_port :: "UrlParts \<Rightarrow> u16 option" where
  "direct_port u = (case (if up_port u = [] then Inr (if up_tls u then 443 else 80) else stol (up_port u)) of
     Inl _ \<Rightarrow> None
   | Inr p \<Rightarrow> if p \<le> 0 \<or> p > 65535 then None else Some (word_of_int p))"

definition direct_concurrency :: "int \<Rightarrow> nat" where
  "direct_concurrency rps =
     (let c = nat (min (rps div 10) 64); c = (if c = 0 then 1 else c) in if c > 100000 then 100000 else c)"

definition direct_end :: "int \<Rightarrow> int \<Rightarrow> int" where
  "direct_end test_start duration = (if duration > 0 then test_start + seconds duration else tp_max)"

text \<open>The slots of worker \<open>w\<close> and the times of its attempts, as in the engine, with \<open>g_stop_requested\<close> for its flag; \<open>passes\<close> are what its loop
  reads of the clock and of the flag.\<close>

definition direct_fires :: "int \<Rightarrow> int \<Rightarrow> nat \<Rightarrow> int \<Rightarrow> Pass_Obs list \<Rightarrow> (int \<times> Pass_Obs) list" where
  "direct_fires rps ending w start passes =
     (let users = direct_concurrency rps; period = slot_period users (word_of_int rps)
      in worker_fires period ending True (start + period * int w div int users) passes)"

definition direct_request :: "UrlParts \<Rightarrow> u16 \<Rightarrow> (string \<times> string) list \<Rightarrow> NetRequest" where
  "direct_request u port headers = NetRequest_default\<lparr>nr_method := ''GET'', nr_path := up_path u, nr_host := up_host u,
     nr_port := port, nr_use_tls := up_tls u, nr_headers := headers\<rparr>"

definition direct_obs :: "Err option \<times> NetResponse \<Rightarrow> Obs" where
  "direct_obs r = (case r of (ec, resp) \<Rightarrow>
     \<lparr>ob_status = (if ec \<noteq> None then 0 else ns_status_code resp), ob_latency = ns_latency resp,
      ob_sent = 0, ob_received = of_nat (length (ns_body resp))\<rparr>)"

definition direct_on_response :: "Err option \<times> NetResponse \<Rightarrow> MetricsCollector \<Rightarrow> MetricsCollector option" where
  "direct_on_response r m = mc_record (direct_obs r) m"

definition direct_sla :: "MetricsCollector \<Rightarrow> bool" where
  "direct_sla m \<longleftrightarrow> error_rate m \<le> 10 \<and> rm_p99_latency_us (snapshot m) \<le> 5 * 1000 * 1000"

text \<open>\<open>D\<close> has the number of failed workers and the metrics they recorded.\<close>

definition direct_exit :: "nat \<times> MetricsCollector \<Rightarrow> ExitCode" where
  "direct_exit D = (if fst D > 0 then RuntimeError else if direct_sla (snd D) then Exit_ok else SlaFailed)"

definition run_direct :: "nat \<times> MetricsCollector \<Rightarrow> CliArgs \<Rightarrow> ExitCode" where
  "run_direct D a =
     (let u = parse_url (ca_target a)
      in if ca_rps a \<le> 0 then ConfigOrUsageError
         else if up_host u = [] then ConfigOrUsageError
         else if direct_port u = None then ConfigOrUsageError
         else direct_exit D)"

section \<open>Scenario mode\<close>

text \<open>What the callback of \<open>main\<close> records for a response.\<close>

definition cli_obs :: "HttpStep \<times> NetResponse \<Rightarrow> Obs" where
  "cli_obs r = (case r of (step, resp) \<Rightarrow>
     \<lparr>ob_status = (if ns_status_code resp \<noteq> 0 \<and> \<not> evaluate_assertions step resp then 0 else ns_status_code resp),
      ob_latency = ns_latency resp, ob_sent = of_nat (length (hs_body step)), ob_received = of_nat (length (ns_body resp))\<rparr>)"

definition cli_on_response :: "HttpStep \<times> NetResponse \<Rightarrow> MetricsCollector \<Rightarrow> MetricsCollector option" where
  "cli_on_response r m = mc_record (cli_obs r) m"

definition prepare_engine :: "CliArgs \<Rightarrow> int \<Rightarrow> int \<Rightarrow> ScenarioEngine \<Rightarrow> cpp_exn + ScenarioEngine" where
  "prepare_engine a now now' e =
     exn_bind (if ca_rps a > 0 then set_target_rps (word_of_int (ca_rps a)) now now' e else Inr e) (\<lambda>e.
       Inr (if ca_duration_set a \<and> ca_duration a > 0 then set_max_duration (ca_duration a * 1000) e else e))"

text \<open>\<open>r\<close> is an exception of the run, or the engine after it and the metrics recorded.\<close>

definition scenario_exit :: "cpp_exn + (ScenarioEngine \<times> MetricsCollector) \<Rightarrow> ExitCode" where
  "scenario_exit r = (case r of
     Inl _ \<Rightarrow> RuntimeError
   | Inr (e, m) \<Rightarrow> if run_failed e then RuntimeError else if check_sla e m then Exit_ok else SlaFailed)"

text \<open>The stage that the progress line names, from the elapsed seconds.\<close>

fun stage_at :: "u64 \<Rightarrow> u64 \<Rightarrow> nat \<Rightarrow> Stage list \<Rightarrow> nat option" where
  "stage_at elapsed_ms acc i [] = None"
| "stage_at elapsed_ms acc i (s # ss) =
     (let acc = acc + word_of_int (max 1 (stage_duration s))
      in if elapsed_ms < acc then Some i else stage_at elapsed_ms acc (Suc i) ss)"

definition progress_stage :: "int \<Rightarrow> Stage list \<Rightarrow> nat \<times> string" where
  "progress_stage elapsed_s ss =
     (if ss = [] then (0, ''default'')
      else case stage_at (word_of_int elapsed_s * 1000) 0 0 ss of
        Some i \<Rightarrow> (i, stage_name (ss ! i))
      | None \<Rightarrow> (length ss - 1, stage_name (List.last ss)))"

section \<open>The report\<close>

datatype Report = R_num u64 | R_int int | R_real rat | R_str string | R_bool bool | R_obj "(string \<times> Report) list"

definition snapshot_to_json :: "RequestMetrics \<Rightarrow> Report" where
  "snapshot_to_json m = R_obj
     [(''total_requests'', R_num (rm_total_requests m)), (''successful_requests'', R_num (rm_successful_requests m)),
      (''failed_requests'', R_num (rm_failed_requests m)), (''total_bytes_sent'', R_num (rm_total_bytes_sent m)),
      (''total_bytes_received'', R_num (rm_total_bytes_received m)), (''mean_latency_us'', R_real (rm_mean_latency_us m)),
      (''min_latency_us'', R_num (word_of_int (rm_min_latency m))), (''max_latency_us'', R_num (word_of_int (rm_max_latency m))),
      (''p95_latency_us'', R_num (rm_p95_latency_us m)), (''p99_latency_us'', R_num (rm_p99_latency_us m))]"

definition results_json :: "MetricsCollector \<Rightarrow> int \<Rightarrow> int \<Rightarrow> string \<Rightarrow> bool \<Rightarrow> CliArgs \<Rightarrow> int \<Rightarrow> Report" where
  "results_json m now elapsed test_name sla_passed a started_ms = R_obj
     [(''version'', R_str ''1.1.0''), (''tool'', R_str ''volley''), (''test_id'', R_str test_name), (''elapsed_s'', R_int elapsed),
      (''started_at'', R_str (int_dec started_ms)), (''target_rps'', R_num (word_of_int (ca_rps a))),
      (''duration_s'', R_int (ca_duration a)), (''sla_passed'', R_bool sla_passed), (''metrics'', snapshot_to_json (snapshot m)),
      (''actual_rps'', R_real (requests_per_second now m)), (''error_rate_pct'', R_real (error_rate m))]"

section \<open>The program\<close>

definition setup_auth :: "'j Auth_Json \<Rightarrow> Cli_World \<Rightarrow> AuthConfig \<Rightarrow> bool" where
  "setup_auth J W cfg \<longleftrightarrow> ac_type cfg = Auth_none \<or> \<not> isl (AuthProvider_new J (cw_net W) (cw_now W 1) cfg)"

definition main_scenario ::
  "'j Auth_Json \<Rightarrow> Cli_World \<Rightarrow> (ScenarioEngine \<Rightarrow> cpp_exn + (ScenarioEngine \<times> MetricsCollector)) \<Rightarrow> CliArgs \<Rightarrow> Main_End" where
  "main_scenario J W R a = (case check_engine W (ca_config a) of
     Inl r \<Rightarrow> r
   | Inr e \<Rightarrow>
       if \<not> setup_auth J W (build_auth_config a (Some (en_config e))) then Exits ConfigOrUsageError
       else (case prepare_engine a (cw_now W 2) (cw_now W 3) e of
               Inl x \<Rightarrow> Terminates x
             | Inr e \<Rightarrow> Exits (scenario_exit (R e))))"

definition main_run ::
  "'j Auth_Json \<Rightarrow> Cli_World \<Rightarrow> (ScenarioEngine \<Rightarrow> cpp_exn + (ScenarioEngine \<times> MetricsCollector)) \<Rightarrow> nat \<times> MetricsCollector
     \<Rightarrow> CliArgs \<Rightarrow> Main_End" where
  "main_run J W R D a =
     (if ca_error a then Exits ConfigOrUsageError
      else if ca_help a then Exits Exit_ok
      else if ca_version a then Exits Exit_ok
      else if ca_init_preset a \<noteq> [] then snd (do_init W a)
      else if ca_dry_run a then (if ca_config a = [] then Exits ConfigOrUsageError else do_dry_run W (ca_config a))
      else if ca_config a \<noteq> [] then main_scenario J W R a
      else if ca_target a = [] then Exits ConfigOrUsageError
      else if \<not> setup_auth J W (build_auth_config a None) then Exits ConfigOrUsageError
      else Exits (run_direct D a))"

definition cli_main ::
  "'j Auth_Json \<Rightarrow> Cli_World \<Rightarrow> (ScenarioEngine \<Rightarrow> cpp_exn + (ScenarioEngine \<times> MetricsCollector)) \<Rightarrow> nat \<times> MetricsCollector
     \<Rightarrow> string list \<Rightarrow> Main_End" where
  "cli_main J W R D argv = (case parse_args argv of None \<Rightarrow> Undefined_behaviour | Some a \<Rightarrow> main_run J W R D a)"

section \<open>Lemmas\<close>

interpretation cli_rec: request_recorder mc_inv cli_on_response mc_view cli_obs
  by unfold_locales (simp add: cli_on_response_def mc.rec_ok)

interpretation direct_rec: request_recorder mc_inv direct_on_response mc_view direct_obs
  by unfold_locales (simp add: direct_on_response_def mc.rec_ok)

lemma load_engine_ok:
  assumes "load_engine W path = Inr e"
  shows "en_worker_failures e = 0" "en_config_path e = path"
  using assms by (auto simp: load_engine_def ScenarioEngine_new_def engine_load_config_def Let_def TokenBucket_new_def
      split: sum.splits prod.splits bool.splits Parse_End.splits if_splits)

lemma check_engine_ok:
  assumes "check_engine W path = Inr e"
  shows "validate_scenario_config (en_config e) = None" "test_id (en_config e) \<noteq> []" "base_url (sc_target (en_config e)) \<noteq> []"
  using assms by (auto simp: check_engine_def engine_validate_def engine_validate_schema_def Let_def split: sum.splits option.splits if_splits)

lemma set_target_rps_rps: "set_target_rps rps now now' e = Inr e' \<Longrightarrow> rps > 0 \<Longrightarrow> en_target_rps e' = rps \<and> en_config e' = en_config e"
  by (cases "set_rate (rnd (of_nat (unat rps))) now (en_bucket e)")
    (auto simp: set_target_rps_def Let_def split: if_splits elim!: exn_bind.elims)

lemma direct_concurrency_bounds: "1 \<le> direct_concurrency rps" "direct_concurrency rps \<le> 64"
  "10 \<le> rps \<Longrightarrow> int (direct_concurrency rps) * 10 \<le> rps" "rps < 10 \<Longrightarrow> direct_concurrency rps = 1"
  by (auto simp: direct_concurrency_def Let_def min_def)

lemma record_all_map:
  assumes "\<And>r m. f r m = mc_record (g r) m"
  shows "record_all f rs m = record_all mc_record (map g rs) m"
proof (induction rs arbitrary: m)
  case (Cons r rs)
  have "record_all f rs = record_all mc_record (map g rs)" using Cons by (rule ext)
  then show ?case by (simp add: assms [of r m])
qed simp

lemma recorded_p99:
  assumes "length obs \<le> 2 ^ 63" "record_all mc_record obs (MetricsCollector_new now) = Some m"
    and "\<forall>ob\<in>set obs. 0 \<le> ob_latency ob \<and> ob_latency ob \<le> b" "0 \<le> b" "b < 2 ^ 63"
  shows "int (unat (rm_p99_latency_us (snapshot m))) \<le> b"
proof -
  let ?s = "collect_ring_samples (mc_ring m)"
  have i: "mc_inv (length obs) (MetricsCollector_new now)" using assms(1) by (rule mc_new_inv)
  note r = record_all_samples [OF i assms(2)]
  have s: "?s = keep_last kMaxSnapshotSamples (map ob_latency obs)" using snapshot_samples [OF r(1) r(2) [OF mc_new_samples]] by simp
  then have "set ?s \<subseteq> set (map ob_latency obs)" by (auto simp: keep_last_def dest: in_set_dropD)
  with assms(3) have b: "\<forall>l\<in>set ?s. 0 \<le> l \<and> l \<le> b" by auto
  show ?thesis
  proof (cases "?s = []")
    case True
    then show ?thesis using assms(4) by (simp add: snapshot_def Let_def)
  next
    case False
    then have "nat (Max (set ?s)) \<le> nat b" using b by (intro nat_mono) simp
    moreover have "unat (rm_p99_latency_us (snapshot m)) \<le> nat (Max (set ?s))"
      using percentile_bounds [OF refl False] b assms(5) by fastforce
    ultimately show ?thesis using assms(4) by linarith
  qed
qed

lemma cli_success: "is_success (ob_status (cli_obs (step, resp))) \<longleftrightarrow> is_success (ns_status_code resp) \<and> evaluate_assertions step resp"
  by (auto simp: cli_obs_def is_success_def)

section \<open>Properties\<close>

text \<open>
  C11: The exit code of a scenario run follows from the responses. With limits as the configuration reader
  produces them and no failed worker, the program exits with 0 when every response has a status from 200 to 399, satisfies the
  assertions of its step and is within the latency limit; when no error is allowed it exits with 2
  as soon as one response fails; after a failed worker or an exception it exits with 3.
\<close>

theorem scenario_exit_code:
  assumes "length rs \<le> 2 ^ 63" "record_all cli_on_response rs (MetricsCollector_new now) = Some m"
    and "0 \<le> l" "l < 9 * 10 ^ 15" "max_p99_latency (sla (en_config e)) = l" "max_error_rate (sla (en_config e)) = Fin r" "0 \<le> r"
    and "\<forall>(step, resp)\<in>set rs. 0 \<le> ns_latency resp \<and> ns_latency resp \<le> l * 1000"
  shows "(en_worker_failures e = 0 \<and> (\<forall>(step, resp)\<in>set rs. is_success (ns_status_code resp) \<and> evaluate_assertions step resp)
            \<longrightarrow> scenario_exit (Inr (e, m)) = Exit_ok)
       \<and> (en_worker_failures e = 0 \<and> r = 0 \<and> (\<exists>(step, resp)\<in>set rs. \<not> (is_success (ns_status_code resp) \<and> evaluate_assertions step resp))
            \<longrightarrow> scenario_exit (Inr (e, m)) = SlaFailed)
       \<and> (en_worker_failures e > 0 \<longrightarrow> scenario_exit (Inr (e, m)) = RuntimeError)
       \<and> scenario_exit (Inl x) = RuntimeError"
proof -
  let ?obs = "map cli_obs rs"
  have rec: "record_all mc_record ?obs (MetricsCollector_new now) = Some m"
    using assms(2) by (simp add: record_all_map [of cli_on_response cli_obs] cli_on_response_def)
  have len: "length ?obs \<le> 2 ^ 63" using assms(1) by simp
  note er = recorded_error_rate [OF len rec]
  have "\<forall>ob\<in>set ?obs. 0 \<le> ob_latency ob \<and> ob_latency ob \<le> l * 1000" using assms(8) by (auto simp: cli_obs_def)
  then have p: "int (unat (rm_p99_latency_us (snapshot m))) \<le> l * 1000"
    using assms(3,4) by (intro recorded_p99 [OF len rec]) auto
  moreover have "l * 1000 < int (2 ^ 63)" using assms(4) by simp
  ultimately have "int (unat (rm_p99_latency_us (snapshot m))) < int (2 ^ 63)" by (rule le_less_trans)
  then have "unat (rm_p99_latency_us (snapshot m)) < 2 ^ 63" by (simp only: of_nat_less_iff)
  then have sla: "check_sla e m \<longleftrightarrow> error_rate m \<le> r" using check_sla_iff [OF assms(3) _ assms(5,6)] assms(4) p by simp
  have z: "error_rate m = 0 \<longleftrightarrow> (\<forall>(step, resp)\<in>set rs. is_success (ns_status_code resp) \<and> evaluate_assertions step resp)"
    using er by (auto simp: list_all_iff cli_success)
  show ?thesis using sla z er assms(7) by (auto simp: scenario_exit_def run_failed_def)
qed

definition sample_engine :: ScenarioEngine where
  "sample_engine = \<lparr>en_stopped = False, en_config_path = [], en_config = ScenarioConfig_default, en_last_error = [],
     en_bucket = \<lparr>tb_rate = 1, tb_burst = 1, tb_tokens = 1, tb_last_refill = 0\<rparr>, en_target_rps = 1, en_max_duration_ms = 0,
     en_worker_failures = 0\<rparr>"

theorem scenario_exit_code_witness:
  "\<exists>m. record_all cli_on_response [(HttpStep_default, NetResponse_default\<lparr>ns_status_code := 200\<rparr>)] (MetricsCollector_new 0) = Some m
     \<and> scenario_exit (Inr (sample_engine, m)) = Exit_ok"
proof -
  let ?rs = "[(HttpStep_default, NetResponse_default\<lparr>ns_status_code := 200\<rparr>)]"
  have "mc_inv (length ?rs) (MetricsCollector_new 0)" by (rule mc_new_inv) simp
  then obtain m where m: "record_all cli_on_response ?rs (MetricsCollector_new 0) = Some m"
    using cli_rec.record_all_ok [of ?rs 0 "MetricsCollector_new 0"] by auto
  have "evaluate_assertions HttpStep_default x" for x by (simp add: evaluate_assertions_def HttpStep_default_def)
  with scenario_exit_code [OF _ m, where l = 500 and r = 10 and e = sample_engine] m show ?thesis
    by (auto simp: sample_engine_def ScenarioConfig_default_def SLAConfig_default_def is_success_def NetResponse_default_def)
qed

text \<open>
  C30: An exit with 0 in scenario mode is earned: the file was read and passed every validation, authentication was set
  up, and the run ended without an exception and without a failed worker and met the limits.
\<close>

theorem exit_zero_earned:
  assumes "cli_main J W R D argv = Exits Exit_ok" "parse_args argv = Some a"
    and "\<not> ca_help a" "\<not> ca_version a" "ca_init_preset a = []" "\<not> ca_dry_run a" "ca_config a \<noteq> []"
  shows "\<exists>e e1 e2 m. check_engine W (ca_config a) = Inr e \<and> validate_scenario_config (en_config e) = None
     \<and> setup_auth J W (build_auth_config a (Some (en_config e))) \<and> prepare_engine a (cw_now W 2) (cw_now W 3) e = Inr e1
     \<and> R e1 = Inr (e2, m) \<and> en_worker_failures e2 = 0 \<and> check_sla e2 m \<and> \<not> ca_error a"
proof -
  from assms have n: "\<not> ca_error a" and m: "main_scenario J W R a = Exits Exit_ok"
    by (auto simp: cli_main_def main_run_def split: if_splits)
  obtain e where e: "check_engine W (ca_config a) = Inr e"
    using m by (cases "check_engine W (ca_config a)") (auto simp: main_scenario_def check_engine_def load_engine_def Let_def
      split: sum.splits prod.splits bool.splits Parse_End.splits if_splits)
  with m obtain e1 where e1: "setup_auth J W (build_auth_config a (Some (en_config e)))" "prepare_engine a (cw_now W 2) (cw_now W 3) e = Inr e1"
    "scenario_exit (R e1) = Exit_ok" by (auto simp: main_scenario_def split: if_splits sum.splits)
  then obtain e2 m' where "R e1 = Inr (e2, m')" "en_worker_failures e2 = 0" "check_sla e2 m'"
    by (auto simp: scenario_exit_def run_failed_def split: sum.splits if_splits)
  with n e e1 check_engine_ok(1) [OF e] show ?thesis by blast
qed

text \<open>A scenario file with a single step, and the world that has it.\<close>

definition one_step_doc :: YNode where
  "one_step_doc = YMap
     [(YScalar ''test_id'', YScalar ''t''), (YScalar ''target'', YMap [(YScalar ''base_url'', YScalar ''h'')]),
      (YScalar ''scenarios'', YSequence [YMap [(YScalar ''name'', YScalar ''s''),
         (YScalar ''steps'', YSequence [YMap [(YScalar ''http'', YMap [(YScalar ''path'', YScalar ''p'')])]])]])]"

definition one_step_world :: Cli_World where
  "one_step_world = \<lparr>cw_yaml = simple_yaml one_step_doc, cw_getenv = \<lambda>_. None, cw_file = \<lambda>_. Some [], cw_writable = \<lambda>_. True,
     cw_net = \<lparr>pn_resolve = \<lambda>_ _. False, pn_sni = \<lambda>_. False, pn_connect = Io_failed, pn_handshake = Io_failed,
       pn_write = Io_failed, pn_read = \<lambda>_. (Io_failed, 0, [])\<rparr>, cw_now = \<lambda>_. 0\<rparr>"

definition one_step_config :: ScenarioConfig where
  "one_step_config = ScenarioConfig_default\<lparr>test_id := ''t'', sc_target := (sc_target ScenarioConfig_default)\<lparr>base_url := ''h''\<rparr>,
     scenarios := [ScenarioDef_default\<lparr>sd_name := ''s'', sd_steps := [HttpStep_default\<lparr>hs_path := ''p''\<rparr>]\<rparr>]\<rparr>"

lemmas fill_defs = fills_def then_fill_def fail_with_def get_field_def if_defined_def with_node_def store_def fill_local_def
  upd_target_def simple_yaml_def y_lookup_def y_scalar_def skip_def catch_yaml_def

lemma one_step_substitute: "substitute_env (\<lambda>_. None) one_step_doc [] = (one_step_doc, [])"
proof -
  have "substitute_scalar (\<lambda>_. None) [c] [] = ([c], [])" if "c \<in> set ''thsp''" for c
    by (subst substitute_scalar.simps) (use that in auto)
  then show ?thesis by (simp add: one_step_doc_def)
qed

lemma one_step_parse:
  "parse_config_file (simple_yaml one_step_doc) (\<lambda>_. None) (Some []) ''f'' ScenarioConfig_default = (Go_on, one_step_config)"
proof -
  have t: "y_lookup one_step_doc ''target'' = Inr (YMap [(YScalar ''base_url'', YScalar ''h'')])" by (simp add: one_step_doc_def y_lookup_def)
  have "fill_target (simple_yaml one_step_doc) one_step_doc [] ScenarioConfig_default
      = (Go_on, ScenarioConfig_default\<lparr>test_id := ''t'', sc_target := (sc_target ScenarioConfig_default)\<lparr>base_url := ''h''\<rparr>\<rparr>)"
    by (simp add: fill_target_def fill_defs one_step_doc_def)
  moreover have "fill_sections (simple_yaml one_step_doc) one_step_doc
      (ScenarioConfig_default\<lparr>test_id := ''t'', sc_target := (sc_target ScenarioConfig_default)\<lparr>base_url := ''h''\<rparr>\<rparr>) = (Go_on, one_step_config)"
    by (simp add: fill_sections_def fill_scenario_def fill_step_def fill_defs one_step_doc_def one_step_config_def ScenarioConfig_default_def
        ScenarioDef_default_def HttpStep_default_def)
  ultimately show ?thesis using t one_step_substitute
    by (simp add: parse_config_file_def then_fill_def catch_yaml_def with_node_def simple_yaml_def one_step_doc_def)
qed

lemma one_step_run:
  "\<exists>e e1. check_engine one_step_world ''f'' = Inr e \<and> prepare_engine (CliArgs_default\<lparr>ca_config := ''f''\<rparr>) 0 0 e = Inr e1
     \<and> en_config e = one_step_config \<and> en_config e1 = one_step_config \<and> en_worker_failures e1 = 0"
proof -
  obtain b where b: "TokenBucket_new 100 100 0 = Inr b" "tb_rate b = 100" by (auto simp: TokenBucket_new_def)
  let ?e = "\<lparr>en_stopped = False, en_config_path = ''f'', en_config = one_step_config, en_last_error = [],
       en_bucket = b, en_target_rps = 100, en_max_duration_ms = 0, en_worker_failures = 0\<rparr>"
  have "load_engine one_step_world ''f'' = Inr ?e"
    using one_step_parse b by (simp add: load_engine_def ScenarioEngine_new_def engine_load_config_def one_step_world_def)
  moreover have "validate_scenario_config one_step_config = None"
    by (simp add: one_step_config_def validate_scenario_config_def validate_scenario_def validate_step_def
        ScenarioConfig_default_def ScenarioDef_default_def HttpStep_default_def)
  ultimately have "check_engine one_step_world ''f'' = Inr ?e"
    by (simp add: check_engine_def engine_validate_def engine_validate_schema_def) (simp add: one_step_config_def)
  moreover obtain e1 where "prepare_engine (CliArgs_default\<lparr>ca_config := ''f''\<rparr>) 0 0 ?e = Inr e1 \<and> en_config e1 = one_step_config \<and> en_worker_failures e1 = 0"
    by (auto simp: prepare_engine_def CliArgs_default_def set_target_rps_def set_rate_def set_burst_def Let_def rnd_of_nat)
  ultimately show ?thesis by auto
qed

theorem exit_zero_earned_witness:
  "\<exists>e. check_engine one_step_world ''f'' = Inr e \<and> validate_scenario_config (en_config e) = None"
proof -
  let ?R = "\<lambda>e. Inr (e, MetricsCollector_new 0)" and ?a = "CliArgs_default\<lparr>ca_config := ''f''\<rparr>"
  let ?J = "\<lparr>aj_parse = \<lambda>_. Inr (), aj_value_string = \<lambda>_ _ d. Inr d, aj_value_int = \<lambda>_ _ d. Inr d\<rparr>"
  have a: "parse_args [''volley'', ''-c'', ''f''] = Some ?a"
    by (simp add: parse_args_def split_key_plain cli_option_def stored_def)
  obtain e e1 where e: "check_engine one_step_world ''f'' = Inr e" "prepare_engine ?a 0 0 e = Inr e1"
    "en_config e = one_step_config" "en_config e1 = one_step_config" "en_worker_failures e1 = 0" using one_step_run by blast
  have "rm_p99_latency_us (snapshot (MetricsCollector_new 0)) = 0" using recorded_p99 [of "[]" 0 "MetricsCollector_new 0" 0] by (simp add: uint_0_iff)
  moreover have "error_rate (MetricsCollector_new 0) = 0" by (simp add: error_rate_def MetricsCollector_new_def)
  ultimately have "check_sla e1 (MetricsCollector_new 0)"
    using e(4) by (simp add: check_sla_def exceeds_def one_step_config_def ScenarioConfig_default_def SLAConfig_default_def)
  then have "main_scenario ?J one_step_world ?R ?a = Exits Exit_ok"
    using e by (simp add: main_scenario_def scenario_exit_def run_failed_def setup_auth_def build_auth_config_def CliArgs_default_def
        AuthConfig_default_def one_step_config_def ScenarioConfig_default_def one_step_world_def)
  then have "cli_main ?J one_step_world ?R (0, MetricsCollector_new 0) [''volley'', ''-c'', ''f''] = Exits Exit_ok"
    by (simp add: cli_main_def a main_run_def) (simp add: CliArgs_default_def)
  from exit_zero_earned [OF this a] show ?thesis by (auto simp: CliArgs_default_def)
qed

text \<open>
  In scenario mode \<open>--rps\<close> is overridden by every stage that names a rate: whatever the argument, the engine
  enters such a stage with the rate of the stage.
\<close>

theorem cli_rps_overridden:
  assumes "stage_target_rps s > 0" "prepare_engine a now now' e = Inr e1" "enter_stage s t t' e1 = Inr e2"
  shows "en_target_rps e2 = stage_target_rps s"
  using set_target_rps_rps [of "stage_target_rps s" t t' e1 e2] assms by (simp add: enter_stage_def)

theorem cli_rps_overridden_witness:
  "\<exists>e1 e2. prepare_engine (CliArgs_default\<lparr>ca_rps := 500\<rparr>) 0 0 sample_engine = Inr e1
     \<and> enter_stage (Stage_default\<lparr>stage_target_rps := 20\<rparr>) 0 0 e1 = Inr e2 \<and> en_target_rps e2 = 20"
proof -
  obtain e1 where e1: "prepare_engine (CliArgs_default\<lparr>ca_rps := 500\<rparr>) 0 0 sample_engine = Inr e1"
    by (auto simp: prepare_engine_def CliArgs_default_def set_target_rps_def set_rate_def set_burst_def Let_def)
  obtain e2 where e2: "enter_stage (Stage_default\<lparr>stage_target_rps := 20\<rparr>) 0 0 e1 = Inr e2"
    by (auto simp: enter_stage_def set_target_rps_def set_rate_def set_burst_def Let_def)
  from cli_rps_overridden [OF _ e1 e2] e1 e2 show ?thesis by auto
qed

lemma div_less_of_less:
  fixes a b c :: int
  assumes "0 < c" "a < b * c"
  shows "a div c < b"
proof (rule ccontr)
  assume "\<not> a div c < b"
  then have "b * c \<le> a div c * c" using assms(1) by (intro mult_right_mono) auto
  also have "\<dots> \<le> a" using div_mult_mod_eq [of a c] pos_mod_sign [OF assms(1), of a] by linarith
  finally show False using assms(2) by simp
qed

lemma slot_period_bounds:
  assumes "0 < users" "users \<le> unat rps"
  shows "1 \<le> slot_period users rps \<and> slot_period users rps \<le> 10 ^ 9"
proof -
  let ?r = "rnd (of_nat (unat rps))" and ?u = "rnd (of_nat users)"
  have "(1::rat) \<le> of_nat (unat rps)" using assms by (metis le_trans of_nat_1 of_nat_le_iff Suc_leI One_nat_def)
  then have r: "1 \<le> ?r" using rnd_mono by fastforce
  have "?u \<le> ?r" using assms(2) by (intro rnd_mono) (simp only: of_nat_le_iff)
  then have q: "fdiv ?u ?r \<le> 1" using r ieee.le_int [of "?u / ?r" 1] by (simp add: fdiv_def)
  then have p: "fmul (fdiv ?u ?r) 1000000000 \<le> 1000000000"
    unfolding fmul_def using ieee.le_int [of "fdiv ?u ?r * 1000000000" 1000000000] by simp
  define x where "x = (if fmul (fdiv ?u ?r) 1000000000 < 1 then 1 else fmul (fdiv ?u ?r) 1000000000)"
  have x: "1 \<le> x" "x \<le> 1000000000" using p by (auto simp: x_def)
  have "slot_period users rps = trunc_int (if x > 10 ^ 18 then 10 ^ 18 else x)"
    unfolding slot_period_def Let_def x_def using r by (simp del: of_nat_unat)
  then have "slot_period users rps = floor x" using x trunc_int_nonneg [of x] by simp
  moreover have "1 \<le> floor x" "floor x \<le> 10 ^ 9" using x by (simp_all add: le_floor_iff floor_le_iff)
  ultimately show ?thesis by simp
qed

text \<open>
  In direct mode every accepted rate gives from 1 to 64 workers with slots of at most a second: the phase of a worker is less than its
  period, and no product on the way to it leaves 64 bits.
\<close>

theorem direct_slots:
  assumes "1 \<le> rps" "rps \<le> 1000000" "w < direct_concurrency rps"
  shows "1 \<le> direct_concurrency rps \<and> direct_concurrency rps \<le> 64
     \<and> 1 \<le> slot_period (direct_concurrency rps) (word_of_int rps) \<and> slot_period (direct_concurrency rps) (word_of_int rps) \<le> 10 ^ 9
     \<and> slot_phase (slot_period (direct_concurrency rps) (word_of_int rps)) w (direct_concurrency rps) \<noteq> None
     \<and> slot_period (direct_concurrency rps) (word_of_int rps) * int w div int (direct_concurrency rps)
         < slot_period (direct_concurrency rps) (word_of_int rps)"
proof -
  let ?c = "direct_concurrency rps"
  note c = direct_concurrency_bounds [of rps]
  have u: "unat (word_of_int rps :: u32) = nat rps" using assms by (simp add: unsigned_of_int take_bit_int_eq_self)
  have "int ?c \<le> rps" using c(3,4) assms(1) by (cases "rps < 10") auto
  then have p: "1 \<le> slot_period ?c (word_of_int rps) \<and> slot_period ?c (word_of_int rps) \<le> 10 ^ 9"
    using c(1) u by (intro slot_period_bounds) auto
  let ?p = "slot_period ?c (word_of_int rps)"
  have "?p * int w \<le> 10 ^ 9 * 64" using p assms(3) c(2) by (intro mult_mono) auto
  then have "slot_phase ?p w ?c \<noteq> None" by (simp add: slot_phase_def tp_max_def)
  moreover have "?p * int w < ?p * int ?c" using p assms(3) by simp
  then have "?p * int w div int ?c < ?p" using c(1) by (intro div_less_of_less) simp_all
  ultimately show ?thesis using p c by blast
qed

theorem direct_slots_witness: "direct_concurrency 25 = 2 \<and> slot_phase (slot_period (direct_concurrency 25) (word_of_int 25)) 1 (direct_concurrency 25) \<noteq> None"
  using direct_slots [of 25 1] by (simp add: direct_concurrency_def)

end
