(* ===== verification/Protocol_Contract.thy ===== *)
theory Protocol_Contract
  imports Stream_Clients Cli_Main
begin

text \<open>
  What the engine relies on in a protocol client, as a locale, with the HTTP, raw TCP and WebSocket clients as its
  instances. A client gives a response that has no status and no body when it has an error. The callback of
  \<open>tools/main.cpp\<close> reads the status and not the error, so its count is right because of this law only.
\<close>

lemma status_one_fails: "\<not> is_success 1" "\<not> is_success 0"
  by (simp_all add: is_success_def word_le_nat_alt)

locale protocol_client =
  fixes perform :: "'n \<Rightarrow> NetRequest \<Rightarrow> NetResponse"
  assumes failed_response: "ns_ec (perform n req) \<noteq> None \<Longrightarrow> ns_status_code (perform n req) = 0 \<and> ns_body (perform n req) = []"
begin

lemma callback_obs: "cli_obs (step, perform n req) = response_obs (step, ns_ec (perform n req), perform n req)"
  using failed_response [of n req] by (auto simp: cli_obs_def response_obs_def response_code_def Let_def)

lemma callback_counts:
  "record_all cli_on_response (map (\<lambda>(step, n, req). (step, perform n req)) xs) m
   = record_all on_response (map (\<lambda>(step, n, req). (step, ns_ec (perform n req), perform n req)) xs) m"
proof -
  have "cli_obs \<circ> (\<lambda>(step, n, req). (step, perform n req)) = response_obs \<circ> (\<lambda>(step, n, req). (step, ns_ec (perform n req), perform n req))"
    by (rule ext) (auto simp: callback_obs)
  then show ?thesis
    by (simp add: record_all_map [of cli_on_response cli_obs] record_all_map [of on_response response_obs] cli_on_response_def on_response_eq)
qed

end

text \<open>A client whose good responses have the status 1.\<close>

locale stream_client = protocol_client +
  assumes good_response: "ns_ec (perform n req) = None \<Longrightarrow> ns_status_code (perform n req) = 1"
begin

lemma no_success: "\<not> is_success (ob_status (response_obs (step, ns_ec (perform n req), perform n req)))"
  using good_response [of n req] by (auto simp: response_obs_def response_code_def status_one_fails Let_def)

end

section \<open>The clients\<close>

definition http_perform :: "(string \<Rightarrow> bool) \<times> Cached_Net \<times> Fresh_Net \<times> int \<times> HttpClient \<Rightarrow> NetRequest \<Rightarrow> NetResponse" where
  "http_perform n req = (case n of (known_verb, C, N, start_time, c) \<Rightarrow> fst (async_request known_verb C N req start_time c))"

definition tcp_perform :: "Stream_Net \<times> int \<times> StreamClient \<Rightarrow> NetRequest \<Rightarrow> NetResponse" where
  "tcp_perform n req = (case n of (N, start_time, c) \<Rightarrow> fst (tcp_async_request N req start_time c))"

definition ws_perform :: "Stream_Net \<times> int \<times> StreamClient \<Rightarrow> NetRequest \<Rightarrow> NetResponse" where
  "ws_perform n req = (case n of (N, start_time, c) \<Rightarrow> fst (ws_async_request N req start_time c))"

lemma http_response_ok: "response_ok (body_cap c) (fst (async_request kv C N req t c))"
proof (cases "async_request kv C N req t c")
  case (fields r via c')
  then have "response_ok (body_cap c) r"
    by (auto simp: async_request_def hand_over_def error_ok split: option.splits if_splits dest: on_cached_ok fresh_ok)
  with fields show ?thesis by simp
qed

interpretation http: protocol_client http_perform
  by unfold_locales (use http_response_ok in \<open>auto simp: http_perform_def response_ok_def\<close>)

interpretation tcp: stream_client tcp_perform
  by unfold_locales (use tcp_ok(1) in \<open>auto simp: tcp_perform_def stream_ok_def split: if_splits\<close>)

interpretation ws: stream_client ws_perform
  by unfold_locales (use ws_ok in \<open>auto simp: ws_perform_def stream_ok_def split: if_splits\<close>)

section \<open>Properties\<close>

lemma all_failed_rate:
  assumes "length obs \<le> 2 ^ 63" "record_all mc_record obs (MetricsCollector_new now) = Some m" "obs \<noteq> []"
    and "list_all (\<lambda>ob. \<not> is_success (ob_status ob)) obs"
  shows "error_rate m = 100"
proof -
  have "mc_inv (length obs) (MetricsCollector_new now)" using assms(1) by (rule mc_new_inv)
  then have v: "mc_view m = counters_of obs"
    using mc.record_all_fresh [of obs 0 "MetricsCollector_new now"] mc_new_view assms(2) by auto
  have f: "filter (\<lambda>ob. \<not> is_success (ob_status ob)) obs = obs" using assms(4) by (simp add: list_all_iff filter_id_conv)
  have t: "mc_total_requests m = of_nat (length obs)" "mc_failed_requests m = of_nat (length obs)"
    using arg_cong [OF v, of ct_total] arg_cong [OF v, of ct_failed] by (simp_all add: mc_view_def counters_of_def f)
  have "length obs < 2 ^ 64" using assms(1) by simp
  then have "(of_nat (length obs) :: u64) \<noteq> 0" using assms(3) by (simp add: word_of_nat_eq_0_iff nat_dvd_not_less)
  then have "u64_double (of_nat (length obs)) \<noteq> 0" "mc_total_requests m \<noteq> 0" using u64_double_ge_one [of "of_nat (length obs)"] t by auto
  then show ?thesis using t by (simp add: error_rate_def fdiv_def fmul_def)
qed

text \<open>
  C18: The metrics of the program and those of the engine agree. For each of the three protocol clients, whatever the network
  does, recording the responses by the callback of \<open>main\<close>, which never looks at the error code, gives the same collector as
  recording them by the engine, which does.
\<close>

theorem callback_counts_agree:
  "record_all cli_on_response (map (\<lambda>(step, n, req). (step, http_perform n req)) xs) m
     = record_all on_response (map (\<lambda>(step, n, req). (step, ns_ec (http_perform n req), http_perform n req)) xs) m
   \<and> record_all cli_on_response (map (\<lambda>(step, n, req). (step, tcp_perform n req)) ys) m
     = record_all on_response (map (\<lambda>(step, n, req). (step, ns_ec (tcp_perform n req), tcp_perform n req)) ys) m
   \<and> record_all cli_on_response (map (\<lambda>(step, n, req). (step, ws_perform n req)) zs) m
     = record_all on_response (map (\<lambda>(step, n, req). (step, ns_ec (ws_perform n req), ws_perform n req)) zs) m"
  by (intro conjI http.callback_counts tcp.callback_counts ws.callback_counts)

text \<open>
  Over raw TCP and over WebSocket every request is counted as failed, also those that were answered: the error rate of such
  a run is 100 percent.
\<close>

theorem stream_requests_count_failed:
  assumes "xs \<noteq> []" "length xs \<le> 2 ^ 63"
    and "perform = tcp_perform \<or> perform = ws_perform"
    and "record_all on_response (map (\<lambda>(step, n, req). (step, ns_ec (perform n req), perform n req)) xs) (MetricsCollector_new now) = Some m"
  shows "error_rate m = 100"
proof -
  let ?rs = "map (\<lambda>(step, n, req). (step, ns_ec (perform n req), perform n req)) xs"
  have "list_all (\<lambda>ob. \<not> is_success (ob_status ob)) (map response_obs ?rs)"
    using assms(3) tcp.no_success ws.no_success by (auto simp: list_all_iff)
  moreover have "record_all mc_record (map response_obs ?rs) (MetricsCollector_new now) = Some m"
    using assms(4) record_all_map [of on_response response_obs ?rs, OF on_response_eq] by simp
  ultimately show ?thesis using assms(1,2) by (intro all_failed_rate [of "map response_obs ?rs" now]) simp_all
qed

definition tcp_answer :: "Stream_Net \<times> int \<times> StreamClient" where
  "tcp_answer = (\<lparr>sn_resolve = Ec_none, sn_connect = Ec_none, sn_sni = \<lambda>_. True, sn_tls_handshake = Ec_none, sn_upgrade = \<lambda>_ _. Ec_none,
     sn_write = Ec_none, sn_read = Ec_none, sn_data = ''hello'', sn_now = 5000\<rparr>, 0, StreamClient_new)"

theorem stream_requests_count_failed_witness:
  "\<exists>m. ns_body (tcp_perform tcp_answer NetRequest_default) = ''hello'' \<and> error_rate m = 100
     \<and> record_all on_response [(HttpStep_default, ns_ec (tcp_perform tcp_answer NetRequest_default), tcp_perform tcp_answer NetRequest_default)]
         (MetricsCollector_new 0) = Some m"
proof -
  let ?x = "(HttpStep_default, ns_ec (tcp_perform tcp_answer NetRequest_default), tcp_perform tcp_answer NetRequest_default)"
  have "mc_inv (length [?x]) (MetricsCollector_new 0)" by (rule mc_new_inv) simp
  then obtain m where m: "record_all on_response [?x] (MetricsCollector_new 0) = Some m"
    using engine_rec.record_all_ok [of "[?x]" 0 "MetricsCollector_new 0"] by auto
  have "error_rate m = 100"
    by (rule stream_requests_count_failed [where xs = "[(HttpStep_default, tcp_answer, NetRequest_default)]" and perform = tcp_perform and now = 0])
      (use m in simp_all)
  moreover have "ns_body (tcp_perform tcp_answer NetRequest_default) = ''hello''"
    by (simp add: tcp_perform_def tcp_answer_def tcp_defs NetRequest_default_def NetResponse_default_def kDefaultRecvBufferSize_def)
  ultimately show ?thesis using m by blast
qed

end
