(* ===== verification/Prometheus.thy ===== *)
theory Prometheus
  imports Ring_Collector Cpp_Parse
begin

text \<open>
  The two Prometheus exporters: \<open>core/metrics/prometheus_exporter.cpp\<close>, built on the library, and the server of
  \<open>core/metrics/prometheus_exporter_embedded.cpp\<close> for builds without it. Counters and gauges of the library are doubles
  that its \<open>Increment\<close>, \<open>Set\<close> and \<open>Observe\<close> change; whether the address can be bound is an argument.
\<close>

section \<open>The exporter on the library\<close>

text \<open>A counter with the last value seen, and the exporter with the counters, the gauges and the observations of its histogram.\<close>

record Delta_Counter =
  dc_value :: rat
  dc_last :: u64

record Prom_Exporter =
  pe_bind_address :: string
  pe_running :: bool
  pe_total :: Delta_Counter
  pe_successful :: Delta_Counter
  pe_failed :: Delta_Counter
  pe_bytes_sent :: Delta_Counter
  pe_bytes_received :: Delta_Counter
  pe_rps :: rat
  pe_error_rate :: rat
  pe_latency :: "rat list"

definition Prom_Exporter_new :: "string \<Rightarrow> Prom_Exporter" where
  "Prom_Exporter_new addr =
     (let z = \<lparr>dc_value = 0, dc_last = 0\<rparr>
      in \<lparr>pe_bind_address = addr, pe_running = False, pe_total = z, pe_successful = z, pe_failed = z, pe_bytes_sent = z,
          pe_bytes_received = z, pe_rps = 0, pe_error_rate = 0, pe_latency = []\<rparr>)"

text \<open>A new registry has new metrics, all zero; the last values are fields of the exporter and stay.\<close>

definition prom_start :: "bool \<Rightarrow> Prom_Exporter \<Rightarrow> bool \<times> Prom_Exporter" where
  "prom_start binds p =
     (if \<not> binds then (False, p)
      else (True, p\<lparr>pe_running := True, pe_total := (pe_total p)\<lparr>dc_value := 0\<rparr>, pe_successful := (pe_successful p)\<lparr>dc_value := 0\<rparr>,
        pe_failed := (pe_failed p)\<lparr>dc_value := 0\<rparr>, pe_bytes_sent := (pe_bytes_sent p)\<lparr>dc_value := 0\<rparr>,
        pe_bytes_received := (pe_bytes_received p)\<lparr>dc_value := 0\<rparr>, pe_rps := 0, pe_error_rate := 0, pe_latency := []\<rparr>))"

definition prom_stop :: "Prom_Exporter \<Rightarrow> Prom_Exporter" where
  "prom_stop p = p\<lparr>pe_running := False\<rparr>"

definition delta_or_reset :: "u64 \<Rightarrow> u64 \<Rightarrow> rat" where
  "delta_or_reset cur prev = (if cur \<ge> prev then u64_double (cur - prev) else u64_double cur)"

definition increment :: "u64 \<Rightarrow> Delta_Counter \<Rightarrow> Delta_Counter" where
  "increment cur c = \<lparr>dc_value = fadd (dc_value c) (delta_or_reset cur (dc_last c)), dc_last = cur\<rparr>"

definition prom_update_metrics :: "time_ns \<Rightarrow> MetricsCollector \<Rightarrow> Prom_Exporter \<Rightarrow> Prom_Exporter" where
  "prom_update_metrics now m p =
     (if \<not> pe_running p then p
      else let s = snapshot m
           in p\<lparr>pe_total := increment (rm_total_requests s) (pe_total p),
                pe_successful := increment (rm_successful_requests s) (pe_successful p),
                pe_failed := increment (rm_failed_requests s) (pe_failed p),
                pe_bytes_sent := increment (rm_total_bytes_sent s) (pe_bytes_sent p),
                pe_bytes_received := increment (rm_total_bytes_received s) (pe_bytes_received p),
                pe_rps := requests_per_second now m, pe_error_rate := error_rate m,
                pe_latency := pe_latency p @ [fdiv (rm_mean_latency_us s) 1000000]\<rparr>)"

definition prom_endpoint :: "Prom_Exporter \<Rightarrow> string" where
  "prom_endpoint p = ''http://'' @ pe_bind_address p @ ''/metrics''"

section \<open>Printing numbers\<close>

text \<open>\<open>operator<<\<close> of a finite \<open>double\<close> that is not negative: six significant digits, as \<open>printf\<close> with \<open>%g\<close>.\<close>

definition dec_exponent :: "rat \<Rightarrow> int" where
  "dec_exponent x =
     (if x \<ge> 1 then int (length (nat_dec (nat (floor x)))) - 1
      else - int (length (nat_dec (nat (ceiling (1 / x)) - 1))))"

definition pow10 :: "int \<Rightarrow> rat" where
  "pow10 k = (if k \<ge> 0 then 10 ^ nat k else 1 / 10 ^ nat (- k))"

definition strip_zeros :: "string \<Rightarrow> string" where
  "strip_zeros s = rev (dropWhile (\<lambda>c. c = CHR ''0'') (rev s))"

definition with_fraction :: "string \<Rightarrow> string \<Rightarrow> string" where
  "with_fraction whole fr = (let f = strip_zeros fr in if f = [] then whole else whole @ ''.'' @ f)"

definition print_digits :: "string \<Rightarrow> int \<Rightarrow> string" where
  "print_digits ds e =
     (if - 4 \<le> e \<and> e < 6 then
        (if e \<ge> 0 then with_fraction (take (nat e + 1) ds) (drop (nat e + 1) ds)
         else with_fraction ''0'' (replicate (nat (- e) - 1) (CHR ''0'') @ ds))
      else with_fraction (take 1 ds) (drop 1 ds) @ (if e < 0 then ''e-'' else ''e+'')
        @ (if \<bar>e\<bar> < 10 then ''0'' else []) @ nat_dec (nat \<bar>e\<bar>))"

definition print_double :: "rat \<Rightarrow> string" where
  "print_double x =
     (if x = 0 then ''0''
      else let e = dec_exponent x; d = nat (round_even (x * pow10 (5 - e)));
               (d, e) = (if d = 10 ^ 6 then (10 ^ 5, e + 1) else (d, e))
           in print_digits (nat_dec d) e)"

section \<open>The embedded exporter\<close>

record BindAddress =
  ba_host :: string
  ba_port :: u16

definition rfind_char :: "char \<Rightarrow> string \<Rightarrow> nat option" where
  "rfind_char c s = map_option (\<lambda>i. length s - 1 - i) (find_char c (rev s))"

text \<open>A port of more digits than an \<open>unsigned long\<close> has makes \<open>stoul\<close> throw.\<close>

definition parse_bind_address :: "string \<Rightarrow> cpp_exn + BindAddress" where
  "parse_bind_address address =
     (let fix_host = (\<lambda>b. if ba_host b = [] then b\<lparr>ba_host := ''127.0.0.1''\<rparr> else b)
      in case rfind_char (CHR '':'') address of
           None \<Rightarrow> Inr \<lparr>ba_host = ''127.0.0.1'', ba_port = 9090\<rparr>
         | Some colon \<Rightarrow>
             let b = \<lparr>ba_host = take colon address, ba_port = 9090\<rparr>; port_str = drop (Suc colon) address
             in if port_str \<noteq> [] \<and> list_all isdigit port_str then
                  exn_bind (stoul port_str) (\<lambda>p. Inr (fix_host (if p > 0 \<and> p \<le> 65535 then b\<lparr>ba_port := ucast p\<rparr> else b)))
                else Inr (fix_host b))"

record Embedded_Exporter =
  ee_bind :: BindAddress
  ee_running :: bool
  ee_active :: nat
  ee_threads :: nat
  ee_metrics :: RequestMetrics
  ee_rps :: rat
  ee_err_rate :: rat

definition kMaxConnections :: nat where "kMaxConnections = 100"

definition RequestMetrics_zero :: RequestMetrics where
  "RequestMetrics_zero = \<lparr>rm_total_requests = 0, rm_successful_requests = 0, rm_failed_requests = 0, rm_total_bytes_sent = 0,
     rm_total_bytes_received = 0, rm_min_latency = us_max, rm_max_latency = us_min, rm_mean_latency_us = 0, rm_p95_latency_us = 0, rm_p99_latency_us = 0\<rparr>"

definition Embedded_new :: "string \<Rightarrow> cpp_exn + Embedded_Exporter" where
  "Embedded_new address = exn_bind (parse_bind_address address) (\<lambda>b.
     Inr \<lparr>ee_bind = b, ee_running = False, ee_active = 0, ee_threads = 0, ee_metrics = RequestMetrics_zero, ee_rps = 0, ee_err_rate = 0\<rparr>)"

definition ee_start :: "bool \<Rightarrow> Embedded_Exporter \<Rightarrow> bool \<times> Embedded_Exporter" where
  "ee_start binds x = (if ee_running x then (True, x) else (binds, x\<lparr>ee_running := binds\<rparr>))"

text \<open>\<open>stop\<close> returns when every handler thread has ended and is joined.\<close>

definition ee_stop :: "Embedded_Exporter \<Rightarrow> Embedded_Exporter" where
  "ee_stop x = (if \<not> ee_running x then x else x\<lparr>ee_running := False, ee_active := 0, ee_threads := 0\<rparr>)"

text \<open>The handler of an accept: the connection is closed, or gets a thread.\<close>

definition ee_accept :: "Embedded_Exporter \<Rightarrow> bool \<times> Embedded_Exporter" where
  "ee_accept x = (if ee_active x \<ge> kMaxConnections then (False, x)
     else (True, x\<lparr>ee_active := ee_active x + 1, ee_threads := ee_threads x + 1\<rparr>))"

definition ee_handled :: "Embedded_Exporter \<Rightarrow> Embedded_Exporter" where
  "ee_handled x = x\<lparr>ee_active := ee_active x - 1\<rparr>"

definition ee_update_metrics :: "time_ns \<Rightarrow> MetricsCollector \<Rightarrow> Embedded_Exporter \<Rightarrow> Embedded_Exporter" where
  "ee_update_metrics now m x = x\<lparr>ee_metrics := snapshot m, ee_rps := requests_per_second now m, ee_err_rate := error_rate m\<rparr>"

definition ee_endpoint :: "Embedded_Exporter \<Rightarrow> string" where
  "ee_endpoint x = ''http://'' @ ba_host (ee_bind x) @ '':'' @ nat_dec (unat (ba_port (ee_bind x))) @ ''/metrics''"

definition metric_text :: "string \<Rightarrow> string \<Rightarrow> string \<Rightarrow> string \<Rightarrow> string" where
  "metric_text name help kind val = ''# HELP '' @ name @ '' '' @ help @ [CHR 0x0A] @ ''# TYPE '' @ name @ '' '' @ kind @ [CHR 0x0A]
     @ name @ '' '' @ val @ [CHR 0x0A]"

definition metrics_text :: "Embedded_Exporter \<Rightarrow> string" where
  "metrics_text x = (let m = ee_metrics x in
     metric_text ''volley_requests_total'' ''Total number of requests'' ''counter'' (nat_dec (unat (rm_total_requests m)))
     @ metric_text ''volley_requests_successful_total'' ''Total successful requests'' ''counter'' (nat_dec (unat (rm_successful_requests m)))
     @ metric_text ''volley_requests_failed_total'' ''Total failed requests'' ''counter'' (nat_dec (unat (rm_failed_requests m)))
     @ metric_text ''volley_error_rate'' ''Current error rate (percent)'' ''gauge'' (print_double (ee_err_rate x))
     @ metric_text ''volley_requests_per_second'' ''Current requests per second'' ''gauge'' (print_double (ee_rps x))
     @ metric_text ''volley_mean_latency_us'' ''Mean latency in microseconds'' ''gauge'' (print_double (rm_mean_latency_us m))
     @ metric_text ''volley_p95_latency_us'' ''P95 latency in microseconds'' ''gauge'' (nat_dec (unat (rm_p95_latency_us m)))
     @ metric_text ''volley_p99_latency_us'' ''P99 latency in microseconds'' ''gauge'' (nat_dec (unat (rm_p99_latency_us m))))"

text \<open>The answer to a request that was read: status and body.\<close>

definition ee_handle_request :: "Embedded_Exporter \<Rightarrow> string \<Rightarrow> string \<Rightarrow> nat \<times> string" where
  "ee_handle_request x method target =
     (if method = ''GET'' \<and> target = ''/metrics'' then (200, metrics_text x)
      else if method = ''GET'' \<and> target = ''/'' then (200, ''volley prometheus exporter'' @ [CHR 0x0A])
      else (404, ''not found'' @ [CHR 0x0A]))"

inductive ee_step :: "Embedded_Exporter \<Rightarrow> Embedded_Exporter \<Rightarrow> bool" where
  ee_starts: "ee_step x (snd (ee_start binds x))"
| ee_accepts: "ee_running x \<Longrightarrow> ee_step x (snd (ee_accept x))"
| ee_ends: "ee_active x > 0 \<Longrightarrow> ee_step x (ee_handled x)"
| ee_updates: "ee_step x (ee_update_metrics now m x)"
| ee_stops: "ee_step x (ee_stop x)"

section \<open>Lemmas\<close>

text \<open>Below \<open>2 ^ 53\<close> the sums are exact: the counter is the value last seen less the value it started from.\<close>

definition exact_from :: "u64 \<Rightarrow> Delta_Counter \<Rightarrow> bool" where
  "exact_from base c \<longleftrightarrow> base \<le> dc_last c \<and> dc_value c = of_nat (unat (dc_last c) - unat base)"

lemma u64_double_exact: "unat w < 2 ^ 53 \<Longrightarrow> u64_double w = of_nat (unat w)"
  by (simp only: u64_double_def rnd_of_nat)

lemma increment_exact:
  assumes "exact_from base c" "dc_last c \<le> v" "unat v < 2 ^ 53"
  shows "exact_from base (increment v c)"
proof -
  let ?l = "dc_last c"
  have o: "unat base \<le> unat ?l" "unat ?l \<le> unat v" using assms(1,2) by (simp_all add: exact_from_def word_le_nat_alt)
  have d: "unat (v - ?l) = unat v - unat ?l" using assms(2) by (rule unat_sub)
  then have "delta_or_reset v ?l = of_nat (unat v - unat ?l)"
    using assms(2,3) u64_double_exact [of "v - ?l"] by (simp add: delta_or_reset_def)
  moreover have "(of_nat (unat ?l - unat base) + of_nat (unat v - unat ?l) :: rat) = of_nat (unat v - unat base)"
    using o unfolding of_nat_add [symmetric] by (intro arg_cong [of _ _ of_nat]) simp
  moreover have "rnd (of_nat (unat v - unat base)) = of_nat (unat v - unat base)" using assms(3) by (intro rnd_of_nat) simp
  ultimately have "dc_value (increment v c) = of_nat (unat v - unat base)"
    using assms(1) by (simp only: increment_def Delta_Counter.simps exact_from_def fadd_def)
  then show ?thesis using assms(1,2) by (auto simp: exact_from_def increment_def)
qed

definition prom_updates :: "(time_ns \<times> MetricsCollector) list \<Rightarrow> Prom_Exporter \<Rightarrow> Prom_Exporter" where
  "prom_updates ms p = fold (\<lambda>(now, m). prom_update_metrics now m) ms p"

lemma prom_updates_exact:
  assumes "pe_running p" "exact_from base (pe_total p)"
    and "sorted (map unat (dc_last (pe_total p) # map (\<lambda>(now, m). rm_total_requests (snapshot m)) ms))"
    and "list_all (\<lambda>(now, m). unat (rm_total_requests (snapshot m)) < 2 ^ 53) ms"
  shows "exact_from base (pe_total (prom_updates ms p)) \<and> dc_last (pe_total (prom_updates ms p))
     = List.last (dc_last (pe_total p) # map (\<lambda>(now, m). rm_total_requests (snapshot m)) ms)"
  using assms
proof (induction ms arbitrary: p)
  case Nil
  then show ?case by (simp add: prom_updates_def)
next
  case (Cons x ms)
  obtain now m where x: "x = (now, m)" by (cases x)
  let ?v = "rm_total_requests (snapshot m)" and ?p = "prom_update_metrics now m p"
  have p: "pe_running ?p" "pe_total ?p = increment ?v (pe_total p)" using Cons.prems(1) by (simp_all add: prom_update_metrics_def Let_def)
  have "exact_from base (pe_total ?p)" unfolding p(2) using Cons.prems x by (intro increment_exact) (auto simp: word_le_nat_alt)
  moreover have "dc_last (pe_total ?p) = ?v" by (simp add: p(2) increment_def)
  ultimately have "exact_from base (pe_total (prom_updates ms ?p)) \<and> dc_last (pe_total (prom_updates ms ?p))
      = List.last (?v # map (\<lambda>(now, m). rm_total_requests (snapshot m)) ms)"
    using Cons.IH [of ?p] Cons.prems p(1) x by auto
  then show ?case using x by (simp add: prom_updates_def)
qed

definition prom_fresh :: "string \<Rightarrow> Prom_Exporter" where
  "prom_fresh addr = snd (prom_start True (Prom_Exporter_new addr))"

definition ee_inv :: "Embedded_Exporter \<Rightarrow> bool" where
  "ee_inv x \<longleftrightarrow> ee_active x \<le> kMaxConnections \<and> ee_active x \<le> ee_threads x"

lemma ee_step_inv: "ee_step x y \<Longrightarrow> ee_inv x \<Longrightarrow> ee_inv y"
  by (induction rule: ee_step.induct)
    (auto simp: ee_inv_def ee_start_def ee_accept_def ee_handled_def ee_update_metrics_def ee_stop_def)

lemma ee_reach_inv:
  assumes "Embedded_new addr = Inr x0" "ee_step\<^sup>*\<^sup>* x0 x"
  shows "ee_inv x"
  using assms(2)
proof (induction rule: rtranclp_induct)
  case base
  show ?case using assms(1) by (auto simp: Embedded_new_def exn_bind_Inr_iff ee_inv_def)
qed (blast intro: ee_step_inv)

section \<open>Properties\<close>

text \<open>
  The exported counter is exact. From the start on, after any number of updates from snapshots whose total does
  not go back and stays below \<open>2 ^ 53\<close>, the counter of requests is the total of the last snapshot: no increment
  is lost or counted twice.
\<close>

theorem prom_counter_exact:
  assumes "ms \<noteq> []" "sorted (map (\<lambda>(now, m). unat (rm_total_requests (snapshot m))) ms)"
    and "list_all (\<lambda>(now, m). unat (rm_total_requests (snapshot m)) < 2 ^ 53) ms"
  shows "dc_value (pe_total (prom_updates ms (prom_fresh addr))) = of_nat (unat (rm_total_requests (snapshot (snd (List.last ms)))))"
proof -
  let ?p = "prom_fresh addr" and ?f = "\<lambda>(now :: time_ns, m). rm_total_requests (snapshot m)"
  have z: "pe_running ?p" "pe_total ?p = \<lparr>dc_value = 0, dc_last = 0\<rparr>" by (simp_all add: prom_fresh_def prom_start_def Prom_Exporter_new_def Let_def)
  have "unat \<circ> ?f = (\<lambda>(now, m). unat (rm_total_requests (snapshot m)))" by auto
  then have c: "sorted (map (unat \<circ> ?f) ms)" using assms(2) by simp
  have "exact_from 0 (pe_total (prom_updates ms ?p)) \<and> dc_last (pe_total (prom_updates ms ?p)) = List.last (dc_last (pe_total ?p) # map ?f ms)"
    using assms(3) c z by (intro prom_updates_exact) (simp_all add: exact_from_def)
  moreover have "List.last (dc_last (pe_total ?p) # map ?f ms) = rm_total_requests (snapshot (snd (List.last ms)))"
    using assms(1) by (simp add: last_map case_prod_unfold)
  ultimately show ?thesis by (simp add: exact_from_def)
qed

lemma fresh_total: "rm_total_requests (snapshot (MetricsCollector_new 0)) = 0"
  by (simp add: snapshot_def MetricsCollector_new_def Let_def split: prod.split)

theorem prom_counter_exact_witness:
  "dc_value (pe_total (prom_updates [(0, MetricsCollector_new 0), (1, MetricsCollector_new 0)] (prom_fresh ''127.0.0.1:9090''))) = 0"
  using prom_counter_exact [of "[(0, MetricsCollector_new 0), (1, MetricsCollector_new 0)]" "''127.0.0.1:9090''"] by (simp add: fresh_total)

text \<open>
  A stop and a start lose what was counted before: the registry is new and its counter starts from zero, but the last value seen is
  kept, so that the counter then shows only what came after.
\<close>

theorem prom_restart_loses:
  assumes "dc_last (pe_total p) \<le> rm_total_requests (snapshot m)" "unat (rm_total_requests (snapshot m)) < 2 ^ 53"
  shows "dc_value (pe_total (prom_update_metrics now m (snd (prom_start True (prom_stop p)))))
     = of_nat (unat (rm_total_requests (snapshot m)) - unat (dc_last (pe_total p)))"
proof -
  let ?p = "snd (prom_start True (prom_stop p))"
  have "exact_from (dc_last (pe_total p)) (pe_total ?p)" by (simp add: prom_start_def prom_stop_def exact_from_def)
  then have "exact_from (dc_last (pe_total p)) (increment (rm_total_requests (snapshot m)) (pe_total ?p))"
    using assms by (intro increment_exact) (simp_all add: prom_start_def prom_stop_def)
  then show ?thesis by (simp add: prom_update_metrics_def prom_start_def Let_def exact_from_def increment_def)
qed

theorem prom_restart_loses_witness:
  "dc_value (pe_total (prom_update_metrics 0 (MetricsCollector_new 0) (snd (prom_start True (prom_stop (Prom_Exporter_new [])))))) = 0"
  using prom_restart_loses [of "Prom_Exporter_new []" "MetricsCollector_new 0" 0] by (simp add: fresh_total Prom_Exporter_new_def Let_def)

text \<open>
  The embedded exporter serves at most 100 connections at a time, whatever starts, stops, connections and updates
  happen, and each has a thread that \<open>stop\<close> will join.
\<close>

theorem embedded_connections_bounded:
  assumes "Embedded_new addr = Inr x0" "ee_step\<^sup>*\<^sup>* x0 x"
  shows "ee_active x \<le> 100 \<and> ee_active x \<le> ee_threads x"
  using ee_reach_inv [OF assms] by (simp add: ee_inv_def kMaxConnections_def)

lemma bind_plain: "parse_bind_address [] = Inr \<lparr>ba_host = ''127.0.0.1'', ba_port = 9090\<rparr>"
  by (simp add: parse_bind_address_def rfind_char_def find_char_None [THEN iffD2])

lemma one_connection:
  "\<exists>x0 x. Embedded_new [] = Inr x0 \<and> ee_step\<^sup>*\<^sup>* x0 x \<and> ee_active x = 1"
proof -
  obtain x0 where x0: "Embedded_new [] = Inr x0" "ee_active x0 = 0" "\<not> ee_running x0" by (auto simp: Embedded_new_def bind_plain)
  let ?x1 = "snd (ee_start True x0)"
  have "ee_step x0 ?x1" by (rule ee_starts)
  moreover have "ee_step ?x1 (snd (ee_accept ?x1))" using x0 by (intro ee_accepts) (simp add: ee_start_def)
  moreover have "ee_active (snd (ee_accept ?x1)) = 1" using x0 by (simp add: ee_accept_def ee_start_def kMaxConnections_def)
  ultimately show ?thesis using x0(1) by (meson converse_rtranclp_into_rtranclp rtranclp.rtrancl_refl)
qed

theorem embedded_connections_bounded_witness:
  "\<exists>x0 x. Embedded_new [] = Inr x0 \<and> ee_step\<^sup>*\<^sup>* x0 x \<and> ee_active x = 1 \<and> ee_active x \<le> ee_threads x"
  using one_connection embedded_connections_bounded by blast

end
