(* ===== verification/Io_Pool.thy ===== *)
theory Io_Pool
  imports Volley_Error
begin

text \<open>
  The pool of \<open>io_context\<close>s, \<open>core/io_context_pool.cpp\<close>. A context is known by its position; what matters of it is
  whether it has been stopped, since \<open>run\<close> of a stopped context returns at once. A thread in the list runs the context of its number.
\<close>

record IoContextPool =
  ip_stopped :: "bool list"
  ip_guards :: nat
  ip_threads :: "nat list"
  ip_next :: u64
  ip_started :: bool

text \<open>\<open>hw\<close> is \<open>hardware_concurrency()\<close>.\<close>

definition IoContextPool_new :: "nat \<Rightarrow> nat \<Rightarrow> IoContextPool" where
  "IoContextPool_new hw pool_size =
     (let n = (if pool_size = 0 then (if hw = 0 then 2 else hw) else pool_size)
      in \<lparr>ip_stopped = replicate n False, ip_guards = n, ip_threads = [], ip_next = 0, ip_started = False\<rparr>)"

definition io_start :: "IoContextPool \<Rightarrow> IoContextPool" where
  "io_start p = (if ip_started p then p
     else p\<lparr>ip_started := True, ip_threads := ip_threads p @ [0..<length (ip_stopped p)]\<rparr>)"

definition io_stop :: "IoContextPool \<Rightarrow> IoContextPool" where
  "io_stop p = p\<lparr>ip_guards := 0, ip_stopped := map (\<lambda>_. True) (ip_stopped p), ip_threads := [], ip_started := False\<rparr>"

definition get_context :: "IoContextPool \<Rightarrow> (cpp_exn + nat) \<times> IoContextPool" where
  "get_context p =
     (if ip_stopped p = [] then (Inl (Runtime_error ''IoContextPool: get_context() called before initialization''), p)
      else (Inr (unat (ip_next p) mod length (ip_stopped p)), p\<lparr>ip_next := ip_next p + 1\<rparr>))"

fun get_contexts :: "nat \<Rightarrow> IoContextPool \<Rightarrow> (cpp_exn + nat) list \<times> IoContextPool" where
  "get_contexts 0 p = ([], p)"
| "get_contexts (Suc n) p = (let (r, p) = get_context p; (rs, p) = get_contexts n p in (r # rs, p))"

text \<open>The contexts that some thread serves: those with a thread, not stopped.\<close>

definition io_served :: "IoContextPool \<Rightarrow> nat list" where
  "io_served p = filter (\<lambda>i. \<not> ip_stopped p ! i) (ip_threads p)"

section \<open>Properties\<close>

lemma get_contexts_eq:
  assumes "ip_stopped p \<noteq> []" "unat (ip_next p) + n < 2 ^ 64"
  shows "fst (get_contexts n p) = map (\<lambda>i. Inr ((unat (ip_next p) + i) mod length (ip_stopped p))) [0..<n]"
  using assms
proof (induction n arbitrary: p)
  case (Suc n)
  let ?p = "p\<lparr>ip_next := ip_next p + 1\<rparr>"
  have u: "unat (ip_next p + 1) = unat (ip_next p) + 1" using Suc.prems(2) unat_add_lem [of "ip_next p" 1] by simp
  have "fst (get_contexts n ?p) = map (\<lambda>i. Inr ((unat (ip_next ?p) + i) mod length (ip_stopped ?p))) [0..<n]"
    using Suc.prems u by (intro Suc.IH) simp_all
  moreover have "[0..<Suc n] = 0 # map Suc [0..<n]" by (simp add: map_Suc_upt upt_conv_Cons del: upt_Suc)
  ultimately show ?case using Suc.prems(1) u by (auto simp: get_context_def comp_def case_prod_beta simp del: upt_Suc)
qed simp

lemma shifted_mod_inj: "inj_on (\<lambda>j. (s + j) mod n) {0..<n}" for s n :: nat
proof (rule linorder_inj_onI)
  fix a b assume ab: "a < b" "a \<in> {0..<n}" "b \<in> {0..<n}"
  then have "\<not> n dvd (s + b) - (s + a)" by (auto dest: dvd_imp_le)
  then show "(s + a) mod n \<noteq> (s + b) mod n" using mod_eq_dvd_iff_nat [of "s + a" "s + b" n] ab(1) by auto
qed auto

text \<open>
  Contexts are handed out in turn. Before the 64-bit counter wraps, every \<open>n\<close> calls in a row get the \<open>n\<close> contexts once each,
  and none of the calls fails.
\<close>

theorem io_round_robin:
  assumes "n = length (ip_stopped p)" "0 < n" "unat (ip_next p) + n < 2 ^ 64"
  shows "distinct (fst (get_contexts n p)) \<and> set (fst (get_contexts n p)) = Inr ` {0..<n}"
proof -
  let ?f = "\<lambda>j. (unat (ip_next p) + j) mod n"
  have ne: "ip_stopped p \<noteq> []" using assms(1,2) by auto
  have e: "fst (get_contexts n p) = map Inr (map ?f [0..<n])"
    using get_contexts_eq [OF ne assms(3)] unfolding assms(1) [symmetric] by simp
  have inj: "inj_on ?f {0..<n}" by (rule shifted_mod_inj)
  have "?f ` {0..<n} \<subseteq> {0..<n}" using assms(2) by (simp add: image_subset_iff)
  then have im: "?f ` {0..<n} = {0..<n}" using inj by (intro endo_inj_surj) simp_all
  have st: "set (map ?f [0..<n]) = {0..<n}" unfolding set_map set_upt by (rule im)
  have dis: "distinct (map ?f [0..<n])" unfolding distinct_map set_upt using inj by (intro conjI distinct_upt)
  have "distinct (map (Inr :: nat \<Rightarrow> cpp_exn + nat) ys) = distinct ys" for ys by (simp add: distinct_map)
  then show ?thesis unfolding e set_map [of Inr] st using dis by blast
qed

theorem io_round_robin_witness: "distinct (fst (get_contexts 3 (IoContextPool_new 8 3)))"
  using io_round_robin [of 3 "IoContextPool_new 8 3"] by (simp add: IoContextPool_new_def)

lemma io_served_first_start: "io_served (io_start (IoContextPool_new hw n)) = [0..<length (ip_stopped (IoContextPool_new hw n))]"
proof -
  let ?p = "IoContextPool_new hw n"
  obtain m where m: "ip_stopped ?p = replicate m False" "ip_threads ?p = []" "\<not> ip_started ?p"
    by (simp add: IoContextPool_new_def Let_def)
  have "filter (\<lambda>i. \<not> replicate m False ! i) [0..<m] = [0..<m]" by (intro filter_True) simp
  then show ?thesis by (simp add: io_served_def io_start_def m)
qed

lemma io_served_restart: "io_served (io_start (io_stop p)) = []"
proof -
  have "filter (\<lambda>i. \<not> map (\<lambda>_. True) (ip_stopped p) ! i) [0..<length (ip_stopped p)] = []" by (intro filter_False) simp
  then show ?thesis by (simp add: io_served_def io_start_def io_stop_def)
qed

text \<open>
  A pool that was stopped serves nothing when it is started again: its contexts stay stopped, so that each of its threads
  returns at once; only the first start serves every context.
\<close>

theorem io_restart_dead:
  "io_served (io_start (IoContextPool_new hw n)) = [0..<length (ip_stopped (IoContextPool_new hw n))]
   \<and> io_served (io_start (io_stop p)) = [] \<and> ip_guards (io_start (io_stop p)) = 0"
  by (simp add: io_served_first_start io_served_restart) (simp add: io_start_def io_stop_def)

end
