(* ===== verification/Engine_Worker.thy ===== *)
theory Engine_Worker
  imports Engine_Run Auth_Provider
begin

text \<open>
  One pass through the loop of an engine's worker, \<open>core/scenario/engine.cpp\<close>, from the token to the request that is handed to the
  client: the choice of a scenario and of its step, the request and its authentication. The draw of the random generator, the clock
  readings and what the token server does are arguments.
\<close>

section \<open>The pass\<close>

text \<open>The counter of steps is one for all scenarios.\<close>

definition choose_step :: "ScenarioDef list \<Rightarrow> nat \<Rightarrow> u64 \<Rightarrow> HttpStep option \<times> u64" where
  "choose_step ss pick ix = (case pick_weighted_scenario ss pick of
     None \<Rightarrow> (None, ix)
   | Some i \<Rightarrow>
       if sd_steps (ss ! i) = [] then (None, ix)
       else (Some (sd_steps (ss ! i) ! (unat ix mod length (sd_steps (ss ! i)))), ix + 1))"

fun choose_steps :: "ScenarioDef list \<Rightarrow> nat list \<Rightarrow> u64 \<Rightarrow> HttpStep option list" where
  "choose_steps ss [] ix = []"
| "choose_steps ss (pick # picks) ix = (case choose_step ss pick ix of (s, ix) \<Rightarrow> s # choose_steps ss picks ix)"

text \<open>
  What the clock and the token server do during one request: the reading for \<open>is_expired\<close> and what a refresh meets, and
  the same for \<open>apply_headers\<close>.
\<close>

record Auth_World =
  aw_test :: int
  aw_refresh_net :: Post_Net
  aw_refresh :: int
  aw_test_again :: int
  aw_apply_net :: Post_Net
  aw_apply :: int

definition worker_auth :: "'j Auth_Json \<Rightarrow> Auth_World \<Rightarrow> (string \<times> string) list \<Rightarrow> AuthProvider \<Rightarrow> (string \<times> string) list \<times> AuthProvider" where
  "worker_auth J W headers a =
     (let a = (if is_expired (aw_test W) a then snd (refresh_token J (aw_refresh_net W) (aw_refresh W) a) else a)
      in apply_headers J (aw_apply_net W) (aw_test_again W) (aw_apply W) headers a)"

record Worker =
  wk_step_ix :: u64
  wk_engine :: ScenarioEngine
  wk_auth :: "AuthProvider option"

text \<open>\<open>None\<close> when the pass continues without a request.\<close>

definition worker_attempt :: "'j Auth_Json \<Rightarrow> Auth_World \<Rightarrow> time_ns \<Rightarrow> nat \<Rightarrow> Worker \<Rightarrow> (HttpStep \<times> NetRequest) option \<times> Worker" where
  "worker_attempt J W now pick w =
     (case try_consume now (en_bucket (wk_engine w)) of
        (False, b) \<Rightarrow> (None, w\<lparr>wk_engine := (wk_engine w)\<lparr>en_bucket := b\<rparr>\<rparr>)
      | (True, b) \<Rightarrow>
          let e = (wk_engine w)\<lparr>en_bucket := b\<rparr>
          in (case choose_step (scenarios (en_config e)) pick (wk_step_ix w) of
                (None, ix) \<Rightarrow> (None, w\<lparr>wk_engine := e\<rparr>)
              | (Some st, ix) \<Rightarrow>
                  (case step_request st e of
                     (req, e) \<Rightarrow>
                       (case wk_auth w of
                          None \<Rightarrow> (Some (st, req), w\<lparr>wk_engine := e, wk_step_ix := ix\<rparr>)
                        | Some a \<Rightarrow>
                            (case worker_auth J W (nr_headers req) a of
                               (hs, a) \<Rightarrow> (Some (st, req\<lparr>nr_headers := hs\<rparr>), w\<lparr>wk_engine := e, wk_step_ix := ix, wk_auth := Some a\<rparr>))))))"

text \<open>
  Leaving the loop: the flag of the last request, \<open>None\<close> when there was none, decides whether the client may go back to the pool.
\<close>

definition client_dropped :: "bool option \<Rightarrow> bool" where
  "client_dropped last_done \<longleftrightarrow> last_done = Some False"

section \<open>Facts\<close>

lemma choose_steps_append: "choose_steps ss (ps @ qs) ix
    = choose_steps ss ps ix @ choose_steps ss qs (ix + of_nat (length (filter (\<lambda>s. s \<noteq> None) (choose_steps ss ps ix))))"
proof (induction ps arbitrary: ix)
  case (Cons p ps)
  have "snd (choose_step ss p ix) = ix + (if fst (choose_step ss p ix) = None then 0 else 1)"
    by (simp add: choose_step_def split: option.split)
  with Cons show ?case by (cases "choose_step ss p ix") (auto simp: ac_simps)
qed simp

lemma choose_single:
  assumes "sd_steps s \<noteq> []" "unat ix + n < 2 ^ 64"
  shows "choose_steps [s] (replicate n p) ix = map (\<lambda>k. Some (sd_steps s ! ((unat ix + k) mod length (sd_steps s)))) [0..<n]"
  using assms(2)
proof (induction n arbitrary: ix)
  case (Suc n)
  have "unat ix + 1 < 2 ^ 64" using Suc.prems by simp
  then have u: "unat (ix + 1) = unat ix + 1" using unat_add_lem [of ix 1] by simp
  have "pick_weighted_scenario [s] p = Some 0" by (simp add: pick_weighted_scenario_def)
  then have "choose_step [s] p ix = (Some (sd_steps s ! (unat ix mod length (sd_steps s))), ix + 1)"
    using assms(1) by (simp add: choose_step_def)
  moreover have "[0..<Suc n] = 0 # map Suc [0..<n]" by (simp add: map_Suc_upt upt_conv_Cons del: upt_Suc)
  moreover have "choose_steps [s] (replicate n p) (ix + 1) = map (\<lambda>k. Some (sd_steps s ! ((unat (ix + 1) + k) mod length (sd_steps s)))) [0..<n]"
    using Suc.prems u by (intro Suc.IH) simp
  ultimately show ?case using u by (simp add: comp_def del: upt_Suc)
qed simp

lemma refresh_ready: "oauth_ready a \<Longrightarrow> oauth_ready (snd (refresh_token J P now a))"
  using fetch_ready [of J P now a] by (cases "fetch_token J P now a") (auto simp: refresh_token_def)

lemma worker_auth_ready:
  assumes "oauth_ready a" "worker_auth J W hs a = (hs', a')"
  shows "oauth_ready a' \<and> map_of hs' ''Authorization'' = Some (''Bearer '' @ current_token a')"
proof -
  let ?a = "if is_expired (aw_test W) a then snd (refresh_token J (aw_refresh_net W) (aw_refresh W) a) else a"
  have r: "oauth_ready ?a" using assms(1) refresh_ready [OF assms(1)] by auto
  obtain tok a2 where g: "get_token J (aw_apply_net W) (aw_test_again W) (aw_apply W) ?a = (tok, a2)" by fastforce
  have t: "oauth_ready a2 \<and> tok = current_token a2" using get_token_ready [OF g r] .
  have "apply_headers J (aw_apply_net W) (aw_test_again W) (aw_apply W) hs ?a = (hs', a')"
    using assms(2) by (simp only: worker_auth_def Let_def)
  then have "a' = a2" "hs' = AList.update ''Authorization'' (''Bearer '' @ tok) hs"
    using r g t by (auto simp: apply_headers_def oauth_ready_def)
  with t show ?thesis by simp
qed

lemma apply_failing:
  assumes "ac_type (au_config a) = Auth_oauth2" "now \<ge> token_expiry a" "fetch_token J P now' a = (err e, a')"
  shows "snd (apply_headers J P now now' hs a) = a'"
  using assms by (simp add: apply_headers_def get_token_def Let_def)

lemma choose_even_odd:
  assumes "length (sd_steps A) = 2" "length (sd_steps B) = 2" "scenario_weight A = 1" "even (unat ix)" "unat ix + 2 * n < 2 ^ 64"
  shows "choose_steps [A, B] (concat (replicate n [0, 1])) ix = concat (replicate n [Some (sd_steps A ! 0), Some (sd_steps B ! 1)])"
  using assms(4,5)
proof (induction n arbitrary: ix)
  case (Suc n)
  have "unat ix + 1 < 2 ^ 64" "unat ix + 2 < 2 ^ 64" using Suc.prems(2) by simp_all
  then have u: "unat (ix + 1) = unat ix + 1" "unat (ix + 2) = unat ix + 2"
    using unat_add_lem [of ix 1] unat_add_lem [of ix 2] by simp_all
  have "choose_step [A, B] 0 ix = (Some (sd_steps A ! 0), ix + 1)"
    using assms(1,3) Suc.prems(1) by (auto simp: choose_step_def pick_weighted_scenario_def)
  moreover have "pick_weighted_scenario [A, B] 1 = Some 1" using assms(3) by (simp add: pick_weighted_scenario_def)
  then have "choose_step [A, B] 1 (ix + 1) = (Some (sd_steps B ! 1), ix + 2)"
    using assms(2) Suc.prems(1) u(1) by (auto simp: choose_step_def mod_2_eq_odd)
  moreover have "choose_steps [A, B] (concat (replicate n [0, 1])) (ix + 2) = concat (replicate n [Some (sd_steps A ! 0), Some (sd_steps B ! 1)])"
    using Suc.prems u(2) by (intro Suc.IH) simp_all
  ultimately show ?case by simp
qed simp

lemma sent_when_granted:
  assumes "try_consume now (en_bucket (wk_engine w)) = (True, b)" "choose_step (scenarios (en_config (wk_engine w))) pick (wk_step_ix w) = (Some st, ix)"
  shows "\<exists>req w'. worker_attempt J W now pick w = (Some (st, req), w')"
proof -
  obtain req e where s: "step_request st ((wk_engine w)\<lparr>en_bucket := b\<rparr>) = (req, e)" by fastforce
  show ?thesis
  proof (cases "wk_auth w")
    case (Some a)
    obtain hs a' where "worker_auth J W (nr_headers req) a = (hs, a')" by fastforce
    with Some show ?thesis using assms s by (simp add: worker_attempt_def)
  qed (use assms s in \<open>simp add: worker_attempt_def\<close>)
qed

section \<open>Properties\<close>

text \<open>
  C20: With OAuth2 every request a worker sends carries a bearer token: once the provider has had a token, the request of any pass has the
  Authorization header with the token the provider holds then, whatever the token server does in between.
\<close>

theorem worker_requests_bearer:
  assumes "wk_auth w = Some a" "oauth_ready a" "worker_attempt J W now pick w = (Some (st, req), w')"
  shows "\<exists>a'. wk_auth w' = Some a' \<and> oauth_ready a' \<and> map_of (nr_headers req) ''Authorization'' = Some (''Bearer '' @ current_token a')"
proof -
  from assms(1,3) obtain req0 hs a' where a: "worker_auth J W (nr_headers req0) a = (hs, a')" and r: "req = req0\<lparr>nr_headers := hs\<rparr>" "wk_auth w' = Some a'"
    by (auto simp: worker_attempt_def Let_def split: prod.splits bool.splits option.splits)
  from worker_auth_ready [OF assms(2) a] r show ?thesis by (intro exI [of _ a']) simp
qed

definition bearer_worker :: Worker where
  "bearer_worker = \<lparr>wk_step_ix = 0, wk_engine = \<lparr>en_stopped = False, en_config_path = [],
     en_config = ScenarioConfig_default\<lparr>scenarios := [ScenarioDef_default\<lparr>sd_steps := [HttpStep_default]\<rparr>]\<rparr>, en_last_error = [],
     en_bucket = \<lparr>tb_rate = 5, tb_burst = 5, tb_tokens = 5, tb_last_refill = 0\<rparr>, en_target_rps = 5, en_max_duration_ms = 0, en_worker_failures = 0\<rparr>,
     wk_auth = Some \<lparr>au_config = oauth_config, current_token = ''tok'', token_expiry = 100, au_posts = 1\<rparr>\<rparr>"

definition calm_world :: Auth_World where
  "calm_world = \<lparr>aw_test = 0, aw_refresh_net = net_reply 500, aw_refresh = 0, aw_test_again = 0, aw_apply_net = net_reply 500, aw_apply = 0\<rparr>"

theorem worker_requests_bearer_witness:
  "\<exists>st req w'. worker_attempt (json_reply ''t'' 1) calm_world 0 0 bearer_worker = (Some (st, req), w')
     \<and> map_of (nr_headers req) ''Authorization'' \<noteq> None"
proof -
  have b: "try_consume 0 (en_bucket (wk_engine bearer_worker)) = (True, take_token (en_bucket (wk_engine bearer_worker)))"
    by (simp add: bearer_worker_def try_consume_def refill_def elapsed_sec_def fdiv_def)
  have "choose_step (scenarios (en_config (wk_engine bearer_worker))) 0 (wk_step_ix bearer_worker) = (Some HttpStep_default, 1)"
    by (simp add: bearer_worker_def choose_step_def pick_weighted_scenario_def scenario_weight_def ScenarioDef_default_def)
  then obtain st req w' where at: "worker_attempt (json_reply ''t'' 1) calm_world 0 0 bearer_worker = (Some (st, req), w')"
    using sent_when_granted [OF b] by blast
  have "wk_auth bearer_worker = Some \<lparr>au_config = oauth_config, current_token = ''tok'', token_expiry = 100, au_posts = 1\<rparr>"
    by (simp add: bearer_worker_def)
  from worker_requests_bearer [OF this _ at] at show ?thesis by (auto simp: oauth_ready_def oauth_config_def)
qed

text \<open>
  With one scenario a worker takes its steps in turn, from the first to the last and again, until the 64-bit counter wraps.
\<close>

theorem steps_in_turn:
  assumes "sd_steps s \<noteq> []" "n < 2 ^ 64"
  shows "choose_steps [s] (replicate n p) 0 = map (\<lambda>k. Some (sd_steps s ! (k mod length (sd_steps s)))) [0..<n]"
  using choose_single [of s 0 n p] assms by simp

theorem steps_in_turn_witness:
  "choose_steps [ScenarioDef_default\<lparr>sd_steps := [HttpStep_default, HttpStep_default\<lparr>hs_path := ''/b''\<rparr>]\<rparr>] (replicate 3 0) 0
     = [Some HttpStep_default, Some (HttpStep_default\<lparr>hs_path := ''/b''\<rparr>), Some HttpStep_default]"
  using steps_in_turn [of "ScenarioDef_default\<lparr>sd_steps := [HttpStep_default, HttpStep_default\<lparr>hs_path := ''/b''\<rparr>]\<rparr>" 3 0]
  by (simp add: upt_rec)

text \<open>
  With several scenarios steps are skipped: the counter is shared by all scenarios, so when the draws alternate between two scenarios
  of two steps a worker only ever sends the first step of one and the second step of the other.
\<close>

theorem shared_counter_skips:
  assumes "length (sd_steps A) = 2" "length (sd_steps B) = 2" "scenario_weight A = 1" "n < 2 ^ 62"
  shows "choose_steps [A, B] (concat (replicate n [0, 1])) 0 = concat (replicate n [Some (sd_steps A ! 0), Some (sd_steps B ! 1)])"
  using choose_even_odd [OF assms(1-3), of 0 n] assms(4) by simp

theorem shared_counter_skips_witness:
  "choose_steps [ScenarioDef_default\<lparr>sd_weight := 1, sd_steps := [HttpStep_default, HttpStep_default\<lparr>hs_path := ''/pay''\<rparr>]\<rparr>,
      ScenarioDef_default\<lparr>sd_weight := 1, sd_steps := [HttpStep_default\<lparr>hs_path := ''/login''\<rparr>, HttpStep_default\<lparr>hs_path := ''/out''\<rparr>]\<rparr>] (concat (replicate 2 [0, 1])) 0
     = concat (replicate 2 [Some HttpStep_default, Some (HttpStep_default\<lparr>hs_path := ''/out''\<rparr>)])"
proof -
  let ?A = "ScenarioDef_default\<lparr>sd_weight := 1, sd_steps := [HttpStep_default, HttpStep_default\<lparr>hs_path := ''/pay''\<rparr>]\<rparr>"
    and ?B = "ScenarioDef_default\<lparr>sd_weight := 1, sd_steps := [HttpStep_default\<lparr>hs_path := ''/login''\<rparr>, HttpStep_default\<lparr>hs_path := ''/out''\<rparr>]\<rparr>"
  have "choose_steps [?A, ?B] (concat (replicate 2 [0, 1])) 0 = concat (replicate 2 [Some (sd_steps ?A ! 0), Some (sd_steps ?B ! 1)])"
    by (rule shared_counter_skips) (simp_all add: scenario_weight_def)
  then show ?thesis by simp
qed

text \<open>
  While the token server fails every request of a worker costs two token requests: the worker refreshes an expired token
  and then \<open>apply_headers\<close>, finding it expired still, tries again.
\<close>

theorem failing_refresh_doubles:
  assumes "ac_type (au_config a) = Auth_oauth2" "aw_test W \<ge> token_expiry a" "aw_test_again W \<ge> token_expiry a"
    and "fetch_token J (aw_refresh_net W) (aw_refresh W) a = (err e, a1)" "fetch_token J (aw_apply_net W) (aw_apply W) a1 = (err e', a2)"
  shows "au_posts (snd (worker_auth J W hs a)) = au_posts a + 2 \<and> token_expiry (snd (worker_auth J W hs a)) = token_expiry a"
proof -
  have 1: "ac_type (au_config a1) = Auth_oauth2" "token_expiry a1 = token_expiry a" "au_posts a1 = au_posts a + 1"
    using assms(1) fetch_token_frame [OF assms(4)] fetch_token_err [OF assms(4)] by simp_all
  have "worker_auth J W hs a = apply_headers J (aw_apply_net W) (aw_test_again W) (aw_apply W) hs a1"
    using assms(1,2,4) by (simp add: worker_auth_def is_expired_def refresh_token_def)
  moreover have "snd (apply_headers J (aw_apply_net W) (aw_test_again W) (aw_apply W) hs a1) = a2"
    using 1 assms(3,5) by (intro apply_failing) simp_all
  ultimately show ?thesis using 1 fetch_token_frame [OF assms(5)] fetch_token_err [OF assms(5)] by simp
qed

theorem failing_refresh_doubles_witness:
  "au_posts (snd (worker_auth (json_reply ''t'' 1) (calm_world\<lparr>aw_test := 200, aw_test_again := 200\<rparr>) []
     \<lparr>au_config = oauth_config, current_token = ''tok'', token_expiry = 100, au_posts = 1\<rparr>)) = 3"
proof -
  let ?a = "\<lparr>au_config = oauth_config, current_token = ''tok'', token_expiry = 100, au_posts = 1\<rparr>"
  have f: "fetch_token (json_reply ''t'' 1) (net_reply 500) 0 a = (err auth_server_error, a\<lparr>au_posts := au_posts a + 1\<rparr>)" for a
    by (simp add: fetch_token_def do_sync_post_def post_exchange_def net_reply_def Let_def)
  have "au_posts (snd (worker_auth (json_reply ''t'' 1) (calm_world\<lparr>aw_test := 200, aw_test_again := 200\<rparr>) [] ?a)) = au_posts ?a + 2"
    by (rule conjunct1 [OF failing_refresh_doubles [of ?a "calm_world\<lparr>aw_test := 200, aw_test_again := 200\<rparr>" "json_reply ''t'' 1"
          auth_server_error "?a\<lparr>au_posts := 2\<rparr>" auth_server_error "?a\<lparr>au_posts := 3\<rparr>" "[]"]])
      (simp_all add: calm_world_def f oauth_config_def)
  then show ?thesis by simp
qed

end
