(* ===== verification/Load_Workers.thy ===== *)
theory Load_Workers
  imports Cli_Args Token_Bucket
begin

text \<open>
  The two stand-alone workers, \<open>workers/http_worker/main.cpp\<close> and \<open>workers/grpc_worker/main.cpp\<close>. The HTTP worker is a step relation: its main
  thread issues requests, the thread that runs the \<open>io_context\<close> completes them, and the context stops by itself when it runs
  out of work, as Boost documents. Of the controller the gRPC worker talks to, the replies are arguments. Output is left out.
\<close>

section \<open>Arguments of the HTTP worker\<close>

record WorkerConfig =
  wc_target_host :: string
  wc_target_port :: string
  wc_target_path :: string
  wc_method :: string
  wc_rps :: u32
  wc_duration_sec :: int
  wc_report_interval_sec :: int
  wc_use_tls :: bool
  wc_tls_verify :: bool
  wc_show_help :: bool

definition WorkerConfig_default :: WorkerConfig where
  "WorkerConfig_default = \<lparr>wc_target_host = ''localhost'', wc_target_port = ''8080'', wc_target_path = ''/'', wc_method = ''GET'', wc_rps = 100,
     wc_duration_sec = 60, wc_report_interval_sec = 5, wc_use_tls = False, wc_tls_verify = True, wc_show_help = False\<rparr>"

text \<open>The value behind the equals sign or in the next argument; \<open>None\<close> is \<open>exit(1)\<close>.\<close>

fun worker_value :: "string option \<Rightarrow> string list \<Rightarrow> (string \<times> string list) option" where
  "worker_value (Some v) rest = Some (v, rest)"
| "worker_value None (a # rest) = Some (a, rest)"
| "worker_value None [] = None"

definition to_bool :: "string \<Rightarrow> bool" where
  "to_bool s \<longleftrightarrow> \<not> (s = ''0'' \<or> s = ''false'' \<or> s = ''off'' \<or> s = ''no'')"

definition worker_int :: "(int \<Rightarrow> WorkerConfig \<Rightarrow> WorkerConfig) \<Rightarrow> string \<Rightarrow> WorkerConfig \<Rightarrow> WorkerConfig option" where
  "worker_int set_it v c = (case stoi v of Inl _ \<Rightarrow> None | Inr n \<Rightarrow> Some (set_it n c))"

definition worker_valued :: "string \<Rightarrow> (string \<Rightarrow> WorkerConfig \<Rightarrow> WorkerConfig option) option" where
  "worker_valued key = map_of
     [(''--host'', \<lambda>v c. Some (c\<lparr>wc_target_host := v\<rparr>)), (''--port'', \<lambda>v c. Some (c\<lparr>wc_target_port := v\<rparr>)),
      (''--path'', \<lambda>v c. Some (c\<lparr>wc_target_path := v\<rparr>)), (''--method'', \<lambda>v c. Some (c\<lparr>wc_method := v\<rparr>)),
      (''--rps'', worker_int (\<lambda>n c. c\<lparr>wc_rps := word_of_int n\<rparr>)), (''--duration'', worker_int (\<lambda>n c. c\<lparr>wc_duration_sec := n\<rparr>)),
      (''--report-interval'', worker_int (\<lambda>n c. c\<lparr>wc_report_interval_sec := n\<rparr>)),
      (''--tls-verify'', \<lambda>v c. Some (c\<lparr>wc_tls_verify := to_bool v\<rparr>))] key"

lemma worker_value_length: "worker_value v rest = Some (x, rest') \<Longrightarrow> length rest' \<le> length rest"
  by (cases "(v, rest)" rule: worker_value.cases) auto

text \<open>\<open>None\<close> is \<open>exit(1)\<close>.\<close>

function worker_parse_args :: "WorkerConfig \<Rightarrow> string list \<Rightarrow> WorkerConfig option" where
  "worker_parse_args c [] = Some c"
| "worker_parse_args c (arg # rest) = (case worker_valued (fst (split_key arg)) of
     Some f \<Rightarrow> (case worker_value (snd (split_key arg)) rest of
         None \<Rightarrow> None
       | Some (v, rest') \<Rightarrow> (case f v c of None \<Rightarrow> None | Some c \<Rightarrow> worker_parse_args c rest'))
   | None \<Rightarrow>
       if fst (split_key arg) = ''--use-tls'' \<or> fst (split_key arg) = ''--tls''
       then worker_parse_args (c\<lparr>wc_use_tls := (case snd (split_key arg) of Some v \<Rightarrow> to_bool v | None \<Rightarrow> True)\<rparr>) rest
       else worker_parse_args (c\<lparr>wc_show_help := True\<rparr>) rest)"
  by pat_completeness auto
termination by (relation "measure (length \<circ> snd)") (auto dest: worker_value_length)

text \<open>How a worker ends, and the start of a run with its bucket.\<close>

datatype Worker_Exit = Exit_with nat | Uncaught cpp_exn

definition http_worker_start :: "string list \<Rightarrow> time_ns \<Rightarrow> Worker_Exit + WorkerConfig \<times> TokenBucket" where
  "http_worker_start argv now = (case worker_parse_args WorkerConfig_default (drop 1 argv) of
     None \<Rightarrow> Inl (Exit_with 1)
   | Some c \<Rightarrow>
       if wc_show_help c then Inl (Exit_with 0)
       else if wc_rps c = 0 then Inl (Exit_with 1)
       else case TokenBucket_new (of_nat (unat (wc_rps c))) 1 now of Inl e \<Rightarrow> Inl (Uncaught e) | Inr b \<Rightarrow> Inr (c, b))"

definition http_worker_request :: "WorkerConfig \<Rightarrow> NetRequest" where
  "http_worker_request c = NetRequest_default\<lparr>nr_method := wc_method c, nr_path := wc_target_path c, nr_host := wc_target_host c,
     nr_use_tls := wc_use_tls c,
     nr_port := (case stoul (wc_target_port c) of Inl _ \<Rightarrow> 80 | Inr p \<Rightarrow> if p > 0 \<and> p \<le> 65535 then ucast p else 80)\<rparr>"

text \<open>What the callback records; it does not look at the error code.\<close>

definition http_worker_obs :: "NetResponse \<Rightarrow> Obs" where
  "http_worker_obs resp = \<lparr>ob_status = ns_status_code resp, ob_latency = ns_latency resp, ob_sent = 0, ob_received = of_nat (length (ns_body resp))\<rparr>"

section \<open>A run of the HTTP worker\<close>

text \<open>
  \<open>hw_in_flight\<close> counts the requests whose callback is still to come, \<open>hw_io\<close> says whether the thread of the context is in \<open>run\<close>,
  \<open>hw_pass\<close> whether the main thread is between its request and the token for the next one, \<open>hw_issued\<close> counts the requests and \<open>hw_now\<close> is
  the last reading of the steady clock.
\<close>

record HttpWorker =
  hw_running :: bool
  hw_pass :: bool
  hw_bucket :: TokenBucket
  hw_io :: bool
  hw_in_flight :: nat
  hw_metrics :: MetricsCollector
  hw_issued :: nat
  hw_now :: time_ns

definition HttpWorker_new :: "TokenBucket \<Rightarrow> time_ns \<Rightarrow> HttpWorker" where
  "HttpWorker_new b now = \<lparr>hw_running = True, hw_pass = False, hw_bucket = b, hw_io = True, hw_in_flight = 0, hw_metrics = MetricsCollector_new now, hw_issued = 0, hw_now = now\<rparr>"

text \<open>
  \<open>ending\<close> is the end of the run and \<open>good\<close> says whether the client takes the request; one with an unknown method is answered by the client
  at once, on the main thread. A context without work stops, and \<open>run\<close> of a stopped context does not come back to its work.
\<close>

inductive hw_step :: "time_ns \<Rightarrow> bool \<Rightarrow> HttpWorker \<Rightarrow> HttpWorker \<Rightarrow> bool" for ending good where
  Issue: "hw_running s \<Longrightarrow> \<not> hw_pass s \<Longrightarrow> hw_now s \<le> now \<Longrightarrow> now < ending \<Longrightarrow> good
    \<Longrightarrow> hw_step ending good s (s\<lparr>hw_now := now, hw_pass := True, hw_in_flight := Suc (hw_in_flight s), hw_issued := Suc (hw_issued s)\<rparr>)"
| Refuse: "hw_running s \<Longrightarrow> \<not> hw_pass s \<Longrightarrow> hw_now s \<le> now \<Longrightarrow> now < ending \<Longrightarrow> \<not> good \<Longrightarrow> mc_record (http_worker_obs resp) (hw_metrics s) = Some m
    \<Longrightarrow> hw_step ending good s (s\<lparr>hw_now := now, hw_pass := True, hw_metrics := m, hw_issued := Suc (hw_issued s)\<rparr>)"
| Sleep: "hw_pass s \<Longrightarrow> hw_now s \<le> now \<Longrightarrow> consume_pass now (hw_bucket s) = (Inl w, b) \<Longrightarrow> hw_step ending good s (s\<lparr>hw_now := now, hw_bucket := b\<rparr>)"
| Consume: "hw_pass s \<Longrightarrow> hw_now s \<le> now \<Longrightarrow> consume_pass now (hw_bucket s) = (Inr (), b)
    \<Longrightarrow> hw_step ending good s (s\<lparr>hw_now := now, hw_bucket := b, hw_pass := False\<rparr>)"
| Complete: "hw_io s \<Longrightarrow> hw_in_flight s = Suc n \<Longrightarrow> mc_record (http_worker_obs resp) (hw_metrics s) = Some m
    \<Longrightarrow> hw_step ending good s (s\<lparr>hw_in_flight := n, hw_metrics := m\<rparr>)"
| Out_of_work: "hw_io s \<Longrightarrow> hw_in_flight s = 0 \<Longrightarrow> hw_step ending good s (s\<lparr>hw_io := False\<rparr>)"
| Signal: "hw_step ending good s (s\<lparr>hw_running := False\<rparr>)"
| Stop: "\<not> hw_pass s \<Longrightarrow> hw_now s \<le> now \<Longrightarrow> \<not> hw_running s \<or> now \<ge> ending
    \<Longrightarrow> hw_step ending good s (s\<lparr>hw_now := now, hw_running := False, hw_io := False\<rparr>)"

section \<open>The gRPC worker\<close>

record GrpcWorker =
  gw_worker_id :: string
  gw_max_rps :: int
  gw_worker_id_assigned :: int

record RegisterReply =
  rr_ok :: bool
  rr_accepted :: bool
  rr_assigned_worker_id :: int

record TaskSpec =
  ts_target_url :: string
  ts_target_rps :: int
  ts_duration_seconds :: int
  ts_headers :: "(string \<times> string) list"

definition register_worker :: "RegisterReply \<Rightarrow> GrpcWorker \<Rightarrow> bool \<times> GrpcWorker" where
  "register_worker r g =
     (if rr_ok r \<and> rr_accepted r then (True, g\<lparr>gw_worker_id_assigned := rr_assigned_worker_id r\<rparr>) else (False, g))"

text \<open>The reply to \<open>AssignTask\<close>: whether the call succeeded, whether there is a task, and the task.\<close>

definition assign_task :: "bool \<times> bool \<times> TaskSpec \<Rightarrow> TaskSpec option" where
  "assign_task r = (case r of (ok_status, has_task, task) \<Rightarrow> if ok_status \<and> has_task then Some task else None)"

text \<open>The three global counters.\<close>

record GrpcCounters =
  gc_total :: int
  gc_successful :: int
  gc_failed :: int

definition grpc_on_response :: "Err option \<times> NetResponse \<Rightarrow> GrpcCounters \<Rightarrow> GrpcCounters" where
  "grpc_on_response r c = (case r of (ec, resp) \<Rightarrow>
     if ec \<noteq> None then c\<lparr>gc_failed := gc_failed c + 1\<rparr>
     else let c = c\<lparr>gc_total := gc_total c + 1\<rparr>
          in if ns_status_code resp \<ge> 200 \<and> ns_status_code resp < 400 then c\<lparr>gc_successful := gc_successful c + 1\<rparr>
             else c\<lparr>gc_failed := gc_failed c + 1\<rparr>)"

record MetricsReport =
  mr_worker_id :: int
  mr_total_requests :: int
  mr_successful_requests :: int
  mr_failed_requests :: int
  mr_error_rate :: rat

definition report_metrics :: "GrpcWorker \<Rightarrow> GrpcCounters \<Rightarrow> MetricsReport" where
  "report_metrics g c = \<lparr>mr_worker_id = gw_worker_id_assigned g, mr_total_requests = gc_total c, mr_successful_requests = gc_successful c,
     mr_failed_requests = gc_failed c,
     mr_error_rate = (if gc_total c > 0 then fmul (fdiv (rnd (of_int (gc_failed c))) (rnd (of_int (gc_total c)))) 100 else 0)\<rparr>"

definition grpc_request :: "TaskSpec \<Rightarrow> NetRequest" where
  "grpc_request t =
     (let u = parse_url (ts_target_url t)
      in NetRequest_default\<lparr>nr_method := ''GET'', nr_path := up_path u, nr_host := up_host u, nr_use_tls := up_tls u,
           nr_port := (case stoul (up_port u) of Inr p \<Rightarrow> if p > 0 \<and> p \<le> 65535 then ucast p else 80 | Inl _ \<Rightarrow> 80),
           nr_headers := fold (\<lambda>(k, v) hs. AList.update k v hs) (ts_headers t) []\<rparr>)"

text \<open>
  \<open>run_load_test\<close>, given the responses in the order in which their callbacks ran: every request issued is answered before it returns, since it
  drains the context. The counters go on from task to task.
\<close>

definition run_load_test :: "TaskSpec \<Rightarrow> time_ns \<Rightarrow> (Err option \<times> NetResponse) list \<Rightarrow> GrpcCounters \<Rightarrow> cpp_exn + GrpcCounters" where
  "run_load_test t now rs c = (case TokenBucket_new (of_int (ts_target_rps t)) 1 now of Inl e \<Rightarrow> Inl e | Inr _ \<Rightarrow> Inr (fold grpc_on_response rs c))"

text \<open>
  The loop of \<open>main\<close> after the registration: each round has the reply to \<open>AssignTask\<close>, a clock reading and the responses of the task; the end of the list
  is the signal. An exception leaves \<open>main\<close>.
\<close>

fun grpc_rounds :: "((bool \<times> bool \<times> TaskSpec) \<times> time_ns \<times> (Err option \<times> NetResponse) list) list \<Rightarrow> GrpcCounters \<Rightarrow> cpp_exn + GrpcCounters" where
  "grpc_rounds [] c = Inr c"
| "grpc_rounds ((reply, now, rs) # rounds) c = (case assign_task reply of
     None \<Rightarrow> grpc_rounds rounds c
   | Some t \<Rightarrow> (case run_load_test t now rs c of Inl e \<Rightarrow> Inl e | Inr c \<Rightarrow> grpc_rounds rounds c))"

record GrpcArgs =
  ga_controller :: string
  ga_worker_id :: string
  ga_max_rps :: int

text \<open>Unknown options are passed over. \<open>Inl\<close> is the exit code of a parser that ends the program.\<close>

function grpc_parse_args :: "GrpcArgs \<Rightarrow> string list \<Rightarrow> nat + GrpcArgs" where
  "grpc_parse_args a [] = Inr a"
| "grpc_parse_args a (arg # rest) =
     (if fst (split_key arg) \<in> {''--controller'', ''--worker-id'', ''--max-rps''} then
        case worker_value (snd (split_key arg)) rest of
          None \<Rightarrow> Inl 1
        | Some (v, rest') \<Rightarrow>
            if fst (split_key arg) = ''--controller'' then grpc_parse_args (a\<lparr>ga_controller := v\<rparr>) rest'
            else if fst (split_key arg) = ''--worker-id'' then grpc_parse_args (a\<lparr>ga_worker_id := v\<rparr>) rest'
            else (case stoi v of Inl _ \<Rightarrow> Inl 1 | Inr n \<Rightarrow> grpc_parse_args (a\<lparr>ga_max_rps := n\<rparr>) rest')
      else if fst (split_key arg) = ''--help'' then Inl 0
      else grpc_parse_args a rest)"
  by pat_completeness auto
termination by (relation "measure (length \<circ> snd)") (auto dest: worker_value_length)

definition grpc_main :: "string list \<Rightarrow> RegisterReply \<Rightarrow> ((bool \<times> bool \<times> TaskSpec) \<times> time_ns \<times> (Err option \<times> NetResponse) list) list \<Rightarrow> Worker_Exit" where
  "grpc_main argv reg rounds =
     (case grpc_parse_args \<lparr>ga_controller = ''localhost:5000'', ga_worker_id = ''worker-1'', ga_max_rps = 5000\<rparr> (drop 1 argv) of
        Inl n \<Rightarrow> Exit_with n
      | Inr a \<Rightarrow>
          if \<not> fst (register_worker reg \<lparr>gw_worker_id = ga_worker_id a, gw_max_rps = ga_max_rps a, gw_worker_id_assigned = 0\<rparr>) then Exit_with 1
          else case grpc_rounds rounds \<lparr>gc_total = 0, gc_successful = 0, gc_failed = 0\<rparr> of Inl e \<Rightarrow> Uncaught e | Inr _ \<Rightarrow> Exit_with 0)"

section \<open>Facts\<close>

definition hw_inv :: "time_ns \<Rightarrow> HttpWorker \<Rightarrow> bool" where
  "hw_inv start s \<longleftrightarrow> (\<exists>obs. record_all mc_record obs (MetricsCollector_new start) = Some (hw_metrics s) \<and> length obs + hw_in_flight s = hw_issued s)"

lemma hw_recorded: "record_all mc_record obs m0 = Some m \<Longrightarrow> mc_record ob m = Some m' \<Longrightarrow> record_all mc_record (obs @ [ob]) m0 = Some m'"
  by (simp add: record_all_snoc)

lemma hw_step_inv: "hw_step ending good s s' \<Longrightarrow> hw_inv start s \<Longrightarrow> hw_inv start s'"
proof (induction rule: hw_step.induct)
  case (Refuse s now resp m)
  then obtain obs where "record_all mc_record obs (MetricsCollector_new start) = Some (hw_metrics s)" "length obs + hw_in_flight s = hw_issued s"
    by (auto simp: hw_inv_def)
  with hw_recorded [OF this(1) Refuse(6)] show ?case unfolding hw_inv_def by (intro exI [of _ "obs @ [http_worker_obs resp]"]) simp
next
  case (Complete s n resp m)
  then obtain obs where "record_all mc_record obs (MetricsCollector_new start) = Some (hw_metrics s)" "length obs + hw_in_flight s = hw_issued s"
    by (auto simp: hw_inv_def)
  with hw_recorded [OF this(1) Complete(3)] Complete(2) show ?case unfolding hw_inv_def by (intro exI [of _ "obs @ [http_worker_obs resp]"]) simp
qed (auto simp: hw_inv_def)

lemma hw_new_inv: "hw_inv start (HttpWorker_new b start)"
  unfolding hw_inv_def by (intro exI [of _ "[]"]) (simp add: HttpWorker_new_def)

lemma hw_steps_inv: "(hw_step ending good)\<^sup>*\<^sup>* s s' \<Longrightarrow> hw_inv start s \<Longrightarrow> hw_inv start s'"
  by (induction rule: rtranclp_induct) (auto dest: hw_step_inv)

lemma hw_step_io_gone: "hw_step ending True s s' \<Longrightarrow> \<not> hw_io s \<Longrightarrow> \<not> hw_io s' \<and> hw_metrics s' = hw_metrics s"
  by (induction rule: hw_step.induct) simp_all

lemma hw_steps_io_gone: "(hw_step ending True)\<^sup>*\<^sup>* s s' \<Longrightarrow> \<not> hw_io s \<Longrightarrow> \<not> hw_io s' \<and> hw_metrics s' = hw_metrics s"
  by (induction rule: rtranclp_induct) (auto dest: hw_step_io_gone)

text \<open>A bucket of at least one token per second has a token 1.08 seconds after its last refill.\<close>

lemma consume_after_second:
  assumes "tb_inv b" "1 \<le> tb_burst b" "1 \<le> tb_rate b" "tb_last_refill b + 2 ^ 30 \<le> now"
  shows "\<exists>b'. consume_pass now b = (Inr (), b') \<and> tb_inv b' \<and> tb_burst b' = tb_burst b \<and> tb_rate b' = tb_rate b \<and> tb_last_refill b' = now"
proof -
  have "units (min (0 + 1 * (now - tb_last_refill b)) (2 ^ 30)) \<le> tb_tokens (refill now b)"
    using assms by (intro refill_units) (auto simp: units_def tb_inv_def)
  moreover have "min (0 + 1 * (now - tb_last_refill b)) (2 ^ 30) = 2 ^ 30" using assms(4) by simp
  ultimately have t: "1 \<le> tb_tokens (refill now b)" using units_one by metis
  then have "consume_pass now b = (Inr (), take_token (refill now b))" by (simp add: consume_pass_def)
  moreover have "tb_inv (take_token (refill now b))" using assms(1) t by (intro inv_intros)
  ultimately show ?thesis using assms(4) refill_last [of b now] by (auto simp: frame_simps)
qed

text \<open>Whatever the thread of the context does, the main thread can issue one request in every such interval until the end.\<close>

lemma hw_issues:
  assumes "hw_running s" "\<not> hw_pass s" "tb_inv (hw_bucket s)" "1 \<le> tb_burst (hw_bucket s)" "1 \<le> tb_rate (hw_bucket s)"
    and "tb_last_refill (hw_bucket s) \<le> hw_now s" "hw_now s + int n * 2 ^ 30 < ending"
  shows "\<exists>s'. (hw_step ending True)\<^sup>*\<^sup>* s s' \<and> hw_running s' \<and> hw_issued s' = hw_issued s + n \<and> hw_now s' < ending"
  using assms
proof (induction n arbitrary: s)
  case (Suc n)
  let ?s1 = "s\<lparr>hw_now := hw_now s, hw_pass := True, hw_in_flight := Suc (hw_in_flight s), hw_issued := Suc (hw_issued s)\<rparr>"
  let ?now = "hw_now s + 2 ^ 30"
  obtain b where b: "consume_pass ?now (hw_bucket s) = (Inr (), b)" "tb_inv b" "tb_burst b = tb_burst (hw_bucket s)"
    "tb_rate b = tb_rate (hw_bucket s)" "tb_last_refill b = ?now"
    using consume_after_second [of "hw_bucket s" ?now] Suc.prems by auto
  let ?s2 = "?s1\<lparr>hw_now := ?now, hw_bucket := b, hw_pass := False\<rparr>"
  have "hw_step ending True s ?s1" using Suc.prems by (intro hw_step.Issue) (auto simp: algebra_simps)
  moreover have "hw_step ending True ?s1 ?s2" using b(1) by (intro hw_step.Consume) simp_all
  ultimately have two: "(hw_step ending True)\<^sup>*\<^sup>* s ?s2" by (meson converse_rtranclp_into_rtranclp rtranclp.rtrancl_refl)
  have "\<exists>s'. (hw_step ending True)\<^sup>*\<^sup>* ?s2 s' \<and> hw_running s' \<and> hw_issued s' = hw_issued ?s2 + n \<and> hw_now s' < ending"
    using Suc.prems b by (intro Suc.IH) (auto simp: algebra_simps)
  then obtain s' where "(hw_step ending True)\<^sup>*\<^sup>* ?s2 s'" "hw_running s'" "hw_issued s' = hw_issued ?s2 + n" "hw_now s' < ending" by blast
  with two show ?case by (intro exI [of _ s']) (auto intro: rtranclp_trans)
qed (auto intro: exI [of _ s for s])

lemma http_worker_bucket:
  assumes "http_worker_start argv t0 = Inr (c, b)"
  shows "tb_inv b" "1 \<le> tb_burst b" "1 \<le> tb_rate b" "tb_last_refill b = t0"
proof -
  have r: "TokenBucket_new (of_nat (unat (wc_rps c))) 1 t0 = Inr b" "wc_rps c \<noteq> 0"
    using assms by (auto simp: http_worker_start_def split: option.splits if_splits sum.splits)
  have "unat (wc_rps c) < 2 ^ 32" using unsigned_less [of "wc_rps c"] by simp
  then have "rnd (of_nat (unat (wc_rps c))) = of_nat (unat (wc_rps c))" by (intro rnd_of_nat) simp
  then show "tb_inv b" using new_inv [OF r(1)] rnd_of_nat [of 1] by simp
  have "0 < unat (wc_rps c)" using r(2) by (simp add: unat_gt_0)
  then have "(of_nat 1 :: rat) \<le> of_nat (unat (wc_rps c))" by (simp only: of_nat_le_iff)
  then have "1 \<le> (of_nat (unat (wc_rps c)) :: rat)" by (simp only: of_nat_1)
  then show "1 \<le> tb_burst b" "1 \<le> tb_rate b" "tb_last_refill b = t0" using r(1) by (auto simp: TokenBucket_new_def split: if_splits)
qed

definition reached :: "Err option \<times> NetResponse \<Rightarrow> bool" where
  "reached r \<longleftrightarrow> fst r = None"

lemma grpc_fold:
  "gc_total (fold grpc_on_response rs c) = gc_total c + int (length (filter reached rs))
   \<and> gc_successful (fold grpc_on_response rs c) = gc_successful c + int (length (filter (\<lambda>r. reached r \<and> is_success (ns_status_code (snd r))) rs))
   \<and> gc_failed (fold grpc_on_response rs c) = gc_failed c + int (length (filter (\<lambda>r. \<not> (reached r \<and> is_success (ns_status_code (snd r)))) rs))"
proof (induction rs arbitrary: c)
  case (Cons r rs)
  obtain ec resp where "r = (ec, resp)" by (cases r)
  with Cons show ?case by (cases ec) (simp_all add: grpc_on_response_def reached_def is_success_def Let_def)
qed simp

section \<open>Properties\<close>

text \<open>
  The HTTP worker loses no request it has handed over and counts none twice: at every point of a run the requests recorded and the
  requests in flight are together the requests issued.
\<close>

theorem http_worker_accounting:
  assumes "(hw_step ending good)\<^sup>*\<^sup>* (HttpWorker_new b start) s" "hw_issued s \<le> 2 ^ 63"
  shows "unat (mc_total_requests (hw_metrics s)) + hw_in_flight s = hw_issued s"
proof -
  obtain obs where o: "record_all mc_record obs (MetricsCollector_new start) = Some (hw_metrics s)" "length obs + hw_in_flight s = hw_issued s"
    using hw_steps_inv [OF assms(1) hw_new_inv] by (auto simp: hw_inv_def)
  have n: "length obs \<le> 2 ^ 63" "length obs < 2 ^ 64" using o(2) assms(2) by simp_all
  have "ct_total (mc_view (hw_metrics s)) = ct_total (counters_of obs)" by (simp only: recorded_counters [OF n(1) o(1)])
  then have "mc_total_requests (hw_metrics s) = ct_total (counters_of obs)" by (simp add: mc_view_def)
  then show ?thesis using counters_of_unat(1) [OF n(2)] o(2) by simp
qed

definition one_request :: HttpWorker where
  "one_request = (HttpWorker_new \<lparr>tb_rate = 5, tb_burst = 1, tb_tokens = 1, tb_last_refill = 0\<rparr> 0)\<lparr>hw_pass := True, hw_in_flight := 1, hw_issued := 1\<rparr>"

theorem http_worker_accounting_witness: "unat (mc_total_requests (hw_metrics one_request)) = 0"
proof -
  let ?w = "HttpWorker_new \<lparr>tb_rate = 5, tb_burst = 1, tb_tokens = 1, tb_last_refill = 0\<rparr> 0"
  have "hw_step 10 True ?w (?w\<lparr>hw_now := 0, hw_pass := True, hw_in_flight := Suc (hw_in_flight ?w), hw_issued := Suc (hw_issued ?w)\<rparr>)"
    by (rule hw_step.Issue) (simp_all add: HttpWorker_new_def)
  then have "hw_step 10 True ?w one_request" by (simp add: one_request_def HttpWorker_new_def)
  then have "(hw_step 10 True)\<^sup>*\<^sup>* ?w one_request" by blast
  from http_worker_accounting [OF this] show ?thesis by (simp add: one_request_def)
qed

text \<open>
  C32: The HTTP worker can send requests for its whole run and record none of them. Its context has no work guard, so that \<open>run\<close> returns at once if the
  thread of the context starts before the first request. For every number of requests that fit into the run at one in 1.08 seconds there is a
  state before the end of the run in which the main thread still runs and has issued them, and in which the collector stays
  empty whatever happens from there on.
\<close>

theorem http_worker_records_nothing:
  assumes "http_worker_start argv t0 = Inr (c, b)" "t0 \<le> start" "start + int n * 2 ^ 30 < ending"
  shows "\<exists>s. (hw_step ending True)\<^sup>*\<^sup>* (HttpWorker_new b start) s \<and> hw_running s \<and> hw_now s < ending \<and> hw_issued s = n
     \<and> (\<forall>s'. (hw_step ending True)\<^sup>*\<^sup>* s s' \<longrightarrow> mc_total_requests (hw_metrics s') = 0)"
proof -
  let ?s = "(HttpWorker_new b start)\<lparr>hw_io := False\<rparr>"
  have dry: "hw_step ending True (HttpWorker_new b start) ?s" by (rule hw_step.Out_of_work) (simp_all add: HttpWorker_new_def)
  obtain s where s: "(hw_step ending True)\<^sup>*\<^sup>* ?s s" "hw_running s" "hw_issued s = n" "hw_now s < ending"
    using hw_issues [of ?s n ending] http_worker_bucket [OF assms(1)] assms(2,3) by (auto simp: HttpWorker_new_def)
  have "mc_total_requests (hw_metrics s') = 0" if "(hw_step ending True)\<^sup>*\<^sup>* s s'" for s'
    using hw_steps_io_gone [OF rtranclp_trans [OF s(1) that]] by (simp add: HttpWorker_new_def MetricsCollector_new_def)
  with dry s show ?thesis by (blast intro: converse_rtranclp_into_rtranclp)
qed

theorem http_worker_records_nothing_witness:
  "\<exists>b s. http_worker_start [''http_worker''] 0 = Inr (WorkerConfig_default, b)
     \<and> (hw_step (30 * 10 ^ 9) True)\<^sup>*\<^sup>* (HttpWorker_new b 0) s \<and> hw_issued s = 27 \<and> mc_total_requests (hw_metrics s) = 0"
proof -
  obtain b where b: "http_worker_start [''http_worker''] 0 = Inr (WorkerConfig_default, b)"
    by (simp add: http_worker_start_def WorkerConfig_default_def TokenBucket_new_def)
  have "(0 :: int) \<le> 0" "0 + int 27 * 2 ^ 30 < (30 * 10 ^ 9 :: int)" by simp_all
  from http_worker_records_nothing [OF b this] b show ?thesis by blast
qed

text \<open>
  A negative rate is accepted by the HTTP worker and wraps around to more than two thousand million requests per second.
\<close>

theorem worker_rate_wraps:
  assumes "stoi v = Inr n" "n < 0"
  shows "\<exists>c'. worker_parse_args c [''--rps'', v] = Some c' \<and> int (unat (wc_rps c')) = 2 ^ 32 + n \<and> 2 ^ 31 \<le> unat (wc_rps c')"
proof -
  have n: "- (2 ^ 31) \<le> n" using assms(1) by (auto simp: stoi_def sto_range_def split: option.splits if_splits)
  have k: "split_key ''--rps'' = (''--rps'', None)" by (simp add: split_key_def find_char_def)
  let ?c = "c\<lparr>wc_rps := word_of_int n\<rparr>"
  have "worker_parse_args c [''--rps'', v] = Some ?c" using assms(1) by (simp add: k worker_valued_def worker_int_def)
  moreover have u: "int (unat (wc_rps ?c)) = 2 ^ 32 + n"
  proof -
    have "uint (word_of_int n :: u32) = n mod 2 ^ 32" by (simp add: uint_word_of_int)
    also have "\<dots> = (n + 2 ^ 32) mod 2 ^ 32" by simp
    also have "\<dots> = n + 2 ^ 32" using n assms(2) by (intro mod_pos_pos_trivial) simp_all
    finally show ?thesis by (simp add: add.commute)
  qed
  moreover have "int (2 ^ 31) \<le> int (unat (wc_rps ?c))" unfolding u using n by simp
  then have "2 ^ 31 \<le> unat (wc_rps ?c)" by (simp only: of_nat_le_iff)
  ultimately show ?thesis by blast
qed

lemma stoi_minus_one: "stoi ''-1'' = Inr (- 1)"
  by (simp add: stoi_def sto_range_def strto_int_def scan_def isspace_def isdigit_def digits_val_def digit_val_def Let_def)

theorem worker_rate_wraps_witness: "\<exists>c'. worker_parse_args WorkerConfig_default [''--rps'', ''-1''] = Some c' \<and> int (unat (wc_rps c')) = 4294967295"
proof -
  have "- 1 < (0 :: int)" by simp
  then obtain c' where "worker_parse_args WorkerConfig_default [''--rps'', ''-1''] = Some c'" "int (unat (wc_rps c')) = 2 ^ 32 + - 1"
    using worker_rate_wraps [OF stoi_minus_one, of WorkerConfig_default] by blast
  moreover have "2 ^ 32 + - 1 = (4294967295 :: int)" by simp
  ultimately show ?thesis by (metis (no_types))
qed

text \<open>
  The gRPC worker counts every response once as a success or a failure, but only the ones that reached the server in its total.
\<close>

theorem grpc_counts:
  assumes "run_load_test t now rs \<lparr>gc_total = 0, gc_successful = 0, gc_failed = 0\<rparr> = Inr c"
  shows "gc_successful c + gc_failed c = int (length rs) \<and> gc_total c = int (length (filter reached rs))
     \<and> gc_successful c = int (length (filter (\<lambda>r. reached r \<and> is_success (ns_status_code (snd r))) rs))"
proof -
  have c: "c = fold grpc_on_response rs \<lparr>gc_total = 0, gc_successful = 0, gc_failed = 0\<rparr>"
    using assms by (simp add: run_load_test_def split: sum.splits)
  have "int (length (filter P rs)) + int (length (filter (\<lambda>r. \<not> P r) rs)) = int (length rs)" for P
    using sum_length_filter_compl [of P rs] by (simp flip: of_nat_add)
  from this [of "\<lambda>r. reached r \<and> is_success (ns_status_code (snd r))"]
  show ?thesis using grpc_fold [of rs "\<lparr>gc_total = 0, gc_successful = 0, gc_failed = 0\<rparr>"] c by simp
qed

theorem grpc_counts_witness:
  "\<exists>c. run_load_test \<lparr>ts_target_url = ''http://h'', ts_target_rps = 5, ts_duration_seconds = 1, ts_headers = []\<rparr> 0
       [(None, NetResponse_default\<lparr>ns_status_code := 200\<rparr>), (Some dns_failure, NetResponse_default)] \<lparr>gc_total = 0, gc_successful = 0, gc_failed = 0\<rparr> = Inr c
     \<and> gc_total c = 1 \<and> gc_successful c + gc_failed c = 2"
proof -
  let ?t = "\<lparr>ts_target_url = ''http://h'', ts_target_rps = 5, ts_duration_seconds = 1, ts_headers = []\<rparr>"
    and ?rs = "[(None, NetResponse_default\<lparr>ns_status_code := 200\<rparr>), (Some dns_failure, NetResponse_default)]"
  obtain c where c: "run_load_test ?t 0 ?rs \<lparr>gc_total = 0, gc_successful = 0, gc_failed = 0\<rparr> = Inr c"
    by (simp add: run_load_test_def TokenBucket_new_def)
  from grpc_counts [OF c] c show ?thesis by (simp add: reached_def)
qed

text \<open>
  C34: The error rate the gRPC worker reports is wrong when requests do not reach the server: it is 0 when none does, and 100 percent for
  each lost request when one is answered.
\<close>

theorem grpc_error_rate_wrong:
  assumes "list_all (\<lambda>r. \<not> reached r) rs" "length rs < 2 ^ 40" "is_success (ns_status_code resp)"
  shows "mr_error_rate (report_metrics g (fold grpc_on_response rs \<lparr>gc_total = 0, gc_successful = 0, gc_failed = 0\<rparr>)) = 0
     \<and> mr_failed_requests (report_metrics g (fold grpc_on_response rs \<lparr>gc_total = 0, gc_successful = 0, gc_failed = 0\<rparr>)) = int (length rs)
     \<and> mr_error_rate (report_metrics g (fold grpc_on_response ((None, resp) # rs) \<lparr>gc_total = 0, gc_successful = 0, gc_failed = 0\<rparr>)) = 100 * of_nat (length rs)"
proof -
  let ?z = "\<lparr>gc_total = 0, gc_successful = 0, gc_failed = 0\<rparr>"
  have f: "filter reached rs = []" "filter (\<lambda>r. \<not> (reached r \<and> P r)) rs = rs" for P
    using assms(1) by (auto simp: list_all_iff filter_empty_conv filter_id_conv)
  have a: "gc_total (fold grpc_on_response rs ?z) = 0" "gc_failed (fold grpc_on_response rs ?z) = int (length rs)"
    using grpc_fold [of rs ?z] f by simp_all
  let ?c = "fold grpc_on_response ((None, resp) # rs) ?z"
  have b: "gc_total ?c = 1" "gc_failed ?c = int (length rs)"
    using grpc_fold [of "(None, resp) # rs" ?z] f assms(3) by (simp_all add: reached_def)
  have "rnd (of_nat (length rs)) = of_nat (length rs)" using assms(2) by (intro rnd_of_nat) simp
  moreover have "rnd (of_nat (length rs * 100)) = of_nat (length rs * 100)" using assms(2) by (intro rnd_of_nat) simp
  ultimately have "mr_error_rate (report_metrics g ?c) = 100 * of_nat (length rs)"
    unfolding report_metrics_def b by (simp add: fmul_def fdiv_def)
  then show ?thesis using a by (simp add: report_metrics_def)
qed

theorem grpc_error_rate_wrong_witness:
  "mr_error_rate (report_metrics \<lparr>gw_worker_id = [], gw_max_rps = 1, gw_worker_id_assigned = 1\<rparr>
     (fold grpc_on_response [(Some dns_failure, NetResponse_default)] \<lparr>gc_total = 0, gc_successful = 0, gc_failed = 0\<rparr>)) = 0"
  using grpc_error_rate_wrong [of "[(Some dns_failure, NetResponse_default)]" "NetResponse_default\<lparr>ns_status_code := 200\<rparr>"
      "\<lparr>gw_worker_id = [], gw_max_rps = 1, gw_worker_id_assigned = 1\<rparr>"]
  by (simp add: reached_def is_success_def)

text \<open>
  A task without a positive rate ends the gRPC worker: the exception of its rate limiter is not caught anywhere, so the tasks before it
  are not reported as finished and those after it are never asked for.
\<close>

theorem grpc_bad_task_kills:
  assumes "rr_ok reg" "rr_accepted reg" "ts_target_rps t \<le> 0" "grpc_rounds before \<lparr>gc_total = 0, gc_successful = 0, gc_failed = 0\<rparr> = Inr c"
  shows "grpc_main [prog] reg (before @ ((True, True, t), now, rs) # after) = Uncaught (Invalid_argument ''TokenBucket: rate must be > 0'')"
proof -
  have app: "grpc_rounds (xs @ ys) d = (case grpc_rounds xs d of Inl e \<Rightarrow> Inl e | Inr d' \<Rightarrow> grpc_rounds ys d')" for xs ys d
    by (induction xs d rule: grpc_rounds.induct) (auto split: option.splits sum.splits)
  have "run_load_test t now rs c = Inl (Invalid_argument ''TokenBucket: rate must be > 0'')"
    using assms(3) by (simp add: run_load_test_def TokenBucket_new_def)
  then show ?thesis using assms by (simp add: grpc_main_def register_worker_def app assign_task_def)
qed

theorem grpc_bad_task_kills_witness:
  "grpc_main [''grpc_worker''] \<lparr>rr_ok = True, rr_accepted = True, rr_assigned_worker_id = 1\<rparr>
     [((True, True, \<lparr>ts_target_url = ''http://h'', ts_target_rps = 0, ts_duration_seconds = 1, ts_headers = []\<rparr>), 0, [])]
   = Uncaught (Invalid_argument ''TokenBucket: rate must be > 0'')"
  using grpc_bad_task_kills [of "\<lparr>rr_ok = True, rr_accepted = True, rr_assigned_worker_id = 1\<rparr>"
      "\<lparr>ts_target_url = ''http://h'', ts_target_rps = 0, ts_duration_seconds = 1, ts_headers = []\<rparr>" "[]" _ "''grpc_worker''" 0 "[]" "[]"]
  by simp

end
