(* ===== verification/Tls_Term.thy ===== *)
theory Tls_Term
  imports Volley_Error Volley_String
begin

text \<open>
  The TLS settings of a client, \<open>core/security/tls_context.cpp\<close>, with the global ones of \<open>core/net/protocol_factory.cpp\<close>, and the colours of the terminal, \<open>include/cppload/core/term.hpp\<close>. The
  context is the list of calls made on the one of the library; which of those that read a file succeed is an argument.
\<close>

section \<open>TLS context\<close>

datatype TlsVersion = TLS_1_2 | TLS_1_3

record TlsConfig =
  tc_verify_peer :: bool
  tc_cert_chain_file :: string
  tc_private_key_file :: string
  tc_tmp_dh_file :: string
  tc_ca_cert_file :: string
  tc_ca_cert_path :: string
  tc_use_mtls :: bool
  tc_min_tls_version :: TlsVersion

definition TlsConfig_default :: TlsConfig where
  "TlsConfig_default = \<lparr>tc_verify_peer = True, tc_cert_chain_file = [], tc_private_key_file = [], tc_tmp_dh_file = [], tc_ca_cert_file = [],
     tc_ca_cert_path = [], tc_use_mtls = False, tc_min_tls_version = TLS_1_2\<rparr>"

datatype Ssl_Option = Default_workarounds | No_sslv2 | No_sslv3 | No_tlsv1 | No_tlsv1_1

datatype Ssl_Call =
    Method_tlsv12_client
  | Method_tlsv13_client
  | Set_options "Ssl_Option list"
  | Verify_peer
  | Verify_none
  | Load_verify_file string
  | Add_verify_path string
  | Default_verify_paths
  | Use_certificate_chain_file string
  | Use_private_key_file string
  | Use_tmp_dh_file string

record TlsContext =
  tx_calls :: "Ssl_Call list"
  tx_verify_peer :: bool
  tx_mtls_enabled :: bool

text \<open>Calls in order until one of them throws.\<close>

fun ssl_calls :: "(Ssl_Call \<Rightarrow> string option) \<Rightarrow> Ssl_Call list \<Rightarrow> cpp_exn + unit" where
  "ssl_calls fails [] = Inr ()"
| "ssl_calls fails (c # cs) = (case fails c of Some msg \<Rightarrow> Inl (Runtime_error msg) | None \<Rightarrow> ssl_calls fails cs)"

definition verify_calls :: "TlsConfig \<Rightarrow> Ssl_Call list" where
  "verify_calls cfg =
     (if tc_verify_peer cfg then
        [Verify_peer,
         if tc_ca_cert_file cfg \<noteq> [] then Load_verify_file (tc_ca_cert_file cfg)
         else if tc_ca_cert_path cfg \<noteq> [] then Add_verify_path (tc_ca_cert_path cfg)
         else Default_verify_paths]
      else [Verify_none])"

definition first_calls :: "TlsConfig \<Rightarrow> Ssl_Call list" where
  "first_calls cfg = [if tc_min_tls_version cfg = TLS_1_3 then Method_tlsv13_client else Method_tlsv12_client,
     Set_options [Default_workarounds, No_sslv2, No_sslv3, No_tlsv1, No_tlsv1_1]] @ verify_calls cfg"

definition later_calls :: "TlsConfig \<Rightarrow> Ssl_Call list" where
  "later_calls cfg =
     (if tc_use_mtls cfg then [Use_certificate_chain_file (tc_cert_chain_file cfg), Use_private_key_file (tc_private_key_file cfg)] else [])
     @ (if tc_tmp_dh_file cfg \<noteq> [] then [Use_tmp_dh_file (tc_tmp_dh_file cfg)] else [])"

definition TlsContext_new :: "(Ssl_Call \<Rightarrow> string option) \<Rightarrow> TlsConfig \<Rightarrow> cpp_exn + TlsContext" where
  "TlsContext_new fails cfg = (case ssl_calls fails (first_calls cfg) of
     Inl e \<Rightarrow> Inl e
   | Inr _ \<Rightarrow>
       if tc_use_mtls cfg \<and> (tc_cert_chain_file cfg = [] \<or> tc_private_key_file cfg = [])
       then Inl (Invalid_argument ''mTLS requires cert and key files'')
       else case ssl_calls fails (later_calls cfg) of
              Inl e \<Rightarrow> Inl e
            | Inr _ \<Rightarrow> Inr \<lparr>tx_calls = first_calls cfg @ later_calls cfg, tx_verify_peer = tc_verify_peer cfg, tx_mtls_enabled = tc_use_mtls cfg\<rparr>)"

section \<open>Global TLS settings\<close>

text \<open>The static members of \<open>ProtocolFactory\<close>. Every operation holds the mutex; an exception of the constructor leaves what was assigned before it.\<close>

record TlsGlobals =
  global_tls_config :: TlsConfig
  global_tls_ctx :: "TlsContext option"

definition TlsGlobals_start :: TlsGlobals where
  "TlsGlobals_start = \<lparr>global_tls_config = TlsConfig_default, global_tls_ctx = None\<rparr>"

definition set_tls_config :: "(Ssl_Call \<Rightarrow> string option) \<Rightarrow> TlsConfig \<Rightarrow> TlsGlobals \<Rightarrow> (cpp_exn + unit) \<times> TlsGlobals" where
  "set_tls_config fails cfg g =
     (let g = g\<lparr>global_tls_config := cfg\<rparr>
      in case TlsContext_new fails cfg of
           Inl e \<Rightarrow> (Inl e, g)
         | Inr x \<Rightarrow> (Inr (), g\<lparr>global_tls_ctx := Some x\<rparr>))"

definition ssl_context :: "(Ssl_Call \<Rightarrow> string option) \<Rightarrow> TlsGlobals \<Rightarrow> (cpp_exn + TlsContext) \<times> TlsGlobals" where
  "ssl_context fails g = (case global_tls_ctx g of
     Some x \<Rightarrow> (Inr x, g)
   | None \<Rightarrow> (case TlsContext_new fails (global_tls_config g) of
         Inl e \<Rightarrow> (Inl e, g)
       | Inr x \<Rightarrow> (Inr x, g\<lparr>global_tls_ctx := Some x\<rparr>)))"

definition ensure_tls_context :: "(Ssl_Call \<Rightarrow> string option) \<Rightarrow> TlsGlobals \<Rightarrow> (cpp_exn + bool) \<times> TlsGlobals" where
  "ensure_tls_context fails g = (case global_tls_ctx g of
     Some _ \<Rightarrow> (Inr True, g)
   | None \<Rightarrow> (case TlsContext_new fails (global_tls_config g) of
         Inl e \<Rightarrow> (Inl e, g)
       | Inr x \<Rightarrow> (Inr True, g\<lparr>global_tls_ctx := Some x\<rparr>)))"

section \<open>Terminal\<close>

datatype Color = Reset | Bold | FgBlack | FgRed | FgGreen | FgYellow | FgBlue | FgMagenta | FgCyan | FgWhite | FgBrightBlack | FgBrightRed
  | FgBrightGreen | FgBrightYellow | FgBrightBlue | FgBrightMagenta | FgBrightCyan | FgBrightWhite

fun color_code :: "Color \<Rightarrow> nat" where
  "color_code Reset = 0"
| "color_code Bold = 1"
| "color_code FgBlack = 30"
| "color_code FgRed = 31"
| "color_code FgGreen = 32"
| "color_code FgYellow = 33"
| "color_code FgBlue = 34"
| "color_code FgMagenta = 35"
| "color_code FgCyan = 36"
| "color_code FgWhite = 37"
| "color_code FgBrightBlack = 90"
| "color_code FgBrightRed = 91"
| "color_code FgBrightGreen = 92"
| "color_code FgBrightYellow = 93"
| "color_code FgBrightBlue = 94"
| "color_code FgBrightMagenta = 95"
| "color_code FgBrightCyan = 96"
| "color_code FgBrightWhite = 97"

text \<open>\<open>tty\<close> says whether the output is a terminal, \<open>env\<close> is the variable \<open>NO_COLOR\<close>.\<close>

definition no_color_env :: "string option \<Rightarrow> bool" where
  "no_color_env env = (case env of Some (c # _) \<Rightarrow> True | _ \<Rightarrow> False)"

definition use_color :: "bool \<Rightarrow> string option \<Rightarrow> bool" where
  "use_color tty env \<longleftrightarrow> tty \<and> \<not> no_color_env env"

definition ansi :: "bool \<Rightarrow> Color \<Rightarrow> string" where
  "ansi colored c = (if \<not> colored then [] else CHR 0x1B # ''['' @ nat_dec (color_code c) @ ''m'')"

definition term_wrap :: "bool \<Rightarrow> string \<Rightarrow> string \<Rightarrow> string" where
  "term_wrap colored t code = (if code = [] then t else code @ t @ ansi colored Reset)"

datatype Label = Ok_label | Fail_label | Info_label | Warn_label | Error_label | Sla_pass_label | Sla_fail_label

fun label_text :: "Label \<Rightarrow> string \<times> Color" where
  "label_text Ok_label = (''[PASS] '', FgGreen)"
| "label_text Fail_label = (''[FAIL] '', FgBrightRed)"
| "label_text Info_label = (''[INFO] '', FgBrightBlue)"
| "label_text Warn_label = (''[WARN] '', FgBrightYellow)"
| "label_text Error_label = (''[ERR ] '', FgBrightRed)"
| "label_text Sla_pass_label = (''SLA PASSED'', FgBrightGreen)"
| "label_text Sla_fail_label = (''SLA FAILED'', FgBrightRed)"

definition term_label :: "bool \<Rightarrow> Label \<Rightarrow> string" where
  "term_label colored l = term_wrap colored (fst (label_text l)) (ansi colored (snd (label_text l)) @ ansi colored Bold)"

section \<open>Facts\<close>

lemma ssl_calls_ok: "ssl_calls fails cs = Inr () \<longleftrightarrow> (\<forall>c\<in>set cs. fails c = None)"
  by (induction cs) (auto split: option.splits)

text \<open>The operations on the global settings, each with its own outcome of the calls on the library. No call of \<open>set_tls_config\<close> throws.\<close>

inductive tls_step :: "TlsGlobals \<Rightarrow> TlsGlobals \<Rightarrow> bool" where
  Set_ok: "set_tls_config fails cfg g = (Inr (), g') \<Longrightarrow> tls_step g g'"
| Get: "ssl_context fails g = (r, g') \<Longrightarrow> tls_step g g'"
| Ensure: "ensure_tls_context fails g = (b, g') \<Longrightarrow> tls_step g g'"

definition ctx_current :: "TlsGlobals \<Rightarrow> bool" where
  "ctx_current g \<longleftrightarrow> (\<forall>x. global_tls_ctx g = Some x \<longrightarrow> (\<exists>fails. TlsContext_new fails (global_tls_config g) = Inr x))"

lemma tls_step_current: "tls_step g g' \<Longrightarrow> ctx_current g \<Longrightarrow> ctx_current g'"
  by (induction rule: tls_step.induct)
    (auto simp: ctx_current_def set_tls_config_def ssl_context_def ensure_tls_context_def Let_def split: option.splits sum.splits)

text \<open>Without an exception of \<open>set_tls_config\<close> the context handed out was made from the configuration that is set.\<close>

lemma tls_reachable_current:
  assumes "tls_step\<^sup>*\<^sup>* TlsGlobals_start g" "ssl_context fails g = (Inr x, g')"
  shows "\<exists>fails. TlsContext_new fails (global_tls_config g) = Inr x"
proof -
  have "ctx_current g"
    using assms(1) by (induction rule: rtranclp_induct) (auto simp: ctx_current_def TlsGlobals_start_def dest: tls_step_current [unfolded ctx_current_def])
  with assms(2) show ?thesis by (auto simp: ctx_current_def ssl_context_def split: option.splits sum.splits)
qed

text \<open>With one, the new configuration is reported and the context of the old one is handed out.\<close>

lemma set_tls_config_stale:
  assumes "TlsContext_new fails cfg = Inl e" "global_tls_ctx g = Some x"
  shows "\<exists>g'. set_tls_config fails cfg g = (Inl e, g') \<and> global_tls_config g' = cfg \<and> ssl_context fails' g' = (Inr x, g')"
  using assms by (simp add: set_tls_config_def ssl_context_def Let_def)

text \<open>What a terminal shows of a text: the escape sequences removed. \<open>True\<close> is inside a sequence.\<close>

fun shown :: "bool \<Rightarrow> string \<Rightarrow> string" where
  "shown b [] = []"
| "shown False (c # s) = (if c = CHR 0x1B then shown True s else c # shown False s)"
| "shown True (c # s) = shown (c \<noteq> CHR ''m'') s"

lemma digit_plain: "isdigit c \<Longrightarrow> c \<noteq> CHR ''m'' \<and> c \<noteq> CHR 0x1B"
  by (auto simp: isdigit_def)

lemma shown_digits: "list_all isdigit ds \<Longrightarrow> shown True (ds @ CHR ''m'' # s) = shown False s"
  by (induction ds) (auto dest: digit_plain)

lemma nat_dec_all_digits: "list_all isdigit (nat_dec n)"
proof (induction n rule: nat_dec.induct)
  case (1 n)
  have d: "isdigit (digit_char d)" if "d < 10" for d using that by (simp add: isdigit_def digit_char_def)
  show ?case using 1 d by (subst nat_dec.simps) auto
qed

lemma shown_ansi: "shown False (ansi colored c @ s) = shown False s"
  using shown_digits [OF nat_dec_all_digits] by (simp add: ansi_def)

lemma shown_plain: "CHR 0x1B \<notin> set t \<Longrightarrow> shown False (t @ s) = t @ shown False s"
  by (induction t) auto

lemma label_plain: "CHR 0x1B \<notin> set (fst (label_text l))"
  by (cases l) simp_all

section \<open>Properties\<close>

text \<open>
  C36: The TLS context of a client does what its configuration asks for or is not made. When it is made, every call on the library
  succeeded, every version of SSL and TLS below 1.2 is off and the method is the one of the smallest version asked for; with verification the peer is verified, never not verified, against exactly one source of trust, the file
  before the directory before the system's; and with mutual TLS the certificate and the key were loaded from the files named.
\<close>

theorem tls_context_sound:
  assumes "TlsContext_new fails cfg = Inr x"
  shows "(\<forall>c\<in>set (tx_calls x). fails c = None)
     \<and> (\<exists>os. Set_options os \<in> set (tx_calls x) \<and> {No_sslv2, No_sslv3, No_tlsv1, No_tlsv1_1} \<subseteq> set os)
     \<and> (Method_tlsv13_client \<in> set (tx_calls x) \<longleftrightarrow> tc_min_tls_version cfg = TLS_1_3)
     \<and> (Method_tlsv12_client \<in> set (tx_calls x) \<longleftrightarrow> tc_min_tls_version cfg = TLS_1_2)
     \<and> (Verify_peer \<in> set (tx_calls x) \<longleftrightarrow> tc_verify_peer cfg) \<and> (Verify_none \<in> set (tx_calls x) \<longleftrightarrow> \<not> tc_verify_peer cfg)
     \<and> (Default_verify_paths \<in> set (tx_calls x) \<longleftrightarrow> tc_verify_peer cfg \<and> tc_ca_cert_file cfg = [] \<and> tc_ca_cert_path cfg = [])
     \<and> (\<forall>f. Load_verify_file f \<in> set (tx_calls x) \<longleftrightarrow> tc_verify_peer cfg \<and> f = tc_ca_cert_file cfg \<and> f \<noteq> [])
     \<and> (\<forall>d. Add_verify_path d \<in> set (tx_calls x) \<longleftrightarrow> tc_verify_peer cfg \<and> tc_ca_cert_file cfg = [] \<and> d = tc_ca_cert_path cfg \<and> d \<noteq> [])
     \<and> tx_mtls_enabled x = tc_use_mtls cfg
     \<and> (tc_use_mtls cfg \<longrightarrow> tc_cert_chain_file cfg \<noteq> [] \<and> tc_private_key_file cfg \<noteq> []
          \<and> Use_certificate_chain_file (tc_cert_chain_file cfg) \<in> set (tx_calls x) \<and> Use_private_key_file (tc_private_key_file cfg) \<in> set (tx_calls x))"
proof -
  have m: "tc_use_mtls cfg \<longrightarrow> tc_cert_chain_file cfg \<noteq> [] \<and> tc_private_key_file cfg \<noteq> []"
    and c: "ssl_calls fails (first_calls cfg) = Inr ()" "ssl_calls fails (later_calls cfg) = Inr ()"
    and x: "x = \<lparr>tx_calls = first_calls cfg @ later_calls cfg, tx_verify_peer = tc_verify_peer cfg, tx_mtls_enabled = tc_use_mtls cfg\<rparr>"
    using assms by (auto simp: TlsContext_new_def split: sum.splits if_splits)
  have none: "\<forall>c\<in>set (tx_calls x). fails c = None" using c unfolding ssl_calls_ok x by auto
  have f: "set (tx_calls x) = set (first_calls cfg) \<union> set (later_calls cfg)" by (simp add: x)
  have v: "tc_min_tls_version cfg = TLS_1_2 \<longleftrightarrow> tc_min_tls_version cfg \<noteq> TLS_1_3" by (cases "tc_min_tls_version cfg") simp_all
  show ?thesis
    unfolding f [symmetric] v using none m by (auto simp: x first_calls_def later_calls_def verify_calls_def)
qed

theorem tls_context_sound_witness:
  "\<exists>x. TlsContext_new (\<lambda>_. None) (TlsConfig_default\<lparr>tc_ca_cert_file := ''ca.pem''\<rparr>) = Inr x \<and> Load_verify_file ''ca.pem'' \<in> set (tx_calls x)"
proof -
  let ?c = "TlsConfig_default\<lparr>tc_ca_cert_file := ''ca.pem''\<rparr>"
  obtain x where x: "TlsContext_new (\<lambda>_. None) ?c = Inr x"
    by (simp add: TlsContext_new_def TlsConfig_default_def first_calls_def later_calls_def verify_calls_def)
  then have "Load_verify_file ''ca.pem'' \<in> set (tx_calls x) \<longleftrightarrow> tc_verify_peer ?c \<and> ''ca.pem'' = tc_ca_cert_file ?c \<and> ''ca.pem'' \<noteq> []"
    using tls_context_sound [OF x] by blast
  with x show ?thesis by (simp add: TlsConfig_default_def)
qed

text \<open>
  Colours change nothing that is read: a label shows the same text with and without them, and without them it contains nothing else.
\<close>

theorem labels_show_text: "shown False (term_label colored l) = fst (label_text l) \<and> term_label False l = fst (label_text l)"
proof -
  have "shown False (term_label colored l) = fst (label_text l)"
  proof (cases colored)
    case True
    have "term_label True l = ansi True (snd (label_text l)) @ ansi True Bold @ fst (label_text l) @ ansi True Reset @ []"
      by (simp add: term_label_def term_wrap_def ansi_def)
    then show ?thesis using True by (simp only: shown_ansi shown_plain [OF label_plain]) simp
  next
    case False
    then show ?thesis using shown_plain [OF label_plain, of l "[]"] by (simp add: term_label_def term_wrap_def ansi_def)
  qed
  then show ?thesis by (simp add: term_label_def term_wrap_def ansi_def)
qed

end
