(* ===== verification/Py_Metrics.thy ===== *)
theory Py_Metrics
  imports Ring_Collector Token_Bucket
begin

text \<open>
  The collector and the rate limiter of the Python package, \<open>python/volley/core.py\<close>, beside the ones of the C++ core they stand in
  for. Python integers are \<open>int\<close>; a Python float is a binary64 number as in the core. Each method holds \<open>_lock\<close> and is one step; the
  readings of \<open>time.time()\<close> and \<open>time.monotonic()\<close>, floats in seconds, are arguments.
\<close>

section \<open>The collector\<close>

record PyMetricsCollector =
  pm_total_requests :: int
  pm_successful_requests :: int
  pm_failed_requests :: int
  pm_total_bytes_sent :: int
  pm_total_bytes_received :: int
  pm_latencies :: "int list"
  pm_start_time :: rat

definition PyMetricsCollector_new :: "rat \<Rightarrow> PyMetricsCollector" where
  "PyMetricsCollector_new now = \<lparr>pm_total_requests = 0, pm_successful_requests = 0, pm_failed_requests = 0, pm_total_bytes_sent = 0,
     pm_total_bytes_received = 0, pm_latencies = [], pm_start_time = now\<rparr>"

definition py_record_request :: "int \<Rightarrow> int \<Rightarrow> int \<Rightarrow> int \<Rightarrow> PyMetricsCollector \<Rightarrow> PyMetricsCollector" where
  "py_record_request status_code latency_us bytes_sent bytes_received m =
     (let m = m\<lparr>pm_total_requests := pm_total_requests m + 1, pm_total_bytes_sent := pm_total_bytes_sent m + bytes_sent,
                pm_total_bytes_received := pm_total_bytes_received m + bytes_received\<rparr>;
          m = (if 200 \<le> status_code \<and> status_code < 400 then m\<lparr>pm_successful_requests := pm_successful_requests m + 1\<rparr>
               else m\<lparr>pm_failed_requests := pm_failed_requests m + 1\<rparr>);
          lats = pm_latencies m @ [latency_us]
      in m\<lparr>pm_latencies := (if length lats > 100000 then drop (length lats - 50000) lats else lats)\<rparr>)"

text \<open>The quotient of two Python integers is the float nearest to the exact quotient.\<close>

definition py_requests_per_second :: "rat \<Rightarrow> PyMetricsCollector \<Rightarrow> rat" where
  "py_requests_per_second now m =
     (let elapsed = fsub now (pm_start_time m)
      in if elapsed < rnd (1 / 1000) then 0 else fdiv (rnd (of_int (pm_total_requests m))) elapsed)"

definition py_error_rate :: "PyMetricsCollector \<Rightarrow> rat" where
  "py_error_rate m = (if pm_total_requests m = 0 then 0
     else fmul (rnd (of_int (pm_failed_requests m) / of_int (pm_total_requests m))) 100)"

definition py_sorted_at :: "rat \<Rightarrow> int list \<Rightarrow> int" where
  "py_sorted_at q lats =
     (if lats = [] then 0
      else let sorted_lats = sort lats; idx = nat (trunc_int (fmul (rnd (of_nat (length sorted_lats))) q))
           in sorted_lats ! min idx (length sorted_lats - 1))"

definition p95_latency_us :: "PyMetricsCollector \<Rightarrow> int" where
  "p95_latency_us m = py_sorted_at (rnd (95 / 100)) (pm_latencies m)"

definition p99_latency_us :: "PyMetricsCollector \<Rightarrow> int" where
  "p99_latency_us m = py_sorted_at (rnd (99 / 100)) (pm_latencies m)"

record PySnapshot =
  sn_total_requests :: int
  sn_successful_requests :: int
  sn_failed_requests :: int
  sn_total_bytes_sent :: int
  sn_total_bytes_received :: int
  sn_mean_latency_us :: rat
  sn_min_latency_us :: int
  sn_max_latency_us :: int
  sn_p95_latency_us :: int
  sn_p99_latency_us :: int
  sn_requests_per_second :: rat
  sn_error_rate :: rat

definition py_snapshot :: "rat \<Rightarrow> PyMetricsCollector \<Rightarrow> PySnapshot" where
  "py_snapshot now m =
     (let lats = pm_latencies m
      in \<lparr>sn_total_requests = pm_total_requests m, sn_successful_requests = pm_successful_requests m,
          sn_failed_requests = pm_failed_requests m, sn_total_bytes_sent = pm_total_bytes_sent m,
          sn_total_bytes_received = pm_total_bytes_received m,
          sn_mean_latency_us = (if lats \<noteq> [] then rnd (of_int (sum_list lats) / of_nat (length lats)) else 0),
          sn_min_latency_us = (if lats \<noteq> [] then fold min (tl lats) (hd lats) else 0),
          sn_max_latency_us = (if lats \<noteq> [] then fold max (tl lats) (hd lats) else 0),
          sn_p95_latency_us = p95_latency_us m, sn_p99_latency_us = p99_latency_us m,
          sn_requests_per_second = py_requests_per_second now m, sn_error_rate = py_error_rate m\<rparr>)"

definition py_reset :: "rat \<Rightarrow> PyMetricsCollector \<Rightarrow> PyMetricsCollector" where
  "py_reset now m = m\<lparr>pm_total_requests := 0, pm_successful_requests := 0, pm_failed_requests := 0, pm_total_bytes_sent := 0,
     pm_total_bytes_received := 0, pm_latencies := [], pm_start_time := now\<rparr>"

section \<open>The rate limiter\<close>

record PyTokenBucket =
  pb_rate :: rat
  pb_burst :: rat
  pb_tokens :: rat
  pb_last_refill :: rat

definition PyTokenBucket_new :: "rat \<Rightarrow> rat \<Rightarrow> rat \<Rightarrow> PyTokenBucket option" where
  "PyTokenBucket_new rate burst now =
     (if rate \<le> 0 then None
      else let b = (if burst > 0 then burst else rate) in Some \<lparr>pb_rate = rate, pb_burst = b, pb_tokens = b, pb_last_refill = now\<rparr>)"

definition py_refill :: "rat \<Rightarrow> PyTokenBucket \<Rightarrow> PyTokenBucket" where
  "py_refill now b =
     (let elapsed = fsub now (pb_last_refill b)
      in if elapsed > 0 then
           let t = fadd (pb_tokens b) (fmul elapsed (pb_rate b))
           in b\<lparr>pb_tokens := (if t > pb_burst b then pb_burst b else t), pb_last_refill := now\<rparr>
         else b)"

definition py_try_consume :: "rat \<Rightarrow> PyTokenBucket \<Rightarrow> bool \<times> PyTokenBucket" where
  "py_try_consume now b =
     (let b = py_refill now b in if pb_tokens b < 1 then (False, b) else (True, b\<lparr>pb_tokens := fsub (pb_tokens b) 1\<rparr>))"

text \<open>One pass of the loop of \<open>consume\<close>: \<open>Inl w\<close> when it sleeps for \<open>w\<close> seconds before the next one.\<close>

definition py_consume_pass :: "rat \<Rightarrow> PyTokenBucket \<Rightarrow> (rat + unit) \<times> PyTokenBucket" where
  "py_consume_pass now b =
     (let b = py_refill now b
      in if pb_tokens b \<ge> 1 then (Inr (), b\<lparr>pb_tokens := fsub (pb_tokens b) 1\<rparr>)
         else (Inl (min (fdiv (fsub 1 (pb_tokens b)) (pb_rate b)) 1), b))"

fun py_consume :: "rat list \<Rightarrow> PyTokenBucket \<Rightarrow> PyTokenBucket option" where
  "py_consume [] b = None"
| "py_consume (now # nows) b = (case py_consume_pass now b of (Inr _, b') \<Rightarrow> Some b' | (Inl _, b') \<Rightarrow> py_consume nows b')"

section \<open>The collector meets the contract\<close>

definition py_record :: "Obs \<Rightarrow> PyMetricsCollector \<Rightarrow> PyMetricsCollector" where
  "py_record ob m = py_record_request (uint (ob_status ob)) (ob_latency ob) (uint (ob_sent ob)) (uint (ob_received ob)) m"

definition py_view :: "PyMetricsCollector \<Rightarrow> Counters" where
  "py_view m = \<lparr>ct_total = word_of_int (pm_total_requests m), ct_successful = word_of_int (pm_successful_requests m),
     ct_failed = word_of_int (pm_failed_requests m), ct_sent = word_of_int (pm_total_bytes_sent m),
     ct_received = word_of_int (pm_total_bytes_received m)\<rparr>"

lemma is_success_uint: "is_success c \<longleftrightarrow> 200 \<le> uint c \<and> uint c < 400"
proof -
  have "uint (200 :: u16) = 200" "uint (400 :: u16) = 400" by simp_all
  then show ?thesis unfolding is_success_def word_le_def word_less_def by presburger
qed

lemma py_view_record: "py_view (py_record ob m) = count_obs ob (py_view m)"
  by (simp add: py_view_def py_record_def py_record_request_def Let_def count_obs_def is_success_uint)

interpretation pyc: request_recorder "\<lambda>_ _. True" "\<lambda>ob m. Some (py_record ob m)" py_view "\<lambda>ob. ob"
  by unfold_locales (simp add: py_view_record)

lemma record_all_total: "record_all (\<lambda>ob m. Some (f ob m)) obs m = Some (fold f obs m)"
  by (induction obs arbitrary: m) simp_all

lemma py_counters: "py_view (fold py_record obs (PyMetricsCollector_new now)) = counters_of obs"
proof -
  have "py_view (PyMetricsCollector_new now) = counters_zero"
    by (simp add: py_view_def PyMetricsCollector_new_def counters_zero_def)
  then show ?thesis using pyc.record_all_fresh [where qs = obs and s = "PyMetricsCollector_new now"] by (simp add: record_all_total)
qed

text \<open>The counters as integers: a Python counter never wraps.\<close>

lemma py_total: "pm_total_requests (fold py_record obs m) = pm_total_requests m + int (length obs)"
  by (induction obs arbitrary: m) (simp_all add: py_record_def py_record_request_def Let_def)

lemma py_failed: "pm_failed_requests (fold py_record obs m)
    = pm_failed_requests m + int (length (filter (\<lambda>ob. \<not> is_success (ob_status ob)) obs))"
proof (induction obs arbitrary: m)
  case (Cons ob obs)
  have "pm_failed_requests (py_record ob m) = pm_failed_requests m + (if is_success (ob_status ob) then 0 else 1)"
    by (simp add: py_record_def py_record_request_def Let_def is_success_uint)
  then show ?case by (simp add: Cons.IH)
qed simp

section \<open>The window of latencies\<close>

lemma py_record_latencies: "pm_latencies (py_record ob m)
    = (let l = pm_latencies m @ [ob_latency ob] in if length l > 100000 then keep_last 50000 l else l)"
  by (simp add: py_record_def py_record_request_def Let_def keep_last_def)

definition py_window :: "int list \<Rightarrow> int list \<Rightarrow> bool" where
  "py_window hist l \<longleftrightarrow> length l \<le> 100000 \<and> l = keep_last (length l) hist \<and> min (length hist) 50000 \<le> length l
     \<and> (length hist \<le> 100000 \<longrightarrow> l = hist)"

lemma keep_last_length: "length (keep_last n xs) = min n (length xs)"
  by (simp add: keep_last_def)

lemma keep_last_extend: "keep_last (length l) hist = l \<Longrightarrow> keep_last (Suc (length l)) (hist @ [x]) = l @ [x]"
  using arg_cong [of "keep_last (length l) hist" l length] by (auto simp: keep_last_def min_def split: if_splits)

lemma py_window_snoc:
  assumes "py_window hist l"
  shows "py_window (hist @ [x]) (let l' = l @ [x] in if length l' > 100000 then keep_last 50000 l' else l')"
proof -
  let ?h = "hist @ [x]" and ?l = "l @ [x]"
  have l: "length l \<le> 100000" "keep_last (length l) hist = l" "min (length hist) 50000 \<le> length l" "length hist \<le> 100000 \<Longrightarrow> l = hist"
    using assms by (auto simp: py_window_def)
  have e: "keep_last (length ?l) ?h = ?l" using keep_last_extend [OF l(2)] by simp
  have le: "length l \<le> length hist" using arg_cong [OF l(2), of length] by (simp add: keep_last_length)
  show ?thesis
  proof (cases "length ?l > 100000")
    case True
    have "keep_last 50000 ?l = keep_last 50000 ?h" using keep_last_keep_last [of 50000 "length ?l" ?h] e True by simp
    moreover have "length (keep_last 50000 ?l) = 50000" using True by (simp add: keep_last_length)
    ultimately show ?thesis using True le by (simp add: py_window_def Let_def)
  next
    case False
    then show ?thesis using e l(3,4) by (auto simp: py_window_def Let_def)
  qed
qed

lemma py_window_fold: "py_window hist (pm_latencies m) \<Longrightarrow> py_window (hist @ map ob_latency obs) (pm_latencies (fold py_record obs m))"
proof (induction obs arbitrary: hist m)
  case (Cons ob obs)
  have "py_window (hist @ [ob_latency ob]) (pm_latencies (py_record ob m))"
    unfolding py_record_latencies using Cons.prems by (rule py_window_snoc)
  from Cons.IH [OF this] show ?case by simp
qed simp

lemma py_window_new: "py_window (map ob_latency obs) (pm_latencies (fold py_record obs (PyMetricsCollector_new now)))"
  using py_window_fold [of "[]" "PyMetricsCollector_new now" obs] by (simp add: PyMetricsCollector_new_def py_window_def keep_last_def)

section \<open>Properties\<close>

lemma py_error_rate_eq:
  assumes "length obs < 2 ^ 53" "record_all mc_record obs (MetricsCollector_new now) = Some m"
  shows "py_error_rate (fold py_record obs (PyMetricsCollector_new now')) = error_rate m"
proof -
  let ?p = "fold py_record obs (PyMetricsCollector_new now')" and ?f = "length (filter (\<lambda>ob. \<not> is_success (ob_status ob)) obs)"
  have n: "length obs < 2 ^ 64" "length obs \<le> 2 ^ 63" using assms(1) by simp_all
  have p: "pm_total_requests ?p = int (length obs)" "pm_failed_requests ?p = int ?f"
    using py_total [of obs "PyMetricsCollector_new now'"] py_failed [of obs "PyMetricsCollector_new now'"]
    by (simp_all add: PyMetricsCollector_new_def)
  have m: "unat (mc_total_requests m) = length obs" "unat (mc_failed_requests m) = ?f"
    using counters_of_unat [OF n(1)] unfolding recorded_counters [OF n(2) assms(2), symmetric] by (simp_all add: mc_view_def)
  have f: "?f < 2 ^ 53" using assms(1) by (rule le_less_trans [OF length_filter_le])
  have "u64_double (mc_total_requests m) = of_nat (length obs)" "u64_double (mc_failed_requests m) = of_nat ?f"
    unfolding u64_double_def m using assms(1) f by (simp_all add: rnd_of_nat)
  moreover have "mc_total_requests m = 0 \<longleftrightarrow> length obs = 0" using m(1) by (metis unat_eq_zero)
  ultimately show ?thesis by (simp add: py_error_rate_def error_rate_def p fdiv_def)
qed

text \<open>
  The Python collector keeps between the last 50000 and the last 100000 latencies, all of them up to 100000, in the order in
  which they were recorded; its counters are exact.
\<close>

theorem py_collector_window:
  fixes obs :: "Obs list" and now :: rat
  defines "p \<equiv> fold py_record obs (PyMetricsCollector_new now)"
  shows "pm_latencies p = keep_last (length (pm_latencies p)) (map ob_latency obs) \<and> length (pm_latencies p) \<le> 100000
     \<and> min (length obs) 50000 \<le> length (pm_latencies p)
     \<and> (length obs \<le> 100000 \<longrightarrow> pm_latencies p = map ob_latency obs)
     \<and> pm_total_requests p = int (length obs)
     \<and> pm_failed_requests p = int (length (filter (\<lambda>ob. \<not> is_success (ob_status ob)) obs))"
  using py_window_new [of obs now] py_total [of obs "PyMetricsCollector_new now"] py_failed [of obs "PyMetricsCollector_new now"]
  unfolding p_def py_window_def length_map by (simp add: PyMetricsCollector_new_def)

theorem py_collector_window_witness:
  "pm_latencies (fold py_record [\<lparr>ob_status = 200, ob_latency = 30, ob_sent = 5, ob_received = 7\<rparr>] (PyMetricsCollector_new 0)) = [30]"
  using py_collector_window [of "[\<lparr>ob_status = 200, ob_latency = 30, ob_sent = 5, ob_received = 7\<rparr>]" 0] by simp

lemma collectors_agree:
  fixes now' :: rat
  assumes "record_all mc_record obs (MetricsCollector_new now) = Some m" "length obs \<le> 100000"
    and "\<forall>ob\<in>set obs. 0 \<le> ob_latency ob \<and> ob_latency ob < 2 ^ 63"
  defines "p \<equiv> fold py_record obs (PyMetricsCollector_new now')"
  shows "py_view p = mc_view m \<and> py_error_rate p = error_rate m
     \<and> p95_latency_us p = int (unat (rm_p95_latency_us (snapshot m))) \<and> p99_latency_us p = int (unat (rm_p99_latency_us (snapshot m)))"
proof -
  let ?l = "map ob_latency obs"
  have n: "length obs \<le> 2 ^ 63" "length obs < 2 ^ 53" using assms(2) by simp_all
  have s: "collect_ring_samples (mc_ring m) = ?l"
    using recorded_samples [OF n(1) assms(1)] assms(2) by (simp add: keep_last_short kMaxSnapshotSamples_def)
  have pl: "pm_latencies p = ?l" using py_window_new [of obs now'] assms(2) unfolding p_def py_window_def by simp
  have idx: "py_sorted_at q ?l = sort ?l ! quantile_idx q (length ?l)" if "?l \<noteq> []" for q
    using that by (simp add: py_sorted_at_def quantile_idx_def Let_def)
  have q: "p95_latency_us p = int (unat (rm_p95_latency_us (snapshot m))) \<and> p99_latency_us p = int (unat (rm_p99_latency_us (snapshot m)))"
  proof (cases "obs = []")
    case True
    then have "rm_p95_latency_us (snapshot m) = 0" "rm_p99_latency_us (snapshot m) = 0" using s by (simp_all add: snapshot_def Let_def)
    then show ?thesis using True pl by (simp add: p95_latency_us_def p99_latency_us_def py_sorted_at_def)
  next
    case False
    have nn: "\<forall>l\<in>set ?l. 0 \<le> l \<and> l < 2 ^ 63" using assms(3) by simp
    have b: "unat (rm_p95_latency_us (snapshot m)) = nat (sort ?l ! quantile_idx kP95 (length ?l))"
      "unat (rm_p99_latency_us (snapshot m)) = nat (sort ?l ! quantile_idx kP99 (length ?l))"
      using percentile_bounds [OF s [symmetric] _ nn] False by simp_all
    have "0 \<le> sort ?l ! quantile_idx q (length ?l)" for q
      using nn nth_mem [of "quantile_idx q (length ?l)" "sort ?l"] False quantile_idx_less [of "length ?l" q] by force
    then show ?thesis unfolding b using False by (simp add: p95_latency_us_def p99_latency_us_def pl idx kP95_def kP99_def)
  qed
  show ?thesis using q py_counters [of obs now'] recorded_counters [OF n(1) assms(1)] py_error_rate_eq [OF n(2) assms(1), of now']
    unfolding p_def by simp
qed

text \<open>
  C22: Up to 100000 requests the Python collector and the collector of the core report the same: totals, successes, failures and
  bytes, the error rate down to the last bit, and both percentiles.
\<close>

theorem py_collector_agrees:
  fixes now' :: rat
  assumes "record_all mc_record obs (MetricsCollector_new now) = Some m" "length obs \<le> 100000"
    and "\<forall>ob\<in>set obs. 0 \<le> ob_latency ob \<and> ob_latency ob < 2 ^ 63"
  defines "p \<equiv> fold py_record obs (PyMetricsCollector_new now')"
  shows "py_view p = mc_view m \<and> py_error_rate p = error_rate m
     \<and> p95_latency_us p = int (unat (rm_p95_latency_us (snapshot m))) \<and> p99_latency_us p = int (unat (rm_p99_latency_us (snapshot m)))"
  using collectors_agree [OF assms(1-3), of now'] unfolding p_def .

theorem py_collector_agrees_witness:
  "\<exists>m. record_all mc_record [\<lparr>ob_status = 503, ob_latency = 30, ob_sent = 5, ob_received = 7\<rparr>] (MetricsCollector_new 0) = Some m
     \<and> py_error_rate (fold py_record [\<lparr>ob_status = 503, ob_latency = 30, ob_sent = 5, ob_received = 7\<rparr>] (PyMetricsCollector_new 0)) = error_rate m"
proof -
  let ?obs = "[\<lparr>ob_status = 503, ob_latency = 30, ob_sent = 5, ob_received = 7\<rparr>]"
  have "mc_inv (length ?obs) (MetricsCollector_new 0)" by (rule mc_new_inv) simp
  then obtain m where m: "record_all mc_record ?obs (MetricsCollector_new 0) = Some m"
    using mc.record_all_ok [of ?obs 0 "MetricsCollector_new 0"] by auto
  with py_collector_agrees [OF m, of 0] show ?thesis by auto
qed

text \<open>
  The Python bucket and the bucket of the core in corresponding states: the fields are the same, the last refill is each
  bucket's own clock reading.
\<close>

definition bucket_sim :: "PyTokenBucket \<Rightarrow> TokenBucket \<Rightarrow> bool" where
  "bucket_sim p b \<longleftrightarrow> pb_rate p = tb_rate b \<and> pb_burst p = tb_burst b \<and> pb_tokens p = tb_tokens b"

definition same_elapsed :: "rat \<Rightarrow> PyTokenBucket \<Rightarrow> time_ns \<Rightarrow> TokenBucket \<Rightarrow> bool" where
  "same_elapsed t p now b \<longleftrightarrow> fsub t (pb_last_refill p) = elapsed_sec now (tb_last_refill b)"

lemma refill_sim: "bucket_sim p b \<Longrightarrow> same_elapsed t p now b \<Longrightarrow> bucket_sim (py_refill t p) (refill now b)"
  by (simp add: bucket_sim_def same_elapsed_def py_refill_def refill_def Let_def)

text \<open>
  C24: The Python bucket implements the bucket of the core: built with the same arguments they correspond, and as long as both
  measure the same time since their last refill they take the same decision, in \<open>try_consume\<close> and in a pass of \<open>consume\<close>, and
  correspond again.
\<close>

theorem py_bucket_simulates:
  assumes "bucket_sim p b" "same_elapsed t p now b"
  shows "(PyTokenBucket_new r c t0 = None \<longleftrightarrow> (\<exists>e. TokenBucket_new r c now0 = Inl e))
     \<and> (\<forall>p0 b0. PyTokenBucket_new r c t0 = Some p0 \<longrightarrow> TokenBucket_new r c now0 = Inr b0 \<longrightarrow> bucket_sim p0 b0)
     \<and> fst (py_try_consume t p) = fst (try_consume now b) \<and> bucket_sim (snd (py_try_consume t p)) (snd (try_consume now b))
     \<and> (isl (fst (py_consume_pass t p)) \<longleftrightarrow> isl (fst (consume_pass now b)))
     \<and> bucket_sim (snd (py_consume_pass t p)) (snd (consume_pass now b))"
proof -
  have s: "bucket_sim (py_refill t p) (refill now b)" using assms by (rule refill_sim)
  then have "pb_tokens (py_refill t p) = tb_tokens (refill now b)" by (simp add: bucket_sim_def)
  with s show ?thesis
    by (auto simp: PyTokenBucket_new_def TokenBucket_new_def py_try_consume_def try_consume_def py_consume_pass_def consume_pass_def
        take_token_def bucket_sim_def Let_def)
qed

theorem py_bucket_simulates_witness:
  "fst (py_try_consume 1 \<lparr>pb_rate = 5, pb_burst = 5, pb_tokens = 0, pb_last_refill = 0\<rparr>)
     = fst (try_consume (10 ^ 9) \<lparr>tb_rate = 5, tb_burst = 5, tb_tokens = 0, tb_last_refill = 0\<rparr>)"
proof -
  let ?p = "\<lparr>pb_rate = 5, pb_burst = 5, pb_tokens = 0, pb_last_refill = 0\<rparr>" and ?b = "\<lparr>tb_rate = 5, tb_burst = 5, tb_tokens = 0, tb_last_refill = 0\<rparr>"
  have "bucket_sim ?p ?b" by (simp add: bucket_sim_def)
  moreover have "same_elapsed 1 ?p (10 ^ 9) ?b" by (simp add: same_elapsed_def elapsed_sec_def fsub_def fdiv_def)
  ultimately show ?thesis using py_bucket_simulates [of ?p ?b 1 "10 ^ 9"] by blast
qed

lemma py_refill_burst: "pb_burst (py_refill t p) = pb_burst p" "pb_tokens p \<le> pb_burst p \<Longrightarrow> pb_tokens (py_refill t p) \<le> pb_burst p"
  by (auto simp: py_refill_def Let_def)

lemma py_consume_small: "pb_tokens p \<le> pb_burst p \<Longrightarrow> pb_burst p < 1 \<Longrightarrow> py_consume ts p = None"
proof (induction ts arbitrary: p)
  case (Cons t ts)
  have "pb_tokens (py_refill t p) < 1" using py_refill_burst(2) [OF Cons.prems(1), of t] Cons.prems(2) by simp
  moreover have "py_consume ts (py_refill t p) = None"
    using Cons.prems by (intro Cons.IH) (simp_all add: py_refill_burst)
  ultimately show ?case by (simp add: py_consume_pass_def Let_def)
qed simp

text \<open>
  A bucket for less than one request per second, built without a burst, gives out nothing: its burst is its rate, so it never
  holds a whole token, \<open>try_consume\<close> refuses for ever and \<open>consume\<close> does not return however often it wakes up.
\<close>

theorem py_slow_bucket_blocks:
  assumes "0 < rate" "rate < 1"
  shows "\<exists>p. PyTokenBucket_new rate 0 now = Some p \<and> py_consume ts p = None \<and> \<not> fst (py_try_consume t p)"
proof -
  let ?p = "\<lparr>pb_rate = rate, pb_burst = rate, pb_tokens = rate, pb_last_refill = now\<rparr>"
  have "pb_tokens (py_refill t ?p) < 1" using py_refill_burst(2) [of ?p t] assms(2) by simp
  then have "\<not> fst (py_try_consume t ?p)" by (simp add: py_try_consume_def Let_def)
  then show ?thesis using assms py_consume_small [of ?p ts] by (intro exI [of _ ?p]) (simp add: PyTokenBucket_new_def)
qed

theorem py_slow_bucket_blocks_witness: "\<exists>p. PyTokenBucket_new (1 / 2) 0 0 = Some p \<and> py_consume [2, 100] p = None"
  using py_slow_bucket_blocks [of "1 / 2" 0 "[2, 100]" 0] by auto

end
