(* ===== verification/Py_Clients.thy ===== *)
theory Py_Clients
  imports Py_Metrics Auth_Provider
begin

text \<open>
  The clients of the Python package, \<open>python/volley/core.py\<close>: HTTP client, connection pool, authentication, Vault and tracer. What
  \<open>urlopen\<close> does with a request is an argument; so are clock readings and the identifiers drawn by \<open>uuid4\<close>. A Python value from
  \<open>json.loads\<close> or \<open>yaml.safe_load\<close> is a \<open>PyVal\<close>, an exception the left value of a sum. \<open>AuthConfig\<close> and \<open>AuthType\<close> have the
  members of the core's and are shared with it.
\<close>

section \<open>Python values\<close>

datatype PyVal = PNone | PBool bool | PInt int | PFloat rat | PStr string | PList "PyVal list" | PDict "(string \<times> PyVal) list"

datatype py_exn = ValueError string | TypeError | KeyError | AttributeError | UnicodeError | IOError string | CalledProcessError int

fun py_bind :: "py_exn + 'a \<Rightarrow> ('a \<Rightarrow> py_exn + 'b) \<Rightarrow> py_exn + 'b" where
  "py_bind (Inl e) f = Inl e"
| "py_bind (Inr v) f = f v"

text \<open>\<open>v.get(key, default)\<close>: only a dict has the method.\<close>

fun py_get :: "PyVal \<Rightarrow> string \<Rightarrow> PyVal \<Rightarrow> py_exn + PyVal" where
  "py_get (PDict d) k dflt = Inr (case map_of d k of None \<Rightarrow> dflt | Some v \<Rightarrow> v)"
| "py_get _ _ _ = Inl AttributeError"

fun py_truthy :: "PyVal \<Rightarrow> bool" where
  "py_truthy PNone = False"
| "py_truthy (PBool b) = b"
| "py_truthy (PInt n) = (n \<noteq> 0)"
| "py_truthy (PFloat x) = (x \<noteq> 0)"
| "py_truthy (PStr s) = (s \<noteq> [])"
| "py_truthy (PList xs) = (xs \<noteq> [])"
| "py_truthy (PDict d) = (d \<noteq> [])"

section \<open>HTTP client\<close>

record PyHttpClient =
  ph_timeout_ms :: int
  ph_keep_alive :: bool

definition PyHttpClient_new :: PyHttpClient where
  "PyHttpClient_new = \<lparr>ph_timeout_ms = 5000, ph_keep_alive = True\<rparr>"

record PyHttpRequest =
  hr_method :: PyVal
  hr_target :: PyVal
  hr_body :: PyVal
  hr_headers :: PyVal
  hr_host :: string
  hr_port :: string

record PyResponse =
  pr_status_code :: int
  pr_body :: string
  pr_headers :: "(string \<times> string) list"
  pr_latency_us :: int

text \<open>
  What becomes of a request: a reply with its decoded body, an \<open>HTTPError\<close>, or any other exception inside the \<open>try\<close> with its text, such as
  a body that is not UTF-8. The body of an \<open>HTTPError\<close> is an exception when it cannot be read or does not decode.
\<close>

datatype Url_Open = Opened int string "(string \<times> string) list" | Http_error int "py_exn + string" | Open_failed string

record Url_Request =
  uq_url :: string
  uq_data :: "string option"
  uq_headers :: "(string \<times> PyVal) list"
  uq_method :: PyVal

text \<open>
  Building the request, before the \<open>try\<close>. \<open>str\<close> is the built-in conversion, which an f-string applies; only a string has \<open>encode\<close>, only a
  dict can be copied and gone through as headers.
\<close>

definition py_url_request :: "(PyVal \<Rightarrow> string) \<Rightarrow> PyHttpRequest \<Rightarrow> py_exn + Url_Request" where
  "py_url_request str req =
     (let scheme = (if hr_port req = ''443'' then ''https'' else ''http'');
          url = scheme @ ''://'' @ hr_host req @ '':'' @ hr_port req @ str (hr_target req)
      in py_bind (if \<not> py_truthy (hr_body req) then Inr None else case hr_body req of PStr b \<Rightarrow> Inr (Some b) | _ \<Rightarrow> Inl AttributeError)
           (\<lambda>data. case hr_headers req of
              PDict hs \<Rightarrow> Inr \<lparr>uq_url = url, uq_data = data, uq_headers = hs, uq_method = hr_method req\<rparr>
            | _ \<Rightarrow> Inl AttributeError))"

text \<open>Reading the body in the handler of \<open>HTTPError\<close> is outside the \<open>try\<close>: its exception leaves \<open>request\<close>.\<close>

definition py_request :: "(PyVal \<Rightarrow> string) \<Rightarrow> (Url_Request \<Rightarrow> Url_Open) \<Rightarrow> rat \<Rightarrow> rat \<Rightarrow> PyHttpRequest \<Rightarrow> py_exn + PyResponse" where
  "py_request str urlopen start now req =
     py_bind (py_url_request str req) (\<lambda>r.
       let latency = trunc_int (fmul (fsub now start) 1000000)
       in case urlopen r of
            Opened status body headers \<Rightarrow>
              Inr \<lparr>pr_status_code = status, pr_body = body, pr_headers = headers, pr_latency_us = latency\<rparr>
          | Http_error code (Inr body) \<Rightarrow> Inr \<lparr>pr_status_code = code, pr_body = body, pr_headers = [], pr_latency_us = latency\<rparr>
          | Http_error code (Inl e) \<Rightarrow> Inl e
          | Open_failed msg \<Rightarrow> Inr \<lparr>pr_status_code = 0, pr_body = msg, pr_headers = [], pr_latency_us = 0\<rparr>)"

section \<open>Connection pool\<close>

record PyConnectionPool =
  pp_max_connections :: int
  pp_pool :: "(string \<times> PyHttpClient list) list"

definition py_pool_key :: "string \<Rightarrow> string \<Rightarrow> string" where
  "py_pool_key host port = host @ '':'' @ port"

definition py_acquire :: "string \<Rightarrow> string \<Rightarrow> PyConnectionPool \<Rightarrow> PyHttpClient option \<times> PyConnectionPool" where
  "py_acquire host port p =
     (let key = py_pool_key host port; clients = (case map_of (pp_pool p) key of None \<Rightarrow> [] | Some cs \<Rightarrow> cs)
      in if clients \<noteq> [] then (Some (List.last clients), p\<lparr>pp_pool := AList.update key (butlast clients) (pp_pool p)\<rparr>)
         else (Some PyHttpClient_new, p))"

definition py_release :: "PyHttpClient \<Rightarrow> string \<Rightarrow> string \<Rightarrow> PyConnectionPool \<Rightarrow> PyConnectionPool" where
  "py_release client host port p =
     (let key = py_pool_key host port;
          pool = (if map_of (pp_pool p) key = None then AList.update key [] (pp_pool p) else pp_pool p);
          clients = the (map_of pool key)
      in p\<lparr>pp_pool := (if int (length clients) < pp_max_connections p then AList.update key (clients @ [client]) pool else pool)\<rparr>)"

section \<open>Authentication\<close>

text \<open>\<open>urlencode\<close>: as the percent-encoding of the core, but a space becomes a plus sign.\<close>

definition py_quote_plus :: "string \<Rightarrow> string" where
  "py_quote_plus s = concat (map (\<lambda>c. if c = CHR '' '' then ''+'' else url_encode [c]) s)"

record PyAuthProvider =
  pa_config :: AuthConfig
  pa_current_token :: PyVal
  pa_token_expiry :: rat

definition py_token_data :: "AuthConfig \<Rightarrow> string" where
  "py_token_data cfg = ''grant_type=client_credentials&client_id='' @ py_quote_plus (ac_client_id cfg)
     @ ''&client_secret='' @ py_quote_plus (ac_client_secret cfg)"

text \<open>\<open>max(expires_in - 60, 1)\<close> as seconds to be added to a float.\<close>

fun py_lifetime :: "PyVal \<Rightarrow> py_exn + rat" where
  "py_lifetime (PInt n) = Inr (rnd (of_int (max (n - 60) 1)))"
| "py_lifetime (PBool b) = Inr 1"
| "py_lifetime (PFloat x) = Inr (max (fsub x 60) 1)"
| "py_lifetime _ = Inl TypeError"

text \<open>
  \<open>post\<close> is what comes of posting the form to the endpoint: the parsed reply, or an exception of \<open>urlopen\<close> or \<open>json.loads\<close>. The token
  is stored before the lifetime is computed.
\<close>

definition py_fetch_token :: "(string \<Rightarrow> string \<Rightarrow> py_exn + PyVal) \<Rightarrow> rat \<Rightarrow> PyAuthProvider \<Rightarrow> (py_exn + unit) \<times> PyAuthProvider" where
  "py_fetch_token post now a =
     (case py_bind (post (ac_token_endpoint (pa_config a)) (py_token_data (pa_config a)))
             (\<lambda>body. py_bind (py_get body ''access_token'' (PStr [])) (\<lambda>tok. py_bind (py_get body ''expires_in'' (PInt 3600)) (\<lambda>n. Inr (tok, n)))) of
        Inl e \<Rightarrow> (Inl e, a)
      | Inr (tok, n) \<Rightarrow>
          let a = a\<lparr>pa_current_token := tok\<rparr>
          in (case py_lifetime n of Inl e \<Rightarrow> (Inl e, a) | Inr s \<Rightarrow> (Inr (), a\<lparr>pa_token_expiry := fadd now s\<rparr>)))"

definition PyAuthProvider_new :: "(string \<Rightarrow> string \<Rightarrow> py_exn + PyVal) \<Rightarrow> rat \<Rightarrow> AuthConfig \<Rightarrow> py_exn + PyAuthProvider" where
  "PyAuthProvider_new post now cfg =
     (let a = \<lparr>pa_config = cfg, pa_current_token = PStr [], pa_token_expiry = 0\<rparr>
      in if ac_type cfg = Auth_oauth2 \<and> ac_token_endpoint cfg \<noteq> [] then
           (case py_fetch_token post now a of (Inl e, _) \<Rightarrow> Inl e | (Inr _, a) \<Rightarrow> Inr a)
         else Inr a)"

definition py_is_expired :: "rat \<Rightarrow> PyAuthProvider \<Rightarrow> bool" where
  "py_is_expired now a \<longleftrightarrow> now \<ge> pa_token_expiry a"

text \<open>\<open>now\<close> is read for the test, \<open>now'\<close> when the reply is in.\<close>

definition py_apply_headers :: "(PyVal \<Rightarrow> string) \<Rightarrow> (string \<Rightarrow> string \<Rightarrow> py_exn + PyVal) \<Rightarrow> rat \<Rightarrow> rat \<Rightarrow> (string \<times> string) list
    \<Rightarrow> PyAuthProvider \<Rightarrow> (py_exn + (string \<times> string) list) \<times> PyAuthProvider" where
  "py_apply_headers str post now now' headers a = (case ac_type (pa_config a) of
     Auth_api_key \<Rightarrow> (Inr (AList.update ''X-API-Key'' (ac_api_key (pa_config a)) headers), a)
   | Auth_bearer \<Rightarrow> (Inr (AList.update ''Authorization'' (''Bearer '' @ ac_token (pa_config a)) headers), a)
   | Auth_oauth2 \<Rightarrow>
       (case (if py_is_expired now a then py_fetch_token post now' a else (Inr (), a)) of
          (Inl e, a) \<Rightarrow> (Inl e, a)
        | (Inr _, a) \<Rightarrow> (Inr (AList.update ''Authorization'' (''Bearer '' @ str (pa_current_token a)) headers), a))
   | Auth_mtls \<Rightarrow> (Inr headers, a)
   | Auth_none \<Rightarrow> (Inr headers, a))"

definition py_refresh_token :: "(string \<Rightarrow> string \<Rightarrow> py_exn + PyVal) \<Rightarrow> rat \<Rightarrow> PyAuthProvider \<Rightarrow> bool \<times> PyAuthProvider" where
  "py_refresh_token post now a =
     (if ac_type (pa_config a) \<noteq> Auth_oauth2 then (True, a)
      else case py_fetch_token post now a of (Inl _, a) \<Rightarrow> (False, a) | (Inr _, a) \<Rightarrow> (True, a))"

section \<open>Vault\<close>

record PyVaultConfig =
  pv_address :: string
  pv_token :: string
  pv_engine_path :: string

record PyVaultClient =
  pv_config :: PyVaultConfig
  pv_connected :: bool
  pv_last_error :: string

text \<open>
  The health check at construction. \<open>health\<close> is what \<open>urlopen\<close> does with the URL and the token header, if there is one: the status
  of a reply, or the text of an exception (\<open>urlopen\<close> raises for statuses from 400 on).
\<close>

definition PyVaultClient_new :: "(string \<Rightarrow> string option \<Rightarrow> string + int) \<Rightarrow> PyVaultConfig \<Rightarrow> PyVaultClient" where
  "PyVaultClient_new health cfg =
     (case health (pv_address cfg @ ''/v1/sys/health'') (if pv_token cfg \<noteq> [] then Some (pv_token cfg) else None) of
        Inl msg \<Rightarrow> \<lparr>pv_config = cfg, pv_connected = False, pv_last_error = msg\<rparr>
      | Inr status \<Rightarrow>
          if status \<ge> 500 then \<lparr>pv_config = cfg, pv_connected = False, pv_last_error = ''Vault unhealthy''\<rparr>
          else \<lparr>pv_config = cfg, pv_connected = True, pv_last_error = []\<rparr>)"

text \<open>\<open>re.match(r"^[a-zA-Z0-9_\-/]+$", path)\<close>: the dollar sign also matches before a newline at the end.\<close>

definition py_secret_char :: "char \<Rightarrow> bool" where
  "py_secret_char c \<longleftrightarrow> isalnum c \<or> c = CHR ''_'' \<or> c = CHR ''-'' \<or> c = CHR ''/''"

definition py_path_matches :: "string \<Rightarrow> bool" where
  "py_path_matches path =
     (let body = (if path \<noteq> [] \<and> List.last path = CHR 0x0A then butlast path else path)
      in body \<noteq> [] \<and> list_all py_secret_char body)"

definition py_secret_url :: "PyVaultConfig \<Rightarrow> string \<Rightarrow> string" where
  "py_secret_url cfg path = pv_address cfg @ ''/v1/'' @ pv_engine_path cfg @ ''/data/'' @ path"

text \<open>\<open>body.get("data", {}).get("data", {})\<close>.\<close>

definition py_secret_data :: "py_exn + PyVal \<Rightarrow> py_exn + PyVal" where
  "py_secret_data body = py_bind body (\<lambda>b. py_bind (py_get b ''data'' (PDict [])) (\<lambda>d. py_get d ''data'' (PDict [])))"

text \<open>
  \<open>fetch\<close> is what comes of requesting a URL with a token: an exception when the request object cannot be built, which is before the \<open>try\<close>, or
  else the parsed body or an exception inside it. The operations also return the URLs they requested.
\<close>

definition py_get_secret :: "(string \<Rightarrow> string \<Rightarrow> py_exn + (py_exn + PyVal)) \<Rightarrow> string \<Rightarrow> string \<Rightarrow> PyVaultClient
    \<Rightarrow> (py_exn + string option) \<times> string list" where
  "py_get_secret fetch path key v =
     (if \<not> py_path_matches path then (Inl (ValueError (''Invalid secret path: '' @ path)), [])
      else let url = py_secret_url (pv_config v) path
           in (case fetch url (pv_token (pv_config v)) of
                 Inl e \<Rightarrow> (Inl e, [])
               | Inr body \<Rightarrow>
                   (case py_bind (py_secret_data body) (\<lambda>data. py_get data key PNone) of
                      Inr (PStr value) \<Rightarrow> Inr (Some value)
                    | _ \<Rightarrow> Inr None, [url])))"

definition py_str_items :: "(string \<times> PyVal) list \<Rightarrow> (string \<times> string) list" where
  "py_str_items d = List.map_filter (\<lambda>(k, v). case v of PStr s \<Rightarrow> Some (k, s) | _ \<Rightarrow> None) d"

definition py_get_secret_map :: "(string \<Rightarrow> string \<Rightarrow> py_exn + (py_exn + PyVal)) \<Rightarrow> string \<Rightarrow> PyVaultClient
    \<Rightarrow> (py_exn + (string \<times> string) list) \<times> string list" where
  "py_get_secret_map fetch path v =
     (let url = py_secret_url (pv_config v) path
      in case fetch url (pv_token (pv_config v)) of
           Inl e \<Rightarrow> (Inl e, [])
         | Inr body \<Rightarrow> (case py_secret_data body of Inr (PDict d) \<Rightarrow> Inr (py_str_items d) | _ \<Rightarrow> Inr [], [url]))"

section \<open>Tracer\<close>

record PySpan =
  sp_name :: string
  sp_trace_id :: string
  sp_span_id :: string
  sp_start_time :: int
  sp_attributes :: "(string \<times> PyVal) list"
  sp_end_time :: "int option"

record PyTracer =
  pt_trace_id :: "string option"
  pt_spans :: "PySpan list"
  pt_active_span :: "PySpan option"

definition PyTracer_new :: PyTracer where
  "PyTracer_new = \<lparr>pt_trace_id = None, pt_spans = [], pt_active_span = None\<rparr>"

definition py_end_span :: "int \<Rightarrow> PyTracer \<Rightarrow> PyTracer" where
  "py_end_span now t = (case pt_active_span t of
     None \<Rightarrow> t
   | Some s \<Rightarrow> t\<lparr>pt_spans := pt_spans t @ [s\<lparr>sp_end_time := Some now\<rparr>], pt_active_span := None\<rparr>)"

text \<open>\<open>now\<close> is read when an active span is ended first, \<open>now'\<close> for the new one; \<open>u\<close> and \<open>u'\<close> are the hexadecimal digits of two UUIDs.\<close>

definition py_start_span :: "int \<Rightarrow> int \<Rightarrow> string \<Rightarrow> string \<Rightarrow> string \<Rightarrow> PyTracer \<Rightarrow> PyTracer" where
  "py_start_span now now' u u' name t =
     (let t = py_end_span now t;
          tid = (case pt_trace_id t of Some i \<Rightarrow> if i \<noteq> [] then i else take 32 u | None \<Rightarrow> take 32 u);
          s = \<lparr>sp_name = name, sp_trace_id = tid, sp_span_id = take 16 u', sp_start_time = now', sp_attributes = [], sp_end_time = None\<rparr>;
          t = t\<lparr>pt_active_span := Some s\<rparr>
      in if pt_trace_id t = None then t\<lparr>pt_trace_id := Some tid\<rparr> else t)"

definition py_add_attribute :: "string \<Rightarrow> PyVal \<Rightarrow> PyTracer \<Rightarrow> PyTracer" where
  "py_add_attribute key v t = (case pt_active_span t of
     None \<Rightarrow> t
   | Some s \<Rightarrow> t\<lparr>pt_active_span := Some (s\<lparr>sp_attributes := AList.update key v (sp_attributes s)\<rparr>)\<rparr>)"

section \<open>Facts about the pool\<close>

definition py_idle :: "PyConnectionPool \<Rightarrow> string \<Rightarrow> PyHttpClient list" where
  "py_idle p key = (case map_of (pp_pool p) key of None \<Rightarrow> [] | Some cs \<Rightarrow> cs)"

inductive py_pool_step :: "PyConnectionPool \<Rightarrow> PyConnectionPool \<Rightarrow> bool" where
  Acquire: "py_pool_step p (snd (py_acquire host port p))"
| Release: "py_pool_step p (py_release c host port p)"

lemma py_idle_acquire: "py_idle (snd (py_acquire host port p)) k
    = (if k = py_pool_key host port then butlast (py_idle p k) else py_idle p k)"
  by (auto simp: py_idle_def py_acquire_def Let_def split: option.splits)

lemma py_idle_release: "py_idle (py_release c host port p) k
    = (if k = py_pool_key host port \<and> int (length (py_idle p k)) < pp_max_connections p then py_idle p k @ [c] else py_idle p k)"
  by (auto simp: py_idle_def py_release_def Let_def split: option.splits)

lemma py_pool_frame: "pp_max_connections (snd (py_acquire host port p)) = pp_max_connections p"
  "pp_max_connections (py_release c host port p) = pp_max_connections p"
  by (auto simp: py_acquire_def py_release_def Let_def)

definition py_pool_inv :: "int \<Rightarrow> PyConnectionPool \<Rightarrow> bool" where
  "py_pool_inv n p \<longleftrightarrow> pp_max_connections p = n \<and> (\<forall>k. int (length (py_idle p k)) \<le> n)"

lemma py_pool_step_inv: "py_pool_step p p' \<Longrightarrow> py_pool_inv n p \<Longrightarrow> py_pool_inv n p'"
proof (induction rule: py_pool_step.induct)
  case (Acquire p host port)
  have "int (length (butlast xs)) \<le> n" if "int (length xs) \<le> n" for xs :: "PyHttpClient list" using that by simp
  then show ?case using Acquire by (simp add: py_pool_inv_def py_idle_acquire py_pool_frame)
next
  case (Release p c host port)
  then show ?case by (auto simp: py_pool_inv_def py_idle_release py_pool_frame)
qed

section \<open>Facts about the tracer\<close>

datatype Trace_Op = Start int int string string string | End int | Attribute string PyVal

fun trace_op :: "Trace_Op \<Rightarrow> PyTracer \<Rightarrow> PyTracer" where
  "trace_op (Start now now' u u' name) t = py_start_span now now' u u' name t"
| "trace_op (End now) t = py_end_span now t"
| "trace_op (Attribute k v) t = py_add_attribute k v t"

fun is_start :: "Trace_Op \<Rightarrow> bool" where
  "is_start (Start _ _ _ _ _) = True"
| "is_start _ = False"

definition tracer_inv :: "nat \<Rightarrow> PyTracer \<Rightarrow> bool" where
  "tracer_inv n t \<longleftrightarrow> length (pt_spans t) + (if pt_active_span t = None then 0 else 1) = n
     \<and> list_all (\<lambda>s. Some (sp_trace_id s) = pt_trace_id t \<and> sp_end_time s \<noteq> None) (pt_spans t)
     \<and> (\<forall>s. pt_active_span t = Some s \<longrightarrow> Some (sp_trace_id s) = pt_trace_id t \<and> sp_end_time s = None)
     \<and> pt_trace_id t \<noteq> Some []"

lemma end_span_inv: "tracer_inv n t \<Longrightarrow> tracer_inv n (py_end_span now t) \<and> pt_active_span (py_end_span now t) = None"
  by (cases "pt_active_span t") (simp_all add: tracer_inv_def py_end_span_def)

lemma start_span_inv:
  assumes "tracer_inv n t" "u \<noteq> []"
  shows "tracer_inv (Suc n) (py_start_span now now' u u' name t)"
proof -
  let ?t = "py_end_span now t"
  have i: "tracer_inv n ?t" "pt_active_span ?t = None" using end_span_inv [OF assms(1)] by auto
  show ?thesis
  proof (cases "pt_trace_id ?t")
    case None
    then have "pt_spans ?t = []" using i(1) by (cases "pt_spans ?t") (auto simp: tracer_inv_def)
    then show ?thesis using None i assms(2) by (simp add: tracer_inv_def py_start_span_def Let_def)
  next
    case (Some x)
    then show ?thesis using i by (simp add: tracer_inv_def py_start_span_def Let_def)
  qed
qed

lemma add_attribute_inv: "tracer_inv n t \<Longrightarrow> tracer_inv n (py_add_attribute k v t)"
  by (cases "pt_active_span t") (simp_all add: tracer_inv_def py_add_attribute_def)

lemma trace_ops_inv:
  assumes "tracer_inv n t" "\<forall>now now' u u' name. Start now now' u u' name \<in> set ops \<longrightarrow> u \<noteq> []"
  shows "tracer_inv (n + length (filter is_start ops)) (fold trace_op ops t)"
  using assms
proof (induction ops arbitrary: n t)
  case (Cons x ops)
  have "tracer_inv (n + (if is_start x then 1 else 0)) (trace_op x t)"
    using Cons.prems by (cases x) (simp_all add: start_span_inv end_span_inv add_attribute_inv)
  then have "tracer_inv (n + (if is_start x then 1 else 0) + length (filter is_start ops)) (fold trace_op ops (trace_op x t))"
    using Cons.prems(2) by (intro Cons.IH) auto
  then show ?case by (simp split: if_splits)
qed simp

section \<open>Properties\<close>

text \<open>
  The Python pool never keeps more idle clients for an address than \<open>max_connections\<close>, a client given back while there is room is
  the next one handed out, and \<open>acquire\<close> always hands one out: the limit bounds the idle clients, not the clients in use.
\<close>

theorem py_pool_bounded:
  assumes "py_pool_step\<^sup>*\<^sup>* \<lparr>pp_max_connections = n, pp_pool = []\<rparr> p" "0 \<le> n"
  shows "int (length (py_idle p k)) \<le> n \<and> fst (py_acquire host port p) \<noteq> None
     \<and> (int (length (py_idle p (py_pool_key host port))) < n
          \<longrightarrow> fst (py_acquire host port (py_release c host port p)) = Some c
            \<and> py_idle (snd (py_acquire host port (py_release c host port p))) k = py_idle p k)"
proof -
  have "py_pool_inv n \<lparr>pp_max_connections = n, pp_pool = []\<rparr>" using assms(2) by (simp add: py_pool_inv_def py_idle_def)
  with assms(1) have inv: "py_pool_inv n p" by (induction rule: rtranclp_induct) (auto dest: py_pool_step_inv)
  have f: "fst (py_acquire host port q) = Some (if py_idle q (py_pool_key host port) \<noteq> [] then List.last (py_idle q (py_pool_key host port)) else PyHttpClient_new)" for q
    by (simp add: py_acquire_def py_idle_def Let_def)
  show ?thesis using inv by (simp add: py_pool_inv_def f py_idle_acquire py_idle_release)
qed

theorem py_pool_bounded_witness:
  "fst (py_acquire ''h'' ''80'' (py_release PyHttpClient_new ''h'' ''80'' \<lparr>pp_max_connections = 1, pp_pool = []\<rparr>)) = Some PyHttpClient_new"
  using py_pool_bounded [OF rtranclp.rtrancl_refl, of 1 "''k''" "''h''" "''80''" PyHttpClient_new] by (simp add: py_idle_def)

text \<open>
  Every span a Python tracer has begun is kept, all with the trace id of the tracer; the finished ones have an end time, and at
  most the last one is still open.
\<close>

theorem py_tracer_keeps_spans:
  assumes "\<forall>now now' u u' name. Start now now' u u' name \<in> set ops \<longrightarrow> u \<noteq> []" "t = fold trace_op ops PyTracer_new"
  shows "length (pt_spans t) + (if pt_active_span t = None then 0 else 1) = length (filter is_start ops)
     \<and> (\<forall>s \<in> set (pt_spans t). Some (sp_trace_id s) = pt_trace_id t \<and> sp_end_time s \<noteq> None)
     \<and> (\<forall>s. pt_active_span t = Some s \<longrightarrow> Some (sp_trace_id s) = pt_trace_id t \<and> sp_end_time s = None)"
proof -
  have "tracer_inv 0 PyTracer_new" by (simp add: tracer_inv_def PyTracer_new_def)
  from trace_ops_inv [OF this assms(1)] show ?thesis by (simp add: assms(2) tracer_inv_def list_all_iff)
qed

theorem py_tracer_keeps_spans_witness:
  "length (pt_spans (fold trace_op [Start 0 1 ''ab'' ''cd'' ''load_test'', End 2] PyTracer_new)) = 1"
  using py_tracer_keeps_spans [of "[Start 0 1 ''ab'' ''cd'' ''load_test'', End 2]"]
  by (simp add: py_start_span_def py_end_span_def PyTracer_new_def Let_def)

lemma py_fetch_fails: "post (ac_token_endpoint (pa_config a)) (py_token_data (pa_config a)) = Inl e \<Longrightarrow> py_fetch_token post now a = (Inl e, a)"
  by (simp add: py_fetch_token_def)

text \<open>
  When the token has expired and cannot be renewed, the Python provider raises the exception of the token request out of
  \<open>apply_headers\<close> although it still holds a token, whereas the provider of the core goes on with the token it has.
\<close>

theorem py_refresh_failure_raises:
  assumes "ac_type (pa_config a) = Auth_oauth2" "py_is_expired now a"
    and "post (ac_token_endpoint (pa_config a)) (py_token_data (pa_config a)) = Inl e" "oauth_ready b"
  shows "py_apply_headers str post now now' hs a = (Inl e, a)
     \<and> map_of (fst (apply_headers J P t t' hs b)) ''Authorization'' \<noteq> None"
proof -
  obtain tok b' where g: "get_token J P t t' b = (tok, b')" by fastforce
  have "oauth_ready b' \<and> tok = current_token b'" using get_token_ready [OF g assms(4)] .
  then have "map_of (fst (apply_headers J P t t' hs b)) ''Authorization'' \<noteq> None"
    using assms(4) g by (simp add: apply_headers_def oauth_ready_def)
  then show ?thesis using assms(1,2) py_fetch_fails [of post a e now'] assms(3) by (simp add: py_apply_headers_def)
qed

theorem py_refresh_failure_raises_witness:
  "fst (py_apply_headers (\<lambda>_. ''tok'') (\<lambda>_ _. Inl (IOError ''refused'')) 4000 4001 []
     \<lparr>pa_config = oauth_config, pa_current_token = PStr ''tok'', pa_token_expiry = 3540\<rparr>) = Inl (IOError ''refused'')"
proof -
  let ?a = "\<lparr>pa_config = oauth_config, pa_current_token = PStr ''tok'', pa_token_expiry = 3540\<rparr>"
  let ?b = "\<lparr>au_config = oauth_config, current_token = ''tok'', token_expiry = 0, au_posts = 1\<rparr>"
  have b: "oauth_ready ?b" and t: "ac_type (pa_config ?a) = Auth_oauth2" by (simp_all add: oauth_ready_def oauth_config_def)
  have x: "py_is_expired 4000 ?a" by (simp add: py_is_expired_def)
  show ?thesis
    using py_refresh_failure_raises [OF t x, of "\<lambda>_ _. Inl (IOError ''refused'')" "IOError ''refused''", OF refl b,
        of "\<lambda>_. ''tok''" 4001 "[]" "json_reply ''tok'' 1" "net_reply 500" 0 0] by simp
qed

lemma secret_char_not_special:
  "\<not> py_secret_char (CHR ''.'')" "\<not> py_secret_char (CHR ''%'')" "\<not> py_secret_char (CHR ''?'')" "\<not> py_secret_char (CHR ''#'')"
  by (simp_all add: py_secret_char_def isalnum_def isalpha_def isupper_def islower_def isdigit_def)

lemma path_matches_chars: "py_path_matches path \<Longrightarrow> c \<in> set path \<Longrightarrow> py_secret_char c \<or> c = CHR 0x0A"
proof -
  assume m: "py_path_matches path" and c: "c \<in> set path"
  have "path = butlast path @ [List.last path]" if "path \<noteq> []" using that by simp
  then have "c \<in> set (butlast path) \<or> c = List.last path" using c by (metis Un_iff empty_iff set_append set_ConsD set_empty)
  then show ?thesis using m c by (auto simp: py_path_matches_def Let_def list_all_iff split: if_splits)
qed

text \<open>
  Reading one secret is confined to the engine: a path with a dot, a percent sign, a question mark or a hash sign is refused
  with an exception and nothing is requested. Reading all secrets at a path has no such check: the path goes into the URL as it is.
\<close>

theorem py_vault_paths:
  "(\<forall>c \<in> set ''.%?#''. c \<in> set path \<longrightarrow> py_get_secret fetch path key v = (Inl (ValueError (''Invalid secret path: '' @ path)), []))
   \<and> (snd (py_get_secret fetch path key v) = [] \<or> snd (py_get_secret fetch path key v) = [py_secret_url (pv_config v) path])
   \<and> (fetch (py_secret_url (pv_config v) path) (pv_token (pv_config v)) = Inr body
        \<longrightarrow> snd (py_get_secret_map fetch path v) = [py_secret_url (pv_config v) path])"
proof -
  have "py_get_secret fetch path key v = (Inl (ValueError (''Invalid secret path: '' @ path)), [])"
    if "c \<in> set ''.%?#''" "c \<in> set path" for c
  proof -
    have "\<not> py_secret_char c \<and> c \<noteq> CHR 0x0A" using that(1) secret_char_not_special by auto
    then have "\<not> py_path_matches path" using path_matches_chars [of path c] that(2) by blast
    then show ?thesis by (simp add: py_get_secret_def)
  qed
  then show ?thesis by (auto simp: py_get_secret_def py_get_secret_map_def Let_def split: sum.splits)
qed

theorem py_vault_paths_witness:
  "snd (py_get_secret (\<lambda>_ _. Inr (Inr PNone)) ''../sys/x'' ''k'' \<lparr>pv_config = \<lparr>pv_address = ''http://v'', pv_token = [], pv_engine_path = ''secret''\<rparr>,
       pv_connected = True, pv_last_error = []\<rparr>) = []"
  using py_vault_paths [of "''../sys/x''" "\<lambda>_ _. Inr (Inr PNone)" "''k''" "\<lparr>pv_config = \<lparr>pv_address = ''http://v'', pv_token = [], pv_engine_path = ''secret''\<rparr>,
       pv_connected = True, pv_last_error = []\<rparr>"] by simp

end
