(* ===== verification/Py_Run.thy ===== *)
theory Py_Run
  imports Py_Clients Scenario_Engine
begin

text \<open>
  Load tests of the Python package, \<open>python/volley/core.py\<close>: \<open>ScenarioEngine\<close>, which runs the command line tool, and \<open>LoadTest\<close>, which
  sends the requests itself. The configuration is what \<open>yaml.safe_load\<close> returns, with strings as keys. The threads of a run are a step relation:
  each call on the shared bucket, pool and collector is one step. The string functions of Python are for bytes below 128.
\<close>

section \<open>From the standard library\<close>

definition py_partition :: "char \<Rightarrow> string \<Rightarrow> string \<times> bool \<times> string" where
  "py_partition c s = (takeWhile (\<lambda>x. x \<noteq> c) s, c \<in> set s, drop 1 (dropWhile (\<lambda>x. x \<noteq> c) s))"

definition py_rpartition_tail :: "char \<Rightarrow> string \<Rightarrow> string" where
  "py_rpartition_tail c s = rev (takeWhile (\<lambda>x. x \<noteq> c) (rev s))"

definition scheme_char :: "char \<Rightarrow> bool" where
  "scheme_char c \<longleftrightarrow> isalnum c \<or> c = CHR ''+'' \<or> c = CHR ''-'' \<or> c = CHR ''.''"

text \<open>\<open>urlparse(url).netloc\<close>.\<close>

definition py_netloc :: "string \<Rightarrow> py_exn + string" where
  "py_netloc url =
     (let url = filter (\<lambda>c. c \<noteq> CHR 0x09 \<and> c \<noteq> CHR 0x0A \<and> c \<noteq> CHR 0x0D) (dropWhile (\<lambda>c. of_char c \<le> (32::nat)) url);
          (scheme, colon, after) = py_partition (CHR '':'') url;
          rest = (if colon \<and> scheme \<noteq> [] \<and> isalpha (hd scheme) \<and> list_all scheme_char scheme then after else url);
          netloc = (if take 2 rest = ''//'' then takeWhile (\<lambda>c. c \<noteq> CHR ''/'' \<and> c \<noteq> CHR ''?'' \<and> c \<noteq> CHR ''#'') (drop 2 rest) else [])
      in if (CHR ''['' \<in> set netloc) \<noteq> (CHR '']'' \<in> set netloc) then Inl (ValueError ''Invalid IPv6 URL'') else Inr netloc)"

text \<open>The host in lower case, empty for \<open>None\<close>, and the text behind the colon.\<close>

definition py_hostinfo :: "string \<Rightarrow> string \<times> string" where
  "py_hostinfo netloc =
     (let hostinfo = py_rpartition_tail (CHR ''@'') netloc; (_, open_br, bracketed) = py_partition (CHR ''['') hostinfo;
          (host, port) =
            (if open_br then let (h, _, p) = py_partition (CHR '']'') bracketed in (h, snd (snd (py_partition (CHR '':'') p)))
             else let (h, _, p) = py_partition (CHR '':'') hostinfo in (h, p));
          (name, zone, zid) = py_partition (CHR ''%'') host
      in (map tolower name @ (if zone then CHR ''%'' # zid else []), port))"

text \<open>\<open>port\<close>: \<open>None\<close> for an absent or empty one.\<close>

definition py_port :: "string \<Rightarrow> py_exn + nat option" where
  "py_port p =
     (if p = [] then Inr None
      else if \<not> list_all isdigit p then Inl (ValueError ''Port could not be cast to integer value'')
      else if digits_val p > 65535 then Inl (ValueError ''Port out of range 0-65535'')
      else Inr (Some (digits_val p)))"

text \<open>\<open>float(s)\<close>: \<open>None\<close> for a \<open>ValueError\<close>. Digits may be grouped by single underscores.\<close>

fun digit_groups :: "string \<Rightarrow> string option" where
  "digit_groups [] = None"
| "digit_groups [c] = (if isdigit c then Some [c] else None)"
| "digit_groups (c # d # s) =
     (if \<not> isdigit c then None
      else if d = CHR ''_'' then map_option ((#) c) (digit_groups s)
      else map_option ((#) c) (digit_groups (d # s)))"

definition sign_split :: "string \<Rightarrow> bool \<times> string" where
  "sign_split s = (s \<noteq> [] \<and> hd s = CHR ''-'', if s \<noteq> [] \<and> (hd s = CHR ''-'' \<or> hd s = CHR ''+'') then tl s else s)"

definition py_decimal :: "string \<Rightarrow> rat option" where
  "py_decimal s =
     (let m = takeWhile (\<lambda>c. tolower c \<noteq> CHR ''e'') s; x = dropWhile (\<lambda>c. tolower c \<noteq> CHR ''e'') s;
          (ip, _, fp) = py_partition (CHR ''.'') m; (eneg, ed) = sign_split (drop 1 x)
      in if ip @ fp = [] \<or> (ip \<noteq> [] \<and> digit_groups ip = None) \<or> (fp \<noteq> [] \<and> digit_groups fp = None) \<or> (x \<noteq> [] \<and> digit_groups ed = None)
         then None
         else let di = (if ip = [] then [] else the (digit_groups ip)); df = (if fp = [] then [] else the (digit_groups fp));
                  ev = (if x = [] then 0 else int (digits_val (the (digit_groups ed))))
              in Some (of_nat (digits_val (di @ df)) * 10 powi ((if eneg then - ev else ev) - int (length df))))"

definition py_isspace :: "char \<Rightarrow> bool" where
  "py_isspace c \<longleftrightarrow> isspace c \<or> (28 \<le> (of_char c :: nat) \<and> of_char c \<le> (31 :: nat))"

definition py_strip :: "string \<Rightarrow> string" where
  "py_strip s = rev (dropWhile py_isspace (rev (dropWhile py_isspace s)))"

definition py_float :: "string \<Rightarrow> xdouble option" where
  "py_float s =
     (let (neg, r) = sign_split (py_strip s); l = map tolower r
      in if l = ''inf'' \<or> l = ''infinity'' then Some (if neg then NInf else PInf)
         else if l = ''nan'' then Some NaN
         else map_option (\<lambda>q. let v = rnd (if neg then - q else q) in if v \<ge> 2 ^ 1024 then PInf else if v \<le> - (2 ^ 1024) then NInf else Fin v)
                (py_decimal r))"

fun py_remove :: "string \<Rightarrow> string \<Rightarrow> nat \<Rightarrow> string" where
  "py_remove sub [] k = []"
| "py_remove sub (c # s) (Suc k) = py_remove sub s k"
| "py_remove sub (c # s) 0 = (if take (length sub) (c # s) = sub then py_remove sub s (length sub - 1) else c # py_remove sub s 0)"

text \<open>
  \<open>os.path.expandvars\<close>: the name of the variable behind a dollar sign, with the number of characters it takes; a variable that is not
  set stays as it is written.
\<close>

definition py_var :: "string \<Rightarrow> (string \<times> nat) option" where
  "py_var s =
     (if s \<noteq> [] \<and> hd s = CHR ''{'' \<and> CHR ''}'' \<in> set (tl s) then
        let name = takeWhile (\<lambda>x. x \<noteq> CHR ''}'') (tl s) in Some (name, length name + 2)
      else let name = takeWhile (\<lambda>x. isalnum x \<or> x = CHR ''_'') s in if name = [] then None else Some (name, length name))"

function py_expandvars :: "(string \<Rightarrow> string option) \<Rightarrow> string \<Rightarrow> string" where
  "py_expandvars env [] = []"
| "py_expandvars env (c # s) = (case (if c = CHR ''$'' then py_var s else None) of
     None \<Rightarrow> c # py_expandvars env s
   | Some (name, n) \<Rightarrow> (case env name of None \<Rightarrow> c # take n s | Some v \<Rightarrow> v) @ py_expandvars env (drop n s))"
  by pat_completeness simp_all
termination by (relation "measure (\<lambda>(_, s). length s)") (simp_all add: le_imp_less_Suc)

section \<open>Driving the command line tool\<close>

text \<open>\<open>win\<close> says whether the platform is Windows, \<open>present\<close> which files exist.\<close>

definition py_find_cli :: "bool \<Rightarrow> (string \<Rightarrow> bool) \<Rightarrow> string" where
  "py_find_cli win present =
     (let sep = map (\<lambda>c. if win \<and> c = CHR ''/'' then CHR 0x5C else c); paths = map (\<lambda>d. sep d @ ''volley'' @ (if win then ''.exe'' else []))
            [''build/tools/'', ''build-release/tools/'', ''build-shared/tools/'', ''/usr/local/bin/'', ''/usr/bin/'']
      in case find present paths of None \<Rightarrow> ''volley'' | Some p \<Rightarrow> p)"

record PyScenarioEngine =
  se_config_path :: string
  se_config :: PyVal

definition py_load_config :: "(string \<Rightarrow> py_exn + PyVal) \<Rightarrow> PyScenarioEngine \<Rightarrow> bool \<times> PyScenarioEngine" where
  "py_load_config read e = (case read (se_config_path e) of Inl _ \<Rightarrow> (False, e) | Inr v \<Rightarrow> (True, e\<lparr>se_config := v\<rparr>))"

text \<open>\<open>exec\<close> runs a command and gives its exit status; \<open>check=True\<close> turns any but 0 into an exception.\<close>

definition py_engine_run :: "bool \<Rightarrow> (string \<Rightarrow> bool) \<Rightarrow> (string list \<Rightarrow> py_exn + int) \<Rightarrow> PyScenarioEngine \<Rightarrow> py_exn + unit" where
  "py_engine_run win present exec e =
     py_bind (py_get (se_config e) ''test_id'' (PStr ''unknown''))
       (\<lambda>_. py_bind (exec [py_find_cli win present, ''--config'', se_config_path e])
          (\<lambda>status. if status \<noteq> 0 then Inl (CalledProcessError status) else Inr ()))"

section \<open>LoadTest\<close>

record PyLoadTest =
  lt_config :: PyVal
  lt_test_id :: PyVal
  lt_target_url :: string
  lt_metrics :: PyMetricsCollector
  lt_auth :: PyAuthProvider
  lt_tracer :: PyTracer
  lt_token_bucket :: "PyTokenBucket option"
  lt_pool :: PyConnectionPool

text \<open>\<open>profiles[0] if profiles\<close>: nothing for a false value.\<close>

fun py_first :: "PyVal \<Rightarrow> py_exn + PyVal option" where
  "py_first (PList xs) = Inr (case xs of [] \<Rightarrow> None | p # _ \<Rightarrow> Some p)"
| "py_first (PStr s) = Inr (case s of [] \<Rightarrow> None | c # _ \<Rightarrow> Some (PStr [c]))"
| "py_first (PDict d) = (if d = [] then Inr None else Inl KeyError)"
| "py_first PNone = Inr None"
| "py_first (PBool b) = (if b then Inl TypeError else Inr None)"
| "py_first (PInt n) = (if n \<noteq> 0 then Inl TypeError else Inr None)"
| "py_first (PFloat x) = (if x \<noteq> 0 then Inl TypeError else Inr None)"

text \<open>The number a bucket is built for; integers below \<open>2\<^sup>5\<^sup>3\<close> are floats.\<close>

fun py_number :: "PyVal \<Rightarrow> py_exn + rat" where
  "py_number (PInt n) = Inr (of_int n)"
| "py_number (PFloat x) = Inr x"
| "py_number (PBool b) = Inr (if b then 1 else 0)"
| "py_number _ = Inl TypeError"

fun py_text :: "PyVal \<Rightarrow> py_exn + string" where
  "py_text (PStr s) = Inr s"
| "py_text _ = Inl TypeError"

fun py_is_str :: "PyVal \<Rightarrow> string \<Rightarrow> bool" where
  "py_is_str (PStr s) t = (s = t)"
| "py_is_str _ _ = False"

definition AuthConfig_none :: AuthConfig where
  "AuthConfig_none = \<lparr>ac_type = Auth_none, ac_api_key = [], ac_token = [], ac_client_id = [], ac_client_secret = [], ac_token_endpoint = [],
     ac_cert_path = [], ac_key_path = [], ac_ca_path = []\<rparr>"

text \<open>Whatever the identifier and the secret are, \<open>urlencode\<close> converts them with \<open>str\<close>, and so does the URL library the endpoint.\<close>

definition py_setup_auth :: "(PyVal \<Rightarrow> string) \<Rightarrow> (string \<Rightarrow> string \<Rightarrow> py_exn + PyVal) \<Rightarrow> rat \<Rightarrow> PyVal \<Rightarrow> py_exn + PyAuthProvider" where
  "py_setup_auth str post now config =
     py_bind (py_get config ''authentication'' (PDict [])) (\<lambda>auth_cfg. py_bind (py_get auth_cfg ''type'' PNone) (\<lambda>ty.
       if \<not> py_is_str ty ''oauth2'' then PyAuthProvider_new post now AuthConfig_none
       else py_bind (py_get auth_cfg ''client_credentials'' (PDict [])) (\<lambda>cc.
            py_bind (py_get cc ''client_id'' (PStr [])) (\<lambda>cid.
            py_bind (py_get cc ''client_secret'' (PStr [])) (\<lambda>secret.
            py_bind (py_get auth_cfg ''token_endpoint'' (PStr [])) (\<lambda>ep.
              PyAuthProvider_new post now (AuthConfig_none\<lparr>ac_type := Auth_oauth2, ac_client_id := str cid, ac_client_secret := str secret,
                ac_token_endpoint := (if py_truthy ep then str ep else [])\<rparr>)))))))"

definition py_setup_bucket :: "rat \<Rightarrow> PyVal \<Rightarrow> py_exn + PyTokenBucket option" where
  "py_setup_bucket now config =
     py_bind (py_bind (py_get config ''load_profile'' (PList [])) py_first) (\<lambda>profile. case profile of
       None \<Rightarrow> Inr None
     | Some p \<Rightarrow> py_bind (py_bind (py_get p ''target_rps'' (PInt 100)) py_number) (\<lambda>rate.
         case PyTokenBucket_new rate 0 now of
           None \<Rightarrow> Inl (ValueError ''TokenBucket: rate must be > 0'')
         | Some b \<Rightarrow> Inr (Some b)))"

text \<open>
  \<open>__init__\<close> with \<open>_setup_integrations\<close>, given the loaded configuration.
  A tracer with an endpoint differs in nothing but its configuration, which no operation reads.
\<close>

definition PyLoadTest_new :: "(PyVal \<Rightarrow> string) \<Rightarrow> (string \<Rightarrow> string option) \<Rightarrow> (string \<Rightarrow> string \<Rightarrow> py_exn + PyVal) \<Rightarrow> rat \<Rightarrow> rat \<Rightarrow> PyVal \<Rightarrow> py_exn + PyLoadTest" where
  "PyLoadTest_new str env post now now' config =
     py_bind (py_get config ''test_id'' (PStr ''unknown'')) (\<lambda>test_id.
     py_bind (py_get config ''target'' (PDict [])) (\<lambda>target.
     py_bind (py_bind (py_get target ''base_url'' (PStr [])) py_text) (\<lambda>base_url.
     py_bind (py_setup_auth str post now config) (\<lambda>auth.
     py_bind (py_get config ''observability'' (PDict [])) (\<lambda>obs.
     py_bind (py_get obs ''tracing'' (PDict [])) (\<lambda>tracing.
     py_bind (py_get tracing ''otlp_endpoint'' PNone) (\<lambda>_.
     py_bind (py_setup_bucket now' config) (\<lambda>bucket.
       Inr \<lparr>lt_config = config, lt_test_id = test_id, lt_target_url = py_expandvars env base_url,
            lt_metrics = PyMetricsCollector_new now, lt_auth = auth, lt_tracer = PyTracer_new, lt_token_bucket = bucket,
            lt_pool = \<lparr>pp_max_connections = 100, pp_pool = []\<rparr>\<rparr>))))))))"

section \<open>The workers\<close>

definition py_target :: "string \<Rightarrow> py_exn + string \<times> string" where
  "py_target url =
     py_bind (py_netloc url) (\<lambda>netloc. let (host, p) = py_hostinfo netloc in
     py_bind (py_port p) (\<lambda>port. Inr (if host \<noteq> [] then host else ''localhost'',
       nat_dec (case port of None \<Rightarrow> 80 | Some n \<Rightarrow> if n \<noteq> 0 then n else 80))))"

fun py_iter :: "PyVal \<Rightarrow> py_exn + PyVal list" where
  "py_iter (PList xs) = Inr xs"
| "py_iter (PStr s) = Inr (map (\<lambda>c. PStr [c]) s)"
| "py_iter (PDict d) = Inr (map (PStr \<circ> fst) d)"
| "py_iter _ = Inl TypeError"

text \<open>The steps of the scenarios in turn; a scenario that is not a dict ends them with its exception.\<close>

fun py_steps :: "PyVal list \<Rightarrow> (py_exn + PyVal) list" where
  "py_steps [] = []"
| "py_steps (sc # scs) = (case py_bind (py_get sc ''steps'' (PList [])) py_iter of Inl e \<Rightarrow> [Inl e] | Inr xs \<Rightarrow> map Inr xs @ py_steps scs)"

definition py_step_request :: "string \<Rightarrow> string \<Rightarrow> PyVal \<Rightarrow> py_exn + PyHttpRequest" where
  "py_step_request host port st =
     py_bind (py_get st ''http'' (PDict [])) (\<lambda>http_step.
     py_bind (py_get http_step ''method'' (PStr ''GET'')) (\<lambda>meth.
     py_bind (py_get http_step ''path'' (PStr ''/'')) (\<lambda>path.
     py_bind (py_get http_step ''headers'' (PDict [])) (\<lambda>headers.
     py_bind (py_get http_step ''body'' (PStr [])) (\<lambda>body.
       Inr \<lparr>hr_method = meth, hr_target = path, hr_body = body, hr_headers = headers, hr_host = host, hr_port = port\<rparr>)))))"

text \<open>
  Where a thread is in its loop, with the steps after the current one; \<open>At []\<close> has finished. A thread that ends with an exception keeps
  the number of steps it has not completed.
\<close>

datatype Py_Thread =
    At "(py_exn + PyVal) list"
  | Granted PyHttpRequest "(py_exn + PyVal) list"
  | Holding PyHttpClient PyHttpRequest "(py_exn + PyVal) list"
  | Answered PyHttpClient PyResponse "(py_exn + PyVal) list"
  | Returned PyResponse "(py_exn + PyVal) list"
  | Dead py_exn nat

inductive sdk_step :: "string \<Rightarrow> string \<Rightarrow> PyLoadTest \<times> Py_Thread list \<Rightarrow> PyLoadTest \<times> Py_Thread list \<Rightarrow> bool" for host port where
  Bad_scenario: "i < length ts \<Longrightarrow> ts ! i = At (Inl e # r) \<Longrightarrow> sdk_step host port (lt, ts) (lt, ts[i := Dead e (Suc (length r))])"
| Bad_step: "i < length ts \<Longrightarrow> ts ! i = At (Inr st # r) \<Longrightarrow> py_step_request host port st = Inl e
    \<Longrightarrow> sdk_step host port (lt, ts) (lt, ts[i := Dead e (Suc (length r))])"
| Sleep: "i < length ts \<Longrightarrow> ts ! i = At (Inr st # r) \<Longrightarrow> py_step_request host port st = Inr req
    \<Longrightarrow> lt_token_bucket lt = Some b \<Longrightarrow> py_consume_pass now b = (Inl w, b')
    \<Longrightarrow> sdk_step host port (lt, ts) (lt\<lparr>lt_token_bucket := Some b'\<rparr>, ts)"
| Consume: "i < length ts \<Longrightarrow> ts ! i = At (Inr st # r) \<Longrightarrow> py_step_request host port st = Inr req
    \<Longrightarrow> lt_token_bucket lt = Some b \<Longrightarrow> py_consume_pass now b = (Inr (), b')
    \<Longrightarrow> sdk_step host port (lt, ts) (lt\<lparr>lt_token_bucket := Some b'\<rparr>, ts[i := Granted req r])"
| Unlimited: "i < length ts \<Longrightarrow> ts ! i = At (Inr st # r) \<Longrightarrow> py_step_request host port st = Inr req
    \<Longrightarrow> lt_token_bucket lt = None \<Longrightarrow> sdk_step host port (lt, ts) (lt, ts[i := Granted req r])"
| Acquire: "i < length ts \<Longrightarrow> ts ! i = Granted req r \<Longrightarrow> py_acquire host port (lt_pool lt) = (Some c, pool)
    \<Longrightarrow> sdk_step host port (lt, ts) (lt\<lparr>lt_pool := pool\<rparr>, ts[i := Holding c req r])"
| Skip: "i < length ts \<Longrightarrow> ts ! i = Granted req r \<Longrightarrow> py_acquire host port (lt_pool lt) = (None, pool)
    \<Longrightarrow> sdk_step host port (lt, ts) (lt\<lparr>lt_pool := pool\<rparr>, ts[i := At r])"
| Request: "i < length ts \<Longrightarrow> ts ! i = Holding c req r \<Longrightarrow> py_request str urlopen t0 t1 req = Inr resp
    \<Longrightarrow> sdk_step host port (lt, ts) (lt, ts[i := Answered c resp r])"
| Request_raises: "i < length ts \<Longrightarrow> ts ! i = Holding c req r \<Longrightarrow> py_request str urlopen t0 t1 req = Inl e
    \<Longrightarrow> sdk_step host port (lt, ts) (lt, ts[i := Dead e (Suc (length r))])"
| Release: "i < length ts \<Longrightarrow> ts ! i = Answered c resp r
    \<Longrightarrow> sdk_step host port (lt, ts) (lt\<lparr>lt_pool := py_release c host port (lt_pool lt)\<rparr>, ts[i := Returned resp r])"
| Record: "i < length ts \<Longrightarrow> ts ! i = Returned resp r
    \<Longrightarrow> sdk_step host port (lt, ts)
          (lt\<lparr>lt_metrics := py_record_request (pr_status_code resp) (pr_latency_us resp) 0 0 (lt_metrics lt)\<rparr>, ts[i := At r])"

text \<open>\<open>run\<close> up to the start of its threads. A base URL that cannot be taken apart ends every thread.\<close>

fun py_range :: "PyVal \<Rightarrow> py_exn + nat" where
  "py_range (PInt n) = Inr (nat n)"
| "py_range (PBool b) = Inr (if b then 1 else 0)"
| "py_range _ = Inl TypeError"

definition py_users :: "PyVal \<Rightarrow> py_exn + PyVal" where
  "py_users config = py_bind (py_bind (py_get config ''load_profile'' (PList [])) py_first) (\<lambda>profile.
     case profile of None \<Rightarrow> Inr (PInt 10) | Some p \<Rightarrow> py_get p ''concurrent_users'' (PInt 10))"

definition py_run_start :: "int \<Rightarrow> int \<Rightarrow> string \<Rightarrow> string \<Rightarrow> PyLoadTest \<Rightarrow> py_exn + (PyLoadTest \<times> Py_Thread list) \<times> string \<times> string" where
  "py_run_start now now' u u' lt =
     (let lt = lt\<lparr>lt_tracer := py_add_attribute ''test_id'' (lt_test_id lt) (py_start_span now now' u u' ''load_test'' (lt_tracer lt))\<rparr>
      in py_bind (py_users (lt_config lt)) (\<lambda>users. py_bind (py_get (lt_config lt) ''scenarios'' (PList [])) (\<lambda>scs. py_bind (py_range users) (\<lambda>n.
           let items = (case py_iter scs of Inl e \<Rightarrow> [Inl e] | Inr xs \<Rightarrow> py_steps xs)
           in Inr (case py_target (lt_target_url lt) of
                Inl e \<Rightarrow> ((lt, replicate n (Dead e (length items))), [], [])
              | Inr (host, port) \<Rightarrow> ((lt, replicate n (At items)), host, port))))))"

definition py_run_end :: "int \<Rightarrow> PyLoadTest \<Rightarrow> PyLoadTest" where
  "py_run_end now lt = lt\<lparr>lt_tracer := py_end_span now (lt_tracer lt)\<rparr>"

section \<open>The service level check\<close>

text \<open>A limit such as \<open>< 0.1%\<close> without the texts \<open>subs\<close>; what is no number leaves the default.\<close>

fun py_limit :: "string list \<Rightarrow> rat \<Rightarrow> PyVal \<Rightarrow> py_exn + xdouble" where
  "py_limit subs dflt (PStr s) = Inr (if CHR ''<'' \<in> set s then
     (case py_float (py_strip (fold (\<lambda>sub s. py_remove sub s 0) subs s)) of None \<Rightarrow> Fin dflt | Some x \<Rightarrow> x) else Fin dflt)"
| "py_limit subs dflt (PList xs) = (if PStr ''<'' \<in> set xs then Inl AttributeError else Inr (Fin dflt))"
| "py_limit subs dflt (PDict d) = (if ''<'' \<in> fst ` set d then Inl AttributeError else Inr (Fin dflt))"
| "py_limit subs dflt _ = Inl TypeError"

definition py_validate_sla :: "PyLoadTest \<Rightarrow> py_exn + bool" where
  "py_validate_sla lt =
     py_bind (py_get (lt_config lt) ''sla'' (PDict [])) (\<lambda>s.
     py_bind (py_bind (py_get s ''error_rate'' (PStr ''< 0.1%'')) (py_limit [''<'', ''%''] (rnd (1 / 10)))) (\<lambda>max_err.
     py_bind (py_bind (py_get s ''p99_latency'' (PStr ''< 500ms'')) (py_limit [''<'', ''ms''] 500)) (\<lambda>max_p99_ms.
       let current_p99 = rnd (of_int (p99_latency_us (lt_metrics lt)) / 1000)
       in Inr (\<not> exceeds (py_error_rate (lt_metrics lt)) max_err \<and> \<not> exceeds current_p99 max_p99_ms))))"

section \<open>Facts\<close>

fun pending_steps :: "Py_Thread \<Rightarrow> int" where
  "pending_steps (At r) = int (length r)"
| "pending_steps (Granted _ r) = int (length r) + 1"
| "pending_steps (Holding _ _ r) = int (length r) + 1"
| "pending_steps (Answered _ _ r) = int (length r) + 1"
| "pending_steps (Returned _ r) = int (length r) + 1"
| "pending_steps (Dead _ n) = int n"

text \<open>The steps of a thread that are still to come, and those it will never send because it ended with an exception.\<close>

definition to_come :: "Py_Thread \<Rightarrow> int" where
  "to_come t = (case t of Dead _ _ \<Rightarrow> 0 | _ \<Rightarrow> pending_steps t)"

definition abandoned :: "Py_Thread \<Rightarrow> int" where
  "abandoned t = (case t of Dead _ n \<Rightarrow> int n | _ \<Rightarrow> 0)"

lemma pending_split: "sum_list (map pending_steps ts) = sum_list (map to_come ts) + sum_list (map abandoned ts)"
proof -
  have "pending_steps t = to_come t + abandoned t" for t by (cases t) (simp_all add: to_come_def abandoned_def)
  then show ?thesis by (induction ts) simp_all
qed

definition outstanding :: "PyLoadTest \<times> Py_Thread list \<Rightarrow> int" where
  "outstanding s = pm_total_requests (lt_metrics (fst s)) + sum_list (map pending_steps (snd s))"

lemma pending_update: "i < length ts \<Longrightarrow> pending_steps y = pending_steps (ts ! i) + k
    \<Longrightarrow> sum_list (map pending_steps (ts[i := y])) = sum_list (map pending_steps ts) + k"
  by (rule sum_list_update_add)

lemma py_acquire_some: "py_acquire host port p \<noteq> (None, q)"
  by (simp add: py_acquire_def Let_def)

lemma sdk_step_outstanding: "sdk_step host port s s' \<Longrightarrow> outstanding s' = outstanding s"
proof (induction rule: sdk_step.induct)
  case (Skip i ts req r lt pool)
  then show ?case using py_acquire_some by blast
next
  case (Record i ts resp r lt)
  then show ?case using pending_update [of i ts "At r" "- 1"] by (simp add: outstanding_def py_record_request_def Let_def)
qed (simp_all add: outstanding_def pending_update [where k = 0])

lemma sdk_steps_outstanding: "(sdk_step host port)\<^sup>*\<^sup>* s s' \<Longrightarrow> outstanding s' = outstanding s"
  by (induction rule: rtranclp_induct) (simp_all add: sdk_step_outstanding)

lemma sdk_step_threads: "sdk_step host port s s' \<Longrightarrow> length (snd s') = length (snd s)"
  by (induction rule: sdk_step.induct) simp_all

lemma sdk_steps_threads: "(sdk_step host port)\<^sup>*\<^sup>* s s' \<Longrightarrow> length (snd s') = length (snd s)"
  by (induction rule: rtranclp_induct) (simp_all add: sdk_step_threads)

lemma run_start_outstanding:
  assumes "py_run_start now now' u u' lt = Inr (s, host, port)"
    and "py_users (lt_config lt) = Inr (PInt n)" "py_get (lt_config lt) ''scenarios'' (PList []) = Inr (PList scs)"
  shows "length (snd s) = nat n" "outstanding s = pm_total_requests (lt_metrics lt) + int (nat n * length (py_steps scs))"
  using assms by (auto simp: py_run_start_def Let_def outstanding_def sum_list_replicate split: sum.splits)

text \<open>A thread whose next step can be sent and is answered takes it, and one whose request raises ends there.\<close>

lemma thread_sends:
  assumes "i < length ts" "ts ! i = At (Inr st # r)" "py_step_request host port st = Inr req" "lt_token_bucket lt = None"
  shows "\<exists>lt' c. (sdk_step host port)\<^sup>*\<^sup>* (lt, ts) (lt', ts[i := Holding c req r]) \<and> lt_token_bucket lt' = None"
proof -
  obtain c pool where a: "py_acquire host port (lt_pool lt) = (Some c, pool)"
    using py_acquire_some by (cases "py_acquire host port (lt_pool lt)"; cases "fst (py_acquire host port (lt_pool lt))") auto
  have "sdk_step host port (lt, ts) (lt, ts[i := Granted req r])" using assms by (rule sdk_step.Unlimited)
  moreover have "sdk_step host port (lt, ts[i := Granted req r]) (lt\<lparr>lt_pool := pool\<rparr>, ts[i := Granted req r, i := Holding c req r])"
    using assms(1) a by (intro sdk_step.Acquire) simp_all
  ultimately have "(sdk_step host port)\<^sup>*\<^sup>* (lt, ts) (lt\<lparr>lt_pool := pool\<rparr>, ts[i := Holding c req r])" by (simp add: rtranclp.rtrancl_into_rtrancl)
  then show ?thesis using assms(4) by (intro exI [of _ "lt\<lparr>lt_pool := pool\<rparr>"] exI [of _ c]) simp
qed

lemma thread_serves:
  assumes "i < length ts" "ts ! i = At (Inr st # r)" "py_step_request host port st = Inr req" "lt_token_bucket lt = None"
    and "py_request str urlopen t0 t1 req = Inr resp"
  shows "\<exists>lt'. (sdk_step host port)\<^sup>*\<^sup>* (lt, ts) (lt', ts[i := At r]) \<and> lt_token_bucket lt' = None"
proof -
  from thread_sends [OF assms(1-4)] obtain l1 c
    where 1: "(sdk_step host port)\<^sup>*\<^sup>* (lt, ts) (l1, ts[i := Holding c req r])" "lt_token_bucket l1 = None" by blast
  let ?l2 = "l1\<lparr>lt_pool := py_release c host port (lt_pool l1)\<rparr>"
  have "sdk_step host port (l1, ts[i := Holding c req r]) (l1, ts[i := Holding c req r, i := Answered c resp r])"
    using assms(1,5) by (intro sdk_step.Request) simp_all
  moreover have "sdk_step host port (l1, ts[i := Answered c resp r]) (?l2, ts[i := Answered c resp r, i := Returned resp r])"
    using assms(1) by (intro sdk_step.Release) simp_all
  moreover have "sdk_step host port (?l2, ts[i := Returned resp r])
      (?l2\<lparr>lt_metrics := py_record_request (pr_status_code resp) (pr_latency_us resp) 0 0 (lt_metrics ?l2)\<rparr>, ts[i := Returned resp r, i := At r])"
    using assms(1) by (intro sdk_step.Record) simp_all
  ultimately show ?thesis using 1
    by (intro exI [of _ "?l2\<lparr>lt_metrics := py_record_request (pr_status_code resp) (pr_latency_us resp) 0 0 (lt_metrics ?l2)\<rparr>"])
      (auto intro!: rtranclp.rtrancl_into_rtrancl [of "sdk_step host port"])
qed

lemma thread_dies:
  assumes "i < length ts" "ts ! i = At (Inr st # r)" "py_step_request host port st = Inr req" "lt_token_bucket lt = None"
    and "py_request str urlopen t0 t1 req = Inl e"
  shows "\<exists>lt'. (sdk_step host port)\<^sup>*\<^sup>* (lt, ts) (lt', ts[i := Dead e (Suc (length r))]) \<and> lt_token_bucket lt' = None"
proof -
  from thread_sends [OF assms(1-4)] obtain l1 c
    where 1: "(sdk_step host port)\<^sup>*\<^sup>* (lt, ts) (l1, ts[i := Holding c req r])" "lt_token_bucket l1 = None" by blast
  have "sdk_step host port (l1, ts[i := Holding c req r]) (l1, ts[i := Holding c req r, i := Dead e (Suc (length r))])"
    using assms(1,5) by (intro sdk_step.Request_raises) simp_all
  with 1 show ?thesis by (intro exI [of _ l1]) (auto intro: rtranclp.rtrancl_into_rtrancl)
qed

lemma ms_limit_exact:
  assumes "0 \<le> l" "l < 2 ^ 42"
  shows "rnd (of_int p / 1000) > (of_int l :: rat) \<longleftrightarrow> p > l * 1000"
proof
  assume "p > l * 1000"
  then have "l * 1000 + 1 \<le> p" by simp
  then have "(of_int (l * 1000 + 1) :: rat) \<le> of_int p" by (simp only: of_int_le_iff)
  then have "(of_int (l * 1024 + 1) :: rat) * 2 powi (- 10) \<le> of_int p / 1000" by (simp add: power_int_minus field_simps)
  then have "of_int (l * 1024 + 1) * 2 powi (- 10) \<le> rnd (of_int p / 1000)"
    by (rule ieee.ge_scaled) (use assms in auto)
  then show "rnd (of_int p / 1000) > (of_int l :: rat)" by (rule less_le_trans [rotated]) (simp add: power_int_minus)
next
  assume "rnd (of_int p / 1000) > (of_int l :: rat)"
  moreover have "rnd (of_int p / 1000) \<le> of_int l" if "p \<le> l * 1000"
  proof (rule ieee.le_int)
    have "(of_int p :: rat) \<le> of_int (l * 1000)" using that by (simp only: of_int_le_iff)
    then show "of_int p / 1000 \<le> (of_int l :: rat)" by simp
    show "\<bar>l\<bar> < 2 ^ 53" using assms by simp
  qed
  ultimately show "p > l * 1000" by force
qed

lemma py_sorted_at_mem: "l \<noteq> [] \<Longrightarrow> py_sorted_at q l \<in> set l"
proof -
  assume "l \<noteq> []"
  moreover from this have "min k (length (sort l) - 1) < length (sort l)" for k by (cases l) auto
  ultimately show ?thesis using nth_mem [of _ "sort l"] by (simp add: py_sorted_at_def Let_def del: length_sort)
qed

definition host_char :: "char \<Rightarrow> bool" where
  "host_char c \<longleftrightarrow> isalnum c \<or> c = CHR ''.'' \<or> c = CHR ''-''"

lemma host_char_plain: "host_char c \<Longrightarrow> c \<notin> set ''/?#@[]:%'' \<and> c \<noteq> CHR 0x09 \<and> c \<noteq> CHR 0x0A \<and> c \<noteq> CHR 0x0D"
proof -
  have "\<not> host_char d" if "d \<in> set ''/?#@[]:%'' \<or> d = CHR 0x09 \<or> d = CHR 0x0A \<or> d = CHR 0x0D" for d
    using that by (auto simp: host_char_def isalnum_def isalpha_def isupper_def islower_def isdigit_def)
  then show "host_char c \<Longrightarrow> c \<notin> set ''/?#@[]:%'' \<and> c \<noteq> CHR 0x09 \<and> c \<noteq> CHR 0x0A \<and> c \<noteq> CHR 0x0D" by blast
qed

lemma partition_absent: "c \<notin> set s \<Longrightarrow> py_partition c s = (s, False, [])"
proof -
  assume c: "c \<notin> set s"
  then have "takeWhile (\<lambda>x. x \<noteq> c) s = s" "dropWhile (\<lambda>x. x \<noteq> c) s = []" by (auto simp: takeWhile_eq_all_conv)
  with c show ?thesis unfolding py_partition_def by (simp only: drop_Nil)
qed

lemma hostinfo_plain: "list_all host_char h \<Longrightarrow> py_hostinfo h = (map tolower h, [])"
proof -
  assume h: "list_all host_char h"
  have a: "c \<notin> set h" if "c \<in> set ''/?#@[]:%''" for c using h host_char_plain that by (auto simp: list_all_iff)
  have "takeWhile (\<lambda>x. x \<noteq> CHR ''@'') (rev h) = rev h" using a [of "CHR ''@''"] by (auto simp: takeWhile_eq_all_conv)
  then have r: "py_rpartition_tail (CHR ''@'') h = h" unfolding py_rpartition_tail_def by (simp only: rev_rev_ident)
  have "CHR ''['' \<notin> set h" "CHR '':'' \<notin> set h" "CHR ''%'' \<notin> set h" using a by simp_all
  then show ?thesis by (simp add: py_hostinfo_def r partition_absent Let_def)
qed

lemma py_bind_InrE: "py_bind x f = Inr v \<Longrightarrow> (\<And>w. x = Inr w \<Longrightarrow> f w = Inr v \<Longrightarrow> P) \<Longrightarrow> P"
  by (cases x) simp_all

lemma netloc_https: "list_all host_char h \<Longrightarrow> rest = [] \<or> hd rest = CHR ''/'' \<Longrightarrow> py_netloc (''https://'' @ h @ rest) = Inr h"
proof -
  assume h: "list_all host_char h" and r: "rest = [] \<or> hd rest = CHR ''/''"
  let ?ok = "\<lambda>c. c \<noteq> CHR 0x09 \<and> c \<noteq> CHR 0x0A \<and> c \<noteq> CHR 0x0D" and ?in = "\<lambda>c. c \<noteq> CHR ''/'' \<and> c \<noteq> CHR ''?'' \<and> c \<noteq> CHR ''#''"
  have f: "filter ?ok h = h" using h host_char_plain by (auto simp: list_all_iff filter_id_conv)
  have t: "takeWhile ?in (h @ filter ?ok rest) = h"
  proof -
    have "takeWhile ?in (filter ?ok rest) = []" using r by (cases rest) auto
    moreover have "\<forall>c\<in>set h. ?in c" using h host_char_plain by (auto simp: list_all_iff)
    ultimately show ?thesis by (simp add: takeWhile_append2)
  qed
  have b: "CHR ''['' \<notin> set h" "CHR '']'' \<notin> set h" using h host_char_plain by (auto simp: list_all_iff)
  have sc: "list_all scheme_char ''https''" "isalpha (CHR ''h'')"
    by (simp_all add: scheme_char_def isalnum_def isalpha_def isupper_def islower_def)
  have d: "dropWhile (\<lambda>c. of_char c \<le> (32::nat)) (''https://'' @ h @ rest) = ''https://'' @ h @ rest" by simp
  have p: "py_partition (CHR '':'') (''https://'' @ h @ filter ?ok rest) = (''https'', True, ''//'' @ h @ filter ?ok rest)"
    by (simp add: py_partition_def)
  have fl: "filter ?ok (''https://'' @ h @ rest) = ''https://'' @ h @ filter ?ok rest" using f by simp
  show ?thesis unfolding py_netloc_def d fl Let_def p using sc t b by simp
qed

lemma target_https:
  "list_all host_char h \<Longrightarrow> rest = [] \<or> hd rest = CHR ''/'' \<Longrightarrow> h \<noteq> [] \<Longrightarrow> py_target (''https://'' @ h @ rest) = Inr (map tolower h, ''80'')"
proof -
  assume a: "list_all host_char h" "rest = [] \<or> hd rest = CHR ''/''" "h \<noteq> []"
  have "nat_dec 80 = ''80''" by (simp add: nat_dec.simps digit_char_def char_of_def bit_numeral_rec bit_Suc_0_iff)
  then show ?thesis
    using a(3) by (simp add: py_target_def netloc_https [OF a(1,2)] hostinfo_plain [OF a(1)] py_port_def del: append_Cons)
qed

section \<open>Properties\<close>

text \<open>
  C26: A load test of the Python package starts one thread for each of the \<open>concurrent_users\<close> of the first stage, and every thread takes every step of
  every scenario once. At every point of every interleaving the recorded requests, the steps still to come and the steps abandoned by
  threads that ended with an exception add up to users times steps, so that a run whose threads all finish has recorded exactly that
  many requests, whatever the durations and later stages of its load profile say.
\<close>

theorem sdk_run_counts:
  assumes "py_run_start now now' u u' lt = Inr (s0, host, port)" "pm_total_requests (lt_metrics lt) = 0"
    and "py_get (lt_config lt) ''load_profile'' (PList []) = Inr (PList (p # ps))" "py_get p ''concurrent_users'' (PInt 10) = Inr (PInt users)"
    and "py_get (lt_config lt) ''scenarios'' (PList []) = Inr (PList scs)" "(sdk_step host port)\<^sup>*\<^sup>* s0 s"
  shows "length (snd s) = nat users
    \<and> pm_total_requests (lt_metrics (fst s)) + sum_list (map to_come (snd s)) + sum_list (map abandoned (snd s))
        = int (nat users * length (py_steps scs))
    \<and> (list_all (\<lambda>t. t = At []) (snd s) \<longrightarrow> pm_total_requests (lt_metrics (fst s)) = int (nat users * length (py_steps scs)))"
proof -
  have us: "py_users (lt_config lt) = Inr (PInt users)" using assms(3,4) by (simp add: py_users_def)
  note start = run_start_outstanding [OF assms(1) us assms(5)]
  have "outstanding s = int (nat users * length (py_steps scs))"
    using start(2) assms(2) sdk_steps_outstanding [OF assms(6)] by simp
  moreover have "sum_list (map pending_steps ts) = 0" if "list_all (\<lambda>t. t = At []) ts" for ts
    using that by (induction ts) simp_all
  from this [of "snd s"] calculation show ?thesis
    using start(1) sdk_steps_threads [OF assms(6)] by (auto simp: outstanding_def pending_split)
qed

definition sample_config :: PyVal where
  "sample_config = PDict [(''load_profile'', PList [PDict [(''concurrent_users'', PInt 2)]]),
     (''scenarios'', PList [PDict [(''steps'', PList [PDict [], PDict []])]])]"

definition sample_test :: PyLoadTest where
  "sample_test = \<lparr>lt_config = sample_config, lt_test_id = PStr ''t'', lt_target_url = ''https://h'', lt_metrics = PyMetricsCollector_new 0,
     lt_auth = \<lparr>pa_config = AuthConfig_none, pa_current_token = PStr [], pa_token_expiry = 0\<rparr>, lt_tracer = PyTracer_new,
     lt_token_bucket = None, lt_pool = \<lparr>pp_max_connections = 100, pp_pool = []\<rparr>\<rparr>"

lemma sample_start:
  "\<exists>lt. py_run_start 0 1 ''a'' ''b'' sample_test = Inr ((lt, [At [Inr (PDict []), Inr (PDict [])], At [Inr (PDict []), Inr (PDict [])]]), ''h'', ''80'')
     \<and> lt_token_bucket lt = None"
proof -
  have "list_all host_char ''h''" by (simp add: host_char_def isalnum_def isalpha_def isupper_def islower_def)
  from target_https [OF this, of "[]"] have "py_target ''https://h'' = Inr (''h'', ''80'')" by (simp add: tolower_def isupper_def)
  then show ?thesis by (simp add: py_run_start_def sample_test_def sample_config_def py_users_def Let_def numeral_2_eq_2)
qed

text \<open>Two users and two steps: one user's first request raises, the other's two are answered.\<close>

theorem sdk_run_counts_witness:
  "\<exists>s0 s. py_run_start 0 1 ''a'' ''b'' sample_test = Inr (s0, ''h'', ''80'') \<and> (sdk_step ''h'' ''80'')\<^sup>*\<^sup>* s0 s
     \<and> sum_list (map to_come (snd s)) = 0 \<and> sum_list (map abandoned (snd s)) = 2 \<and> pm_total_requests (lt_metrics (fst s)) = 2"
proof -
  obtain lt where lt: "py_run_start 0 1 ''a'' ''b'' sample_test
      = Inr ((lt, [At [Inr (PDict []), Inr (PDict [])], At [Inr (PDict []), Inr (PDict [])]]), ''h'', ''80'')" "lt_token_bucket lt = None"
    using sample_start by blast
  let ?req = "\<lparr>hr_method = PStr ''GET'', hr_target = PStr ''/'', hr_body = PStr [], hr_headers = PDict [], hr_host = ''h'', hr_port = ''80''\<rparr>"
    and ?two = "[Inr (PDict []), Inr (PDict [])] :: (py_exn + PyVal) list"
  have req: "py_step_request ''h'' ''80'' (PDict []) = Inr ?req" by (simp add: py_step_request_def)
  obtain resp where good: "py_request (\<lambda>_. ''/'') (\<lambda>_. Opened 200 [] []) 0 0 ?req = Inr resp" by (simp add: py_request_def py_url_request_def)
  have bad: "py_request (\<lambda>_. ''/'') (\<lambda>_. Http_error 500 (Inl UnicodeError)) 0 0 ?req = Inl UnicodeError" by (simp add: py_request_def py_url_request_def)
  obtain l1 where 1: "(sdk_step ''h'' ''80'')\<^sup>*\<^sup>* (lt, [At ?two, At ?two]) (l1, [Dead UnicodeError 2, At ?two])" "lt_token_bucket l1 = None"
    using thread_dies [OF _ _ req lt(2) bad, of 0 "[At ?two, At ?two]"] by (auto simp: numeral_2_eq_2)
  obtain l2 where 2: "(sdk_step ''h'' ''80'')\<^sup>*\<^sup>* (l1, [Dead UnicodeError 2, At ?two]) (l2, [Dead UnicodeError 2, At [Inr (PDict [])]])" "lt_token_bucket l2 = None"
    using thread_serves [OF _ _ req 1(2) good, of 1 "[Dead UnicodeError 2, At ?two]"] by auto
  obtain l3 where 3: "(sdk_step ''h'' ''80'')\<^sup>*\<^sup>* (l2, [Dead UnicodeError 2, At [Inr (PDict [])]]) (l3, [Dead UnicodeError 2, At []])"
    using thread_serves [OF _ _ req 2(2) good, of 1 "[Dead UnicodeError 2, At [Inr (PDict [])]]"] by auto
  from 1(1) 2(1) 3 have run: "(sdk_step ''h'' ''80'')\<^sup>*\<^sup>* (lt, [At ?two, At ?two]) (l3, [Dead UnicodeError 2, At []])" by (meson rtranclp_trans)
  from sdk_run_counts [OF lt(1) _ _ _ _ run, of "PDict [(''concurrent_users'', PInt 2)]" "[]" 2 "[PDict [(''steps'', PList [PDict [], PDict []])]]"]
  have "pm_total_requests (lt_metrics l3) = 2"
    by (simp add: sample_test_def sample_config_def PyMetricsCollector_new_def to_come_def abandoned_def)
  then show ?thesis using lt(1) run by (fastforce simp: to_come_def abandoned_def)
qed

text \<open>
  For the same requests and the same limits the Python package and the core decide alike: the percentile is divided by 1000 in
  doubles in one and the limit multiplied by 1000 in 64-bit words in the other, and neither moves the boundary.
\<close>

theorem py_sla_agrees:
  assumes "lt_metrics lt = fold py_record obs (PyMetricsCollector_new t0)" "record_all mc_record obs (MetricsCollector_new now) = Some m"
    and "length obs \<le> 100000" "\<forall>ob\<in>set obs. 0 \<le> ob_latency ob \<and> ob_latency ob < 2 ^ 63" "0 \<le> l" "l < 2 ^ 42"
    and "py_get (lt_config lt) ''sla'' (PDict []) = Inr (PDict [(''error_rate'', PStr es), (''p99_latency'', PStr ps)])"
    and "py_limit [''<'', ''%''] (rnd (1 / 10)) (PStr es) = Inr (Fin r)" "py_limit [''<'', ''ms''] 500 (PStr ps) = Inr (Fin (of_int l))"
    and "max_error_rate (sla (en_config e)) = Fin r" "max_p99_latency (sla (en_config e)) = l"
  shows "py_validate_sla lt = Inr (check_sla e m)"
proof -
  note a = collectors_agree [OF assms(2-4), of t0, folded assms(1)]
  let ?p = "rm_p99_latency_us (snapshot m)"
  have p: "p99_latency_us (lt_metrics lt) = int (unat ?p)" and er: "py_error_rate (lt_metrics lt) = error_rate m" using a by auto
  have "unat ?p < 2 ^ 63"
  proof (cases "obs = []")
    case True
    have "p99_latency_us (lt_metrics lt) = 0" using True assms(1) by (simp add: p99_latency_us_def py_sorted_at_def PyMetricsCollector_new_def)
    then have "int (unat ?p) = 0" using p by (simp only:)
    then have "unat ?p = 0" by (simp only: of_nat_eq_0_iff)
    then show ?thesis by (rule ssubst) simp
  next
    case False
    have "pm_latencies (lt_metrics lt) = map ob_latency obs" using py_window_new [of obs t0] assms(1,3) by (simp add: py_window_def)
    then have "p99_latency_us (lt_metrics lt) \<in> set (map ob_latency obs)"
      using False py_sorted_at_mem [of "map ob_latency obs"] by (simp add: p99_latency_us_def)
    then have "int (unat ?p) < int (2 ^ 63)" using p assms(4) by auto
    then show ?thesis by (simp only: of_nat_less_iff)
  qed
  then have c: "check_sla e m \<longleftrightarrow> error_rate m \<le> r \<and> int (unat ?p) \<le> l * 1000"
    using assms(5,6,10,11) by (intro check_sla_iff) auto
  have "exceeds (rnd (of_int (int (unat ?p)) / 1000)) (Fin (of_int l)) \<longleftrightarrow> int (unat ?p) > l * 1000"
    unfolding exceeds_def using ms_limit_exact [OF assms(5,6), of "int (unat ?p)"] by simp
  then show ?thesis using assms(7-9) by (auto simp: py_validate_sla_def Let_def p er c exceeds_def not_less)
qed

lemma float_one: "py_float ''1'' = Some (Fin 1)"
  by (simp add: py_float_def py_strip_def sign_split_def py_isspace_def isspace_def py_decimal_def py_partition_def tolower_def isupper_def
      isdigit_def digits_val_def digit_val_def Let_def)

theorem py_sla_agrees_witness:
  "\<exists>m. record_all mc_record [\<lparr>ob_status = 200, ob_latency = 900, ob_sent = 0, ob_received = 0\<rparr>] (MetricsCollector_new 0) = Some m
     \<and> py_validate_sla (sample_test\<lparr>lt_config := PDict [(''sla'', PDict [(''error_rate'', PStr ''<1''), (''p99_latency'', PStr ''<1'')])],
           lt_metrics := fold py_record [\<lparr>ob_status = 200, ob_latency = 900, ob_sent = 0, ob_received = 0\<rparr>] (PyMetricsCollector_new 0)\<rparr>)
       = Inr (check_sla \<lparr>en_stopped = False, en_config_path = [], en_config = ScenarioConfig_default\<lparr>sla := \<lparr>max_error_rate = Fin 1, max_p99_latency = 1\<rparr>\<rparr>,
           en_last_error = [], en_bucket = \<lparr>tb_rate = 1, tb_burst = 1, tb_tokens = 1, tb_last_refill = 0\<rparr>, en_target_rps = 1,
           en_max_duration_ms = 0, en_worker_failures = 0\<rparr> m)"
proof -
  let ?obs = "[\<lparr>ob_status = 200, ob_latency = 900, ob_sent = 0, ob_received = 0\<rparr>]"
  have "mc_inv (length ?obs) (MetricsCollector_new 0)" by (rule mc_new_inv) simp
  then obtain m where m: "record_all mc_record ?obs (MetricsCollector_new 0) = Some m"
    using mc.record_all_ok [of ?obs 0 "MetricsCollector_new 0"] by auto
  have st: "py_strip ''1'' = ''1''" by (simp add: py_strip_def py_isspace_def isspace_def)
  have l: "py_limit [''<'', ''%''] (rnd (1 / 10)) (PStr ''<1'') = Inr (Fin 1)" "py_limit [''<'', ''ms''] 500 (PStr ''<1'') = Inr (Fin (of_int 1))"
    by (simp_all add: st float_one)
  show ?thesis by (intro exI [of _ m] conjI m py_sla_agrees [OF _ m _ _ _ _ _ l]) simp_all
qed

text \<open>
  A base URL with \<open>https\<close> and no port is tested over plain HTTP: the worker takes port 80 for it, and the client uses TLS for port 443
  only, so every request goes in the clear to port 80 of the host.
\<close>

theorem sdk_https_downgraded:
  assumes "list_all host_char h" "h \<noteq> []" "rest = [] \<or> hd rest = CHR ''/''"
  shows "py_target (''https://'' @ h @ rest) = Inr (map tolower h, ''80'')
     \<and> (py_step_request (map tolower h) ''80'' st = Inr req
          \<longrightarrow> py_url_request str req = Inr r \<longrightarrow> uq_url r = ''http://'' @ map tolower h @ '':80'' @ str (hr_target req))"
proof -
  have t: "py_target (''https://'' @ h @ rest) = Inr (map tolower h, ''80'')" using assms by (intro target_https)
  have "hr_host req = map tolower h \<and> hr_port req = ''80''" if "py_step_request (map tolower h) ''80'' st = Inr req"
    using that unfolding py_step_request_def by (auto elim!: py_bind_InrE)
  moreover have "uq_url r = ''http://'' @ hr_host req @ '':80'' @ str (hr_target req)" if "py_url_request str req = Inr r" "hr_port req = ''80''"
    using that unfolding py_url_request_def Let_def by (auto elim!: py_bind_InrE split: PyVal.splits)
  ultimately show ?thesis using t by simp
qed

theorem sdk_https_downgraded_witness: "py_target ''https://shop.example.com/api'' = Inr (''shop.example.com'', ''80'')"
proof -
  have "list_all host_char ''shop.example.com''"
    by (simp add: host_char_def isalnum_def isalpha_def isupper_def islower_def)
  from sdk_https_downgraded [OF this, of "''/api''" PNone] show ?thesis by (simp add: tolower_def isupper_def)
qed

text \<open>
  The Python package reads a latency limit in milliseconds only: of a limit in seconds it keeps nothing and tests against its default of
  500 ms, where the core takes the 2000 ms that are meant.
\<close>

theorem sdk_seconds_ignored: "py_limit [''<'', ''ms''] 500 (PStr ''< 2s'') = Inr (Fin 500) \<and> parse_latency ''< 2s'' = Some 2000"
proof
  have "py_strip '' 2s'' = ''2s''" by (simp add: py_strip_def py_isspace_def isspace_def)
  moreover have "py_float ''2s'' = None"
    by (simp add: py_float_def py_strip_def sign_split_def py_isspace_def isspace_def py_decimal_def py_partition_def tolower_def isupper_def
        isdigit_def Let_def)
  ultimately show "py_limit [''<'', ''ms''] 500 (PStr ''< 2s'') = Inr (Fin 500)" by simp
  have "stod ''2'' = Inr (Fin 2)" using stod_digits [of "''2''" "[]"] round_checked_nat [of 2]
    by (simp add: number_end_def isdigit_def digits_val_def digit_val_def)
  then show "parse_latency ''< 2s'' = Some 2000"
    by (simp add: parse_latency_def find_digit_def scan_def isdigit_def Let_def scale_to_ms_def fmul_def trunc_int_def)
qed

text \<open>
  An error page that is not UTF-8 ends the thread that received it: the exception leaves the request, nothing is recorded for it, the
  client does not return to the pool, and the steps the thread had left are never sent.
\<close>

theorem sdk_error_page_fatal:
  assumes "i < length ts" "ts ! i = Holding c req r" "py_url_request str req = Inr q" "urlopen q = Http_error code (Inl UnicodeError)"
  shows "py_request str urlopen t0 t1 req = Inl UnicodeError \<and> sdk_step host port (lt, ts) (lt, ts[i := Dead UnicodeError (Suc (length r))])"
proof -
  have "py_request str urlopen t0 t1 req = Inl UnicodeError" using assms(3,4) by (simp add: py_request_def)
  with sdk_step.Request_raises [OF assms(1,2) this] show ?thesis by blast
qed

theorem sdk_error_page_fatal_witness:
  "sdk_step ''h'' ''80'' (sample_test, [Holding PyHttpClient_new
      \<lparr>hr_method = PStr ''GET'', hr_target = PStr ''/'', hr_body = PStr [], hr_headers = PDict [], hr_host = ''h'', hr_port = ''80''\<rparr> [Inr PNone]])
    (sample_test, [Dead UnicodeError 2])"
  using sdk_error_page_fatal [of 0 "[Holding PyHttpClient_new
      \<lparr>hr_method = PStr ''GET'', hr_target = PStr ''/'', hr_body = PStr [], hr_headers = PDict [], hr_host = ''h'', hr_port = ''80''\<rparr> [Inr PNone]]" PyHttpClient_new _
      "[Inr PNone]" "\<lambda>_. ''/''" _ "\<lambda>_. Http_error 500 (Inl UnicodeError)" 500 0 0 "''h''" "''80''" sample_test]
  by (simp add: numeral_2_eq_2 py_url_request_def)

end
