(* ===== verification/Spec2Isabelle.thy ===== *)
theory Spec2Isabelle
  imports Volley_Double Token_Bucket Ring_Protocol Sharded_Collector Platform_Server Url Redact Engine_Run Auth_Provider Http_Client Otlp_Tracer Vault_Client Protocol_Contract Prometheus Io_Pool Engine_Worker Load_Workers Tls_Term Py_Run
begin

text \<open>
  Verification of volley, a load generator written in C++ with a control plane, two stand-alone workers and a Python package.

  \<^bold>\<open>The program.\<close> The command line tool (\<open>tools/main.cpp\<close>) reads its arguments and a scenario file
  (\<open>core/scenario/yaml_parser.cpp\<close>) and runs the scenario engine (\<open>core/scenario/engine.cpp\<close>) stage by stage. The workers of a stage take a
  token from the rate limiter (\<open>core/token_bucket.cpp\<close>), choose a step by weight, ask the authentication provider
  (\<open>core/security/auth_provider.cpp\<close>) for a header, take a protocol client from the registry or a pool (\<open>core/net/\<close>) and hand it the request. The
  callback checks the assertions on the response and records it in a collector (\<open>core/metrics/\<close>), which exporters publish. After the run the
  tool compares a snapshot with the service level limits and turns the result into its exit code. Vault (\<open>core/vault/\<close>) and OpenTelemetry
  (\<open>core/otel/\<close>) are clients of external services. The control plane (\<open>core/platform/\<close>) keeps projects, scenarios, runs and policies behind a
  REST interface. The Python package (\<open>python/volley/core.py\<close>) has its own implementation of the main classes.

  \<^bold>\<open>Conventions.\<close> Classes and structs are records, enumerations are datatypes, and methods take the object and return it changed. Counters of 64, 32
  and 16 bits are words and wrap as in C++. A \<open>double\<close> is the rational number it denotes, and every operation on it rounds as binary64 does
  (\<open>rnd\<close>); infinities and NaN are outside this model and the conversions that would leave it give \<open>None\<close>, as do conversions C++
  leaves undefined. Times are nanoseconds as integers. An exception is the left value of a sum, a failed \<open>Result\<close> its \<open>err\<close>. Readings of clocks and
  random generators, outcomes of network operations and the libraries that are not in the repository (JSON, YAML, TLS, sockets) are arguments.
  Code that runs in several threads is a step relation whose steps are the critical sections or the atomic operations of the source, in any order.

  \<^bold>\<open>Foundations.\<close>
  \<^item> \<open>Volley_Prelude\<close>: machine types, shared constants (\<open>core/constants.hpp\<close>) and the lemmas on lists, options and words.
  \<^item> \<open>Volley_Double\<close>: rounding to binary64. The locale \<open>fp_rounding\<close> has the laws of a rounding (monotone, exact on small integers and scaled integers,
    relative error); its interpretation \<open>ieee\<close> proves them of \<open>rnd\<close>, and all bounds on floating point code come from it.
  \<^item> \<open>Volley_Error\<close>: \<open>error.hpp\<close>, \<open>error.cpp\<close> and \<open>result.hpp\<close>. Codes have the numbers of the source, and the message of an integer is that
    of its low eight bits, as in the switch.
  \<^item> \<open>Volley_String\<close>, \<open>Cpp_Parse\<close>: the parts of \<open>std::string\<close> and of the numeric conversions that the code calls.

  \<^bold>\<open>Load and metrics.\<close>
  \<^item> \<open>Token_Bucket\<close>: every method of the bucket as critical sections that threads interleave. The tokens stay within the burst in
    floating point (C12), the grants of a sequence of calls are limited by rate and time up to an explicit rounding error (C13), and \<open>consume\<close>, a loop, returns on a
    wake-up by which enough time has passed (C14).
  \<^item> \<open>Io_Pool\<close>: the pool of \<open>io_context\<close>s and its round robin.
  \<^item> \<open>Metrics_Contract\<close>: the locale \<open>request_recorder\<close>, the contract of a collector: each recording advances the counters by one observation. It
    is interpreted on the collector of the core, the sharded one, the Python one and the callbacks of engine and command line.
  \<^item> \<open>Ring_Collector\<close>: \<open>MetricsCollector\<close> with its sample ring, snapshot, percentiles and error rate (C3, C4, C5). The locale
    \<open>quantile_impl\<close> states what \<open>std::nth_element\<close> promises.
  \<^item> \<open>Ring_Protocol\<close>: the lock-free push as atomic steps of any number of producers. Cells are owned exclusively (C1), and a ring at rest refines the
    sequential one (C2). The positions are bounded by \<open>2 ^ 63\<close>, half the range of the counter, which a run does not reach.
  \<^item> \<open>Sharded_Collector\<close>: shards, threads and the sample buffer (C6, C7); the static shard counter and the thread's shard are arguments of the
    constructor, so that collectors made later in a process are covered.
  \<^item> \<open>Prometheus\<close>: both exporters and the exposition text.

  \<^bold>\<open>Network.\<close>
  \<^item> \<open>Net_Protocol\<close>: requests, responses and the registry of clients by protocol name.
  \<^item> \<open>Url\<close>, \<open>Redact\<close>: encoding and parsing of URLs (C37), masking of secrets in text. Redaction is specified on
    texts printed from literal parts and secrets (C38). The masking loop is a \<open>function\<close> with a termination proof.
  \<^item> \<open>Connection_Pool\<close>: acquire, release, cleanup and statistics, with the callers as steps (C15). The early exit of cleanup equals a full scan (C33).
  \<^item> \<open>Http_Client\<close>, \<open>Stream_Clients\<close>: requests over fresh and cached connections (C16), raw TCP, WebSocket, connections and connectors.
  \<^item> \<open>Protocol_Contract\<close>: the locale \<open>protocol_client\<close>, what the engine relies on in a client, and \<open>stream_client\<close>, which extends it, interpreted
    on the three clients. The two callbacks of the program count alike because of it (C18).
  \<^item> \<open>Tls_Term\<close>: the TLS context of a client (C36), the global TLS settings of the registry and the colours of the terminal.

  \<^bold>\<open>Scenarios.\<close>
  \<^item> \<open>Scenario_Config\<close>: the configuration, its defaults and its validation (C28).
  \<^item> \<open>Yaml_Parser\<close>: substitution of variables (C25) and the filling of the configuration from a document.
  \<^item> \<open>Scenario_Engine\<close>: assertions, weighted choice (C21), requests, the counting of responses (C10) and the service level check.
  \<^item> \<open>Engine_Worker\<close>: one pass of a worker, from the token to the request (C20).
  \<^item> \<open>Engine_Run\<close>: \<open>run\<close> with its stages, deadlines and failed workers. Stages are aborted as intended (C17) and attempts are paced (C23), up to the
    one attempt a stop lets through early;
    two behaviours the code does not intend are proved as well (C39, C40).

  \<^bold>\<open>External services.\<close>
  \<^item> \<open>Auth_Provider\<close>: tokens and headers (C19), with and without a token endpoint. \<open>Vault_Client\<close>: secrets and retries (C29).
  \<^item> \<open>Otlp_Tracer\<close>: spans, the bounded queue and the exporter thread (C27), whose loop ends after the stop,
    with the whole queue handed out or with an exception of the JSON library (C31).

  \<^bold>\<open>Control plane.\<close>
  \<^item> \<open>Platform_Repository\<close>: the data and every operation of the repository. No orphans and unique ids after any sequence of operations (C8).
  \<^item> \<open>Platform_Policy\<close>: the evaluator over the two lookups it needs. The locale \<open>result_store\<close> has what an evaluation relies on after a run
    is finished; it is interpreted on the repository.
  \<^item> \<open>Platform_Server\<close>: routing, handlers and the accept loop. What a request changes and answers is specified by verb, path and document (C9).

  \<^bold>\<open>Programs.\<close>
  \<^item> \<open>Cli_Args\<close>, \<open>Cli_Templates\<close>, \<open>Cli_Main\<close>: arguments (C35), templates, modes, report and exit codes (C11, C30).
  \<^item> \<open>Load_Workers\<close>: the HTTP worker as a step relation and the gRPC worker. What they count is wrong in the ways C32 and C34 state.
  \<^item> \<open>Py_Metrics\<close>, \<open>Py_Clients\<close>, \<open>Py_Run\<close>: the Python package. Its collector agrees with that of the core (C22), its bucket simulates the one of the
    core (C24), and its load test records every step of every user under every interleaving, those of dead
    threads apart (C26).

  \<^bold>\<open>Bounds.\<close> Loops are structural recursion, or \<open>function\<close> with a measure. The loop of the ring's push is a \<open>partial_function\<close>; that it
  returns is part of C3. A loop that waits for time or for other threads runs over
  the list of its wake-ups or passes, and that it ends is a theorem of its own (C14, C31). Hypotheses of the form \<open>x < 2 ^ 63\<close> keep a signed
  64-bit value of the source in range; those on the rounding error keep integers below \<open>2 ^ 53\<close>, where doubles are exact.

  \<^bold>\<open>Not modelled.\<close>
  \<^item> Memory orders weaker than sequential consistency, and \<open>reset\<close> of a collector while producers are inside the push.
  \<^item> Opening, binding and closing of sockets, starting and joining of threads in the servers, and log output: effects without a result the code depends on.
  \<^item> What is printed on the terminal: help texts, progress and summaries of the command line, of the workers and of the Python package.
  \<^item> The waiting on the \<open>io_context\<close> inside a worker of the engine, which is an observation of the step.
  \<^item> Reports of \<open>proto/load_controller.proto\<close> that the gRPC worker never fills in.
  \<^item> \<open>python/bindings.cpp\<close>, declarations for a library, and \<open>core/net/beast_sync.hpp\<close>, wrappers of calls on sockets.
  \<^item> The demo services, scripts, tests and deployment files, which are not part of the load tester.
\<close>

end
